theory Spec2Isabelle
  imports Main
begin

section \<open>Exceptions and external calls\<close>

text \<open>
  The notebooks call a hosted language model, tools and the console. Such a call
  may raise and may change the outside world, so it is a function from a world
  \<open>'w\<close> to a result and the next world. \<open>except Exception\<close> catches every exception
  derived from \<open>Exception\<close> and lets the others (\<open>KeyboardInterrupt\<close>, \<open>SystemExit\<close>)
  pass; the text carried is what \<open>str(e)\<close> gives. Console output of the agents
  (\<open>print\<close>) does not influence control flow and is left out, except in the
  interactive loop of the network assistant, where it is all the loop produces.
\<close>

datatype error = Exception string | BaseException string

type_synonym ('w, 'a) ext = "'w \<Rightarrow> (error + 'a) \<times> 'w"

subsection \<open>A scripted model and logging tools\<close>

text \<open>
  A world in which the model answers from a script, whatever it is asked, and
  every call of the model or of a tool is written to a log. Running an agent in
  this world gives the sequence of its external calls. An exhausted script stands
  for a request that fails.
\<close>

datatype 'a event = ModelCall | ToolCall string 'a

record ('r, 'a) rec_world =
  script :: "'r list"
  log :: "'a event list"

definition scripted_llm :: "'m \<Rightarrow> (('r, 'a) rec_world, 'r) ext" where
  "scripted_llm msgs w =
     (case script w of
        [] \<Rightarrow> (Inl (Exception ''request failed''), w\<lparr>log := log w @ [ModelCall]\<rparr>)
      | r # rs \<Rightarrow> (Inr r, w\<lparr>script := rs, log := log w @ [ModelCall]\<rparr>))"

definition logged_tool :: "string \<Rightarrow> ('a \<Rightarrow> 'o) \<Rightarrow> 'a \<Rightarrow> (('r, 'a) rec_world, 'o) ext" where
  "logged_tool nm f a w = (Inr (f a), w\<lparr>log := log w @ [ToolCall nm a]\<rparr>)"

definition start_world :: "'r list \<Rightarrow> ('r, 'a) rec_world" where
  "start_world rs = \<lparr>script = rs, log = []\<rparr>"

section \<open>Python strings\<close>

text \<open>
  The text that the agents exchange with the model and the user is a list of
  characters. On it, case mapping and the class \<open>\w\<close> are those of ASCII: \<open>A\<close> to
  \<open>Z\<close> are lowered and every other character is left as it is; a word character
  is a letter, a digit or the underscore. The functions on lists of characters
  are those of Python on any type of characters.
\<close>

definition newline :: char where
  "newline = CHR 0x0A"

definition py_lower :: "char \<Rightarrow> char" where
  "py_lower c =
     (case map_of (zip ''ABCDEFGHIJKLMNOPQRSTUVWXYZ'' ''abcdefghijklmnopqrstuvwxyz'') c of
        Some l \<Rightarrow> l
      | None \<Rightarrow> c)"

definition lower :: "string \<Rightarrow> string" where
  "lower s = map py_lower s"

definition is_word_char :: "char \<Rightarrow> bool" where
  "is_word_char c =
     (let n = (of_char c :: nat)
      in (48 \<le> n \<and> n \<le> 57) \<or> (65 \<le> n \<and> n \<le> 90) \<or> n = 95 \<or> (97 \<le> n \<and> n \<le> 122))"

text \<open>\<open>s.split(sep)\<close> for a separator of one character: never an empty list.\<close>

fun py_split :: "'c \<Rightarrow> 'c list \<Rightarrow> 'c list list" where
  "py_split sep [] = [[]]"
| "py_split sep (c # cs) =
     (if c = sep then [] # py_split sep cs
      else (case py_split sep cs of l # ls \<Rightarrow> (c # l) # ls | [] \<Rightarrow> [[c]]))"

text \<open>\<open>sep.join(xs)\<close>.\<close>

fun py_join :: "'c list \<Rightarrow> 'c list list \<Rightarrow> 'c list" where
  "py_join sep [] = []"
| "py_join sep [x] = x"
| "py_join sep (x # y # ys) = x @ sep @ py_join sep (y # ys)"

text \<open>\<open>sub in s\<close> on strings: \<open>sub\<close> occurs in \<open>s\<close> as a contiguous piece.\<close>

fun str_contains :: "'c list \<Rightarrow> 'c list \<Rightarrow> bool" where
  "str_contains sub [] = (sub = [])"
| "str_contains sub (c # cs) = (take (length sub) (c # cs) = sub \<or> str_contains sub cs)"

definition strip_prefix :: "string \<Rightarrow> string \<Rightarrow> string option" where
  "strip_prefix p s = (if take (length p) s = p then Some (drop (length p) s) else None)"

section \<open>The regular expressions of the notebooks\<close>

text \<open>
  The patterns the notebooks compile are sequences of literal characters, the
  anchors \<open>^\<close> and \<open>$\<close>, capture groups, and a greedy repetition of a character
  class (\<open>\w+\<close>, \<open>.*\<close>). The matcher is the backtracking one of Python's \<open>re\<close>: a
  repetition takes the longest run first and gives characters back one at a time
  while the rest of the pattern fails. Without \<open>re.MULTILINE\<close>, \<open>^\<close> matches at the
  start of the text only and \<open>$\<close> at its end or before a newline that ends it;
  \<open>.\<close> is any character but a newline.

  The matcher works on any type of characters. It is given \<open>eq\<close>, which says
  whether a character of the text matches a literal of the pattern (equality for
  a pattern compiled without flags, something coarser with \<open>re.IGNORECASE\<close>), and
  the newline character \<open>nl\<close>; then the number of characters before the position
  it starts at, the text from there on, the starts of the groups that are open
  and the groups already closed. It returns the text left after the match and
  the groups.
\<close>

datatype 'c rtok = Lit 'c | Rep "'c \<Rightarrow> bool" nat | Open | Close | Bol | Eol

text \<open>The class of \<open>.\<close>.\<close>

definition dot :: "'c \<Rightarrow> 'c \<Rightarrow> bool" where
  "dot nl c \<longleftrightarrow> c \<noteq> nl"

fun first_some :: "'a option list \<Rightarrow> 'a option" where
  "first_some [] = None"
| "first_some (Some x # xs) = Some x"
| "first_some (None # xs) = first_some xs"

fun rx_match :: "('c \<Rightarrow> 'c \<Rightarrow> bool) \<Rightarrow> 'c \<Rightarrow> 'c rtok list \<Rightarrow> nat \<Rightarrow> 'c list \<Rightarrow> 'c list list
    \<Rightarrow> 'c list list \<Rightarrow> ('c list \<times> 'c list list) option" where
  "rx_match eq nl [] n s st gs = Some (s, gs)"
| "rx_match eq nl (Lit c # ts) n s st gs =
     (case s of [] \<Rightarrow> None
      | x # xs \<Rightarrow> if eq x c then rx_match eq nl ts (Suc n) xs st gs else None)"
| "rx_match eq nl (Rep cl mn # ts) n s st gs =
     first_some (map (\<lambda>k. rx_match eq nl ts (n + k) (drop k s) st gs)
                     (rev [mn ..< Suc (length (takeWhile cl s))]))"
| "rx_match eq nl (Open # ts) n s st gs = rx_match eq nl ts n s (s # st) gs"
| "rx_match eq nl (Close # ts) n s st gs =
     (case st of [] \<Rightarrow> None
      | b # st' \<Rightarrow> rx_match eq nl ts n s st' (gs @ [take (length b - length s) b]))"
| "rx_match eq nl (Bol # ts) n s st gs = (if n = 0 then rx_match eq nl ts n s st gs else None)"
| "rx_match eq nl (Eol # ts) n s st gs =
     (if s = [] \<or> s = [nl] then rx_match eq nl ts n s st gs else None)"

declare rx_match.simps [simp del]

text \<open>
  \<open>pattern.match(s)\<close>, then \<open>.groups()\<close>, for a pattern compiled without flags: the
  match is tried at the start of \<open>s\<close>.
\<close>

definition re_match :: "char rtok list \<Rightarrow> string \<Rightarrow> string list option" where
  "re_match toks s = map_option snd (rx_match (=) newline toks 0 s [] [])"

text \<open>
  \<open>re.findall(pattern, s, flags)\<close> for a pattern without groups: the matched texts,
  from left to right, without overlap. After a match the search goes on where
  the match ended (one character further when the match was empty).
\<close>

function re_findall :: "('c \<Rightarrow> 'c \<Rightarrow> bool) \<Rightarrow> 'c \<Rightarrow> 'c rtok list \<Rightarrow> nat \<Rightarrow> 'c list \<Rightarrow> 'c list list" where
  "re_findall eq nl toks n s =
     (case rx_match eq nl toks n s [] [] of
        None \<Rightarrow> (case s of [] \<Rightarrow> [] | _ # s' \<Rightarrow> re_findall eq nl toks (Suc n) s')
      | Some (rest, _) \<Rightarrow>
          (let m = take (length s - length rest) s
           in if m = [] then [] # (case s of [] \<Rightarrow> [] | _ # s' \<Rightarrow> re_findall eq nl toks (Suc n) s')
              else m # re_findall eq nl toks (n + length m) (drop (length m) s)))"
  by pat_completeness auto
termination
  by (relation "measure (\<lambda>(eq, nl, toks, n, s). length s)") auto

declare re_findall.simps [simp del]
section \<open>The hand-rolled ReAct agent\<close>

subsection \<open>class Agent: the conversation\<close>

record chat_message =
  role :: string
  content :: string

record react_agent =
  system :: string
  messages :: "chat_message list"

text \<open>\<open>Agent.__init__(self, system="")\<close>: an empty string is falsy.\<close>

definition Agent_init :: "string \<Rightarrow> react_agent" where
  "Agent_init sys =
     (let self = \<lparr>system = sys, messages = []\<rparr>
      in if system self \<noteq> []
         then self\<lparr>messages := messages self @ [\<lparr>role = ''system'', content = sys\<rparr>]\<rparr>
         else self)"

text \<open>
  \<open>Agent.execute\<close> sends \<open>self.messages\<close> to the chat-completion endpoint and returns
  the content of the first choice; the endpoint is the parameter \<open>llm\<close>.
\<close>

definition execute :: "(chat_message list \<Rightarrow> ('w, string) ext) \<Rightarrow> react_agent \<Rightarrow> ('w, string) ext" where
  "execute llm self w = llm (messages self) w"

text \<open>
  \<open>Agent.__call__\<close>: the user entry is appended before the request is made, the
  assistant entry after it has returned. An exception of the request leaves the
  method between the two.
\<close>

definition Agent_call ::
  "(chat_message list \<Rightarrow> ('w, string) ext) \<Rightarrow> react_agent \<Rightarrow> string \<Rightarrow> 'w
     \<Rightarrow> (error + string) \<times> react_agent \<times> 'w" where
  "Agent_call llm self message w =
     (let self1 = self\<lparr>messages := messages self @ [\<lparr>role = ''user'', content = message\<rparr>]\<rparr>
      in case execute llm self1 w of
           (Inl e, w') \<Rightarrow> (Inl e, self1, w')
         | (Inr result, w') \<Rightarrow>
             (Inr result,
              self1\<lparr>messages := messages self1 @ [\<lparr>role = ''assistant'', content = result\<rparr>]\<rparr>,
              w'))"

text \<open>
  Any sequence of calls on one agent, whatever the caller does with the exceptions:
  the agent and the world after the last call.
\<close>

fun Agent_calls ::
  "(chat_message list \<Rightarrow> ('w, string) ext) \<Rightarrow> react_agent \<Rightarrow> string list \<Rightarrow> 'w
     \<Rightarrow> react_agent \<times> 'w" where
  "Agent_calls llm self [] w = (self, w)"
| "Agent_calls llm self (m # ms) w =
     (case Agent_call llm self m w of (_, self', w') \<Rightarrow> Agent_calls llm self' ms w')"

subsection \<open>The prompt and the actions\<close>

text \<open>The prompt of the notebook, after \<open>.strip()\<close>; its lines are joined by newlines.\<close>

definition prompt :: string where
  "prompt = py_join [newline]
     [''You run in a loop of Thought, Action, PAUSE, Observation.'',
      ''At the end of the loop you output an Answer.'',
      ''Use Thought to describe your thoughts about the question you have been asked.'',
      ''Use Action to run one of the actions available to you - then return PAUSE.'',
      ''Observation will be the result of running those actions.'',
      '''',
      ''Your available actions are:'',
      '''',
      ''calculate:'',
      ''e.g. calculate: 4 * 7 / 3'',
      ''Runs a calculation and returns the number - uses Python so be sure to use floating point syntax if necessary'',
      '''',
      ''average_elephant_weight:'',
      ''e.g. average_elephant_weight: African Elephant'',
      ''Returns the average weight of an elephant species when given the species name.'',
      '''',
      ''Example session:'',
      '''',
      ''Question: How much does an African Elephant weigh?'',
      ''Thought: I should look up the elephant's weight using average_elephant_weight.'',
      ''Action: average_elephant_weight: African Elephant'',
      ''PAUSE'',
      '''',
      ''You will be called again with this:'',
      '''',
      ''Observation: An African Elephant weighs 12,000 lbs.'',
      '''',
      ''You then output:'',
      '''',
      ''Answer: An African Elephant weighs 12,000 lbs.'']"

text \<open>
  What an action returns is a Python value: a string, or something else (what
  \<open>eval\<close> computed), which a format string turns into text with the value's own
  \<open>__format__\<close>, the parameter \<open>str\<close> below.
\<close>

datatype 'v pyval = Str string | Obj 'v

definition py_format :: "('v \<Rightarrow> string) \<Rightarrow> 'v pyval \<Rightarrow> string" where
  "py_format str v = (case v of Str s \<Rightarrow> s | Obj x \<Rightarrow> str x)"

text \<open>\<open>calculate\<close> hands its argument to Python's \<open>eval\<close>, the parameter \<open>py_eval\<close>.\<close>

definition calculate :: "(string \<Rightarrow> ('w, 'v pyval) ext) \<Rightarrow> string \<Rightarrow> ('w, 'v pyval) ext" where
  "calculate py_eval what = py_eval what"

definition weights :: "(string \<times> string) list" where
  "weights =
     [(''african elephant'', ''An African Elephant weighs 12,000 lbs''),
      (''asian elephant'', ''An Asian Elephant weighs 8,800 lbs''),
      (''forest elephant'', ''A Forest Elephant weighs 6,000 lbs''),
      (''pygmy elephant'', ''A Pygmy Elephant weighs 5,500 lbs''),
      (''indian elephant'', ''An Indian Elephant weighs 9,000 lbs''),
      (''sumatran elephant'', ''A Sumatran Elephant weighs 6,600 lbs''),
      (''sri lankan elephant'', ''A Sri Lankan Elephant weighs 10,000 lbs'')]"

definition average_elephant_weight :: "string \<Rightarrow> ('w, 'v pyval) ext" where
  "average_elephant_weight species w =
     (Inr (Str (case map_of weights (lower species) of
                  Some x \<Rightarrow> x
                | None \<Rightarrow> ''Unknown elephant species'')), w)"

definition known_actions ::
  "(string \<Rightarrow> ('w, 'v pyval) ext) \<Rightarrow> (string \<rightharpoonup> (string \<Rightarrow> ('w, 'v pyval) ext))" where
  "known_actions py_eval =
     [''calculate'' \<mapsto> calculate py_eval,
      ''average_elephant_weight'' \<mapsto> average_elephant_weight]"

subsection \<open>The loop\<close>

text \<open>\<open>action_re = re.compile(r'^Action: (\w+): (.*)$')\<close>\<close>

definition action_re :: "char rtok list" where
  "action_re = Bol # map Lit ''Action: '' @ [Open, Rep is_word_char 1, Close] @ map Lit '': ''
                 @ [Open, Rep (dot newline) 0, Close, Eol]"

text \<open>
  The list comprehension of \<open>query\<close>: the groups of the match of every line of the
  response that matches, in the order of the lines.
\<close>

definition find_actions :: "string \<Rightarrow> string list list" where
  "find_actions result = List.map_filter (re_match action_re) (py_split newline result)"

text \<open>
  The \<open>while\<close> loop of \<open>query\<close>, entered with the counter \<open>i\<close>, the agent and the
  next prompt. The dictionary of actions and the formatting of an observation are
  parameters. \<open>raise Exception(...)\<close> and every exception of the model or of an
  action end the loop with \<open>Inl\<close>; \<open>return\<close> and the end of the loop with \<open>Inr ()\<close>.
\<close>

function query_loop ::
  "(chat_message list \<Rightarrow> ('w, string) ext) \<Rightarrow> (string \<rightharpoonup> (string \<Rightarrow> ('w, 'v pyval) ext))
     \<Rightarrow> ('v \<Rightarrow> string) \<Rightarrow> int \<Rightarrow> int \<Rightarrow> react_agent \<Rightarrow> string \<Rightarrow> 'w
     \<Rightarrow> (error + unit) \<times> react_agent \<times> 'w" where
  "query_loop llm actions str max_turns i abot next_prompt w =
     (if i < max_turns then
        (case Agent_call llm abot next_prompt w of
           (Inl e, abot', w') \<Rightarrow> (Inl e, abot', w')
         | (Inr result, abot', w') \<Rightarrow>
             (case find_actions result of
                [] \<Rightarrow> (Inr (), abot', w')
              | groups # _ \<Rightarrow>
                  (case groups of
                     [action, action_input] \<Rightarrow>
                       (case actions action of
                          None \<Rightarrow>
                            (Inl (Exception (''Unknown action: '' @ action @ '': '' @ action_input)),
                             abot', w')
                        | Some f \<Rightarrow>
                            (case f action_input w' of
                               (Inl e, w'') \<Rightarrow> (Inl e, abot', w'')
                             | (Inr observation, w'') \<Rightarrow>
                                 query_loop llm actions str max_turns (i + 1) abot'
                                   (''Observation: '' @ py_format str observation) w''))
                   | _ \<Rightarrow> (Inl (Exception ''not enough values to unpack''), abot', w'))))
      else (Inr (), abot, w))"
  by pat_completeness auto
termination
  by (relation "measure (\<lambda>(llm, actions, str, max_turns, i, abot, next_prompt, w). nat (max_turns - i))")
     auto

declare query_loop.simps [simp del]

text \<open>\<open>query(question, max_turns=5)\<close>; it returns nothing.\<close>

definition query ::
  "(chat_message list \<Rightarrow> ('w, string) ext) \<Rightarrow> (string \<rightharpoonup> (string \<Rightarrow> ('w, 'v pyval) ext))
     \<Rightarrow> ('v \<Rightarrow> string) \<Rightarrow> string \<Rightarrow> int \<Rightarrow> 'w \<Rightarrow> (error + unit) \<times> 'w" where
  "query llm actions str question max_turns w =
     (case query_loop llm actions str max_turns 0 (Agent_init prompt) question w of
        (r, abot, w') \<Rightarrow> (r, w'))"

definition query_default ::
  "(chat_message list \<Rightarrow> ('w, string) ext) \<Rightarrow> (string \<rightharpoonup> (string \<Rightarrow> ('w, 'v pyval) ext))
     \<Rightarrow> ('v \<Rightarrow> string) \<Rightarrow> string \<Rightarrow> 'w \<Rightarrow> (error + unit) \<times> 'w" where
  "query_default llm actions str question w = query llm actions str question 5 w"

text \<open>
  Counting the calls of the model: the same model in a world that carries a
  counter, and actions that leave the counter alone.
\<close>

definition counted :: "('m \<Rightarrow> ('w, 'r) ext) \<Rightarrow> 'm \<Rightarrow> ('w \<times> nat, 'r) ext" where
  "counted llm msgs = (\<lambda>(w, n). case llm msgs w of (r, w') \<Rightarrow> (r, (w', Suc n)))"

definition uncounted :: "('a \<Rightarrow> ('w, 'r) ext) \<Rightarrow> 'a \<Rightarrow> ('w \<times> nat, 'r) ext" where
  "uncounted f a = (\<lambda>(w, n). case f a w of (r, w') \<Rightarrow> (r, (w', n)))"

text \<open>
  What the pattern \<open>^Action: (\w+): (.*)$\<close> says of a line: the line is
  \<open>Action: \<close>, a non-empty run of word characters, \<open>: \<close> and the rest.
\<close>

definition is_action_line :: "string \<Rightarrow> string \<Rightarrow> string \<Rightarrow> bool" where
  "is_action_line a action action_input \<longleftrightarrow>
     a = ''Action: '' @ action @ '': '' @ action_input \<and> action \<noteq> [] \<and> list_all is_word_char action"

definition parse_action :: "string \<Rightarrow> string list option" where
  "parse_action a =
     (case strip_prefix ''Action: '' a of
        None \<Rightarrow> None
      | Some s1 \<Rightarrow>
          (let w = takeWhile is_word_char s1; r = dropWhile is_word_char s1
           in if w = [] then None
              else (case strip_prefix '': '' r of
                      None \<Rightarrow> None
                    | Some action_input \<Rightarrow> Some [w, action_input])))"
subsection \<open>Sample responses\<close>

text \<open>Responses of the model and a world to run the loop on concrete inputs.\<close>

definition no_eval :: "string \<Rightarrow> ('w, 'v pyval) ext" where
  "no_eval what w = (Inl (Exception ''invalid syntax''), w)"

definition elephant_reply :: string where
  "elephant_reply = ''Thought: I should look up the weight.'' @ [newline]
     @ ''Action: average_elephant_weight: African Elephant'' @ [newline] @ ''PAUSE''"

definition elephant_question :: string where
  "elephant_question = ''How much does an African Elephant weigh?''"

definition elephant_answer :: string where
  "elephant_answer = ''Answer: An African Elephant weighs 12,000 lbs''"

definition elephant_world :: "(string, string) rec_world" where
  "elephant_world = start_world [elephant_reply, elephant_answer]"

definition two_actions_reply :: string where
  "two_actions_reply = ''Thought: I need two things.'' @ [newline]
     @ ''Action: average_elephant_weight: African Elephant'' @ [newline]
     @ ''Action: calculate: 1 + 1''"

definition unknown_reply :: string where
  "unknown_reply = ''Action: search: elephants''"

section \<open>The network assistant\<close>

subsection \<open>Commands\<close>

text \<open>
  \<open>execute_cisco_command\<close>: the three calls into Netmiko (\<open>ConnectHandler\<close>,
  \<open>send_command\<close>, \<open>disconnect\<close>) are parameters. The \<open>try\<close> block covers all three;
  its handler turns an exception derived from \<open>Exception\<close> into the returned text.
\<close>

definition device :: "(string \<times> string) list" where
  "device =
     [(''device_type'', ''cisco_ios''), (''host'', ''198.18.128.3''),
      (''username'', ''cisco''), (''password'', ''cisco123'')]"

definition except_Exception :: "error \<Rightarrow> 'w \<Rightarrow> (error + string) \<times> 'w" where
  "except_Exception e w =
     (case e of Exception msg \<Rightarrow> (Inr (''Error: '' @ msg), w) | BaseException msg \<Rightarrow> (Inl e, w))"

definition execute_cisco_command ::
  "((string \<times> string) list \<Rightarrow> ('w, 'c) ext) \<Rightarrow> ('c \<Rightarrow> string \<Rightarrow> ('w, string) ext)
     \<Rightarrow> ('c \<Rightarrow> ('w, unit) ext) \<Rightarrow> string \<Rightarrow> ('w, string) ext" where
  "execute_cisco_command ConnectHandler send_command disconnect command w =
     (case ConnectHandler device w of
        (Inl e, w1) \<Rightarrow> except_Exception e w1
      | (Inr connection, w1) \<Rightarrow>
          (case send_command connection command w1 of
             (Inl e, w2) \<Rightarrow> except_Exception e w2
           | (Inr output, w2) \<Rightarrow>
               (case disconnect connection w2 of
                  (Inl e, w3) \<Rightarrow> except_Exception e w3
                | (Inr _, w3) \<Rightarrow> (Inr output, w3))))"

subsection \<open>Logs\<close>

text \<open>
  The log that \<open>analyze_logs\<close> is given is any Python string, and what the
  function does with a letter outside ASCII depends on two different case
  mappings. So a log is the list of its code points here, integers as \<open>ord\<close>
  gives them; \<open>ustr\<close> gives the code points of an ASCII text.
\<close>

definition ustr :: "string \<Rightarrow> int list" where
  "ustr s = map of_char s"

definition lf :: int where
  "lf = 10"

text \<open>
  \<open>s.lower()\<close>, the full lowercase mapping of Unicode, as far as it bears on
  ASCII: \<open>A\<close> to \<open>Z\<close> become \<open>a\<close> to \<open>z\<close>; U+0130, the capital I with a dot, becomes
  \<open>i\<close> followed by the combining dot U+0307; the Kelvin sign U+212A becomes \<open>k\<close>.
  Every other code point becomes one code point outside ASCII, or stays, and is
  left as it is here: \<open>str_lower\<close> agrees with \<open>s.lower()\<close> on the places where an
  ASCII character stands and on which character it is.
\<close>

definition cp_lower :: "int \<Rightarrow> int list" where
  "cp_lower c =
     (if 65 \<le> c \<and> c \<le> 90 then [c + 32]
      else if c = 0x130 then [0x69, 0x307]
      else if c = 0x212A then [0x6B]
      else [c])"

definition str_lower :: "int list \<Rightarrow> int list" where
  "str_lower s = concat (map cp_lower s)"

text \<open>
  \<open>re.IGNORECASE\<close> on a pattern of type \<open>str\<close>. A character of the text matches a
  literal when its simple lowercase mapping is the one of the literal or a
  letter that the module counts as the same: the dotless i U+0131 and \<open>i\<close>, the
  long s U+017F and \<open>s\<close>. The simple mapping takes U+0130 to \<open>i\<close> alone and the
  Kelvin sign to \<open>k\<close>. As above, only what bears on ASCII literals is written
  out.
\<close>

definition sre_lower :: "int \<Rightarrow> int" where
  "sre_lower c =
     (if 65 \<le> c \<and> c \<le> 90 then c + 32
      else if c = 0x130 then 0x69
      else if c = 0x212A then 0x6B
      else c)"

definition ignorecase_fixes :: "int \<Rightarrow> int list" where
  "ignorecase_fixes c =
     (if c = 0x69 then [0x131] else if c = 0x131 then [0x69]
      else if c = 0x73 then [0x17F] else if c = 0x17F then [0x73]
      else [])"

definition ignorecase :: "int \<Rightarrow> int \<Rightarrow> bool" where
  "ignorecase x c \<longleftrightarrow> sre_lower x \<in> set (sre_lower c # ignorecase_fixes (sre_lower c))"

text \<open>
  \<open>analyze_logs\<close>. Every operation in it is defined on every string, so the
  function has no exceptional result.
\<close>

definition error_re :: "int rtok list" where
  "error_re = map Lit (ustr ''error'') @ [Rep (dot lf) 0]"

definition warning_re :: "int rtok list" where
  "warning_re = map Lit (ustr ''warning'') @ [Rep (dot lf) 0]"

definition analyze_logs :: "int list \<Rightarrow> int list" where
  "analyze_logs log_data =
     (let issues = [];
          issues = (if str_contains (ustr ''error'') (str_lower log_data)
                    then issues @ re_findall ignorecase lf error_re 0 log_data else issues);
          issues = (if str_contains (ustr ''warning'') (str_lower log_data)
                    then issues @ re_findall ignorecase lf warning_re 0 log_data else issues)
      in if issues \<noteq> [] then py_join [lf] issues else ustr ''No issues found in the logs.'')"

subsection \<open>The interactive loop\<close>

text \<open>
  The interactive loop under \<open>if __name__ == "__main__"\<close>. What the user types is a
  list of lines; \<open>input\<close> raises \<open>EOFError\<close> when none is left. \<open>agent.run\<close> is a
  parameter. The loop yields what it has written to the console.
\<close>

fun main_loop ::
  "(string \<Rightarrow> ('w, string) ext) \<Rightarrow> string list \<Rightarrow> string list \<Rightarrow> 'w
     \<Rightarrow> (error + unit) \<times> string list \<times> 'w" where
  "main_loop run [] out w =
     (Inl (Exception ''EOF when reading a line''), out @ [''Enter your command or query: ''], w)"
| "main_loop run (user_input # inputs) out w =
     (let out = out @ [''Enter your command or query: '']
      in if lower user_input \<in> set [''exit'', ''quit''] then (Inr (), out @ [''Goodbye!''], w)
         else (case run user_input w of
                 (Inr response, w') \<Rightarrow>
                   main_loop run inputs (out @ [''Response:'' @ [newline] @ response]) w'
               | (Inl (Exception msg), w') \<Rightarrow> main_loop run inputs (out @ [''Error: '' @ msg]) w'
               | (Inl (BaseException msg), w') \<Rightarrow> (Inl (BaseException msg), out, w')))"

definition main ::
  "(string \<Rightarrow> ('w, string) ext) \<Rightarrow> string list \<Rightarrow> 'w \<Rightarrow> (error + unit) \<times> string list \<times> 'w" where
  "main run inputs w = main_loop run inputs [''Welcome to the Smart Network Assistant!''] w"

subsection \<open>What the patterns find\<close>

text \<open>A word starts a text, each of its letters matched as \<open>re.IGNORECASE\<close> does.\<close>

definition ic_prefix :: "int list \<Rightarrow> int list \<Rightarrow> bool" where
  "ic_prefix word s \<longleftrightarrow>
     length word \<le> length s \<and> list_all2 ignorecase (take (length word) s) word"

text \<open>
  What \<open>error.*\<close> and \<open>warning.*\<close> find, said line by line: in every line in which
  the word occurs, the piece from its first occurrence to the end of the line.
\<close>

fun from_first :: "int list \<Rightarrow> int list \<Rightarrow> int list option" where
  "from_first word [] = (if word = [] then Some [] else None)"
| "from_first word (c # cs) =
     (if ic_prefix word (c # cs) then Some (c # cs) else from_first word cs)"

definition line_matches :: "int list \<Rightarrow> int list \<Rightarrow> int list list" where
  "line_matches word s = List.map_filter (from_first word) (py_split lf s)"

text \<open>
  Logs to run \<open>analyze_logs\<close> on: one of ASCII, and two in which \<open>WARNING\<close> is
  written with the dotless i.
\<close>

definition sample_log :: "int list" where
  "sample_log = ustr ''link up'' @ [lf] @ ustr ''%SYS-3 ERROR: bad error'' @ [lf] @ ustr ''WARNing z''"

definition dotless_warning :: "int list" where
  "dotless_warning = ustr ''WARN'' @ [0x131] @ ustr ''NG x''"

definition dotless_log :: "int list" where
  "dotless_log = ustr ''error'' @ [lf] @ dotless_warning"

section \<open>The LangGraph agent\<close>

subsection \<open>Messages and state\<close>

text \<open>
  A tool call is the dictionary with the keys \<open>name\<close>, \<open>args\<close> and \<open>id\<close> that the
  model puts into the \<open>tool_calls\<close> of its message. \<open>ToolMessage\<close> carries
  \<open>tool_call_id\<close>, \<open>name\<close> and \<open>content\<close>, in this order. Only the message of the
  model has the attribute \<open>tool_calls\<close>.
\<close>

record 'a tool_call =
  name :: string
  args :: 'a
  call_id :: string

datatype 'a message =
    SystemMessage string
  | HumanMessage string
  | AIMessage string "'a tool_call list"
  | ToolMessage string string string

record 'a AgentState =
  state_messages :: "'a message list"

definition tool_calls :: "'a message \<Rightarrow> error + 'a tool_call list" where
  "tool_calls m =
     (case m of
        AIMessage c tcs \<Rightarrow> Inr tcs
      | _ \<Rightarrow> Inl (Exception ''object has no attribute tool_calls''))"

text \<open>\<open>state['messages'][-1]\<close>\<close>

definition last_message :: "'a AgentState \<Rightarrow> error + 'a message" where
  "last_message state =
     (if state_messages state = [] then Inl (Exception ''list index out of range'')
      else Inr (last (state_messages state)))"

subsection \<open>The graph\<close>

text \<open>
  What \<open>StateGraph\<close> records: the function of every node, the conditional edges
  (a predicate on the state and the node for each of its values), the plain
  edges and the entry point. \<open>END\<close> is the name at which a run stops. A node
  returns an update of the state; \<open>AgentState\<close> declares \<open>operator.add\<close> for
  \<open>messages\<close>, so the update is appended.
\<close>

record ('w, 'a) StateGraph =
  nodes :: "string \<rightharpoonup> ('a AgentState \<Rightarrow> ('w, 'a message list) ext)"
  branches :: "string \<rightharpoonup> (('a AgentState \<Rightarrow> error + bool) \<times> (bool \<rightharpoonup> string))"
  edges :: "string \<rightharpoonup> string"
  entry_point :: "string option"

definition END :: string where
  "END = ''__end__''"

definition new_graph :: "('w, 'a) StateGraph" where
  "new_graph = \<lparr>nodes = Map.empty, branches = Map.empty, edges = Map.empty, entry_point = None\<rparr>"

definition add_node ::
  "string \<Rightarrow> ('a AgentState \<Rightarrow> ('w, 'a message list) ext) \<Rightarrow> ('w, 'a) StateGraph \<Rightarrow> ('w, 'a) StateGraph" where
  "add_node key action g = g\<lparr>nodes := (nodes g)(key \<mapsto> action)\<rparr>"

definition add_conditional_edges ::
  "string \<Rightarrow> ('a AgentState \<Rightarrow> error + bool) \<Rightarrow> (bool \<rightharpoonup> string) \<Rightarrow> ('w, 'a) StateGraph
     \<Rightarrow> ('w, 'a) StateGraph" where
  "add_conditional_edges source path path_map g = g\<lparr>branches := (branches g)(source \<mapsto> (path, path_map))\<rparr>"

definition add_edge :: "string \<Rightarrow> string \<Rightarrow> ('w, 'a) StateGraph \<Rightarrow> ('w, 'a) StateGraph" where
  "add_edge start_key end_key g = g\<lparr>edges := (edges g)(start_key \<mapsto> end_key)\<rparr>"

definition set_entry_point :: "string \<Rightarrow> ('w, 'a) StateGraph \<Rightarrow> ('w, 'a) StateGraph" where
  "set_entry_point key g = g\<lparr>entry_point := Some key\<rparr>"

text \<open>
  Running the compiled graph, one node at a time: the node's function is applied
  to the state, its update is appended, and the next node is the one the
  conditional edge of the node selects on the new state, or else the target of
  its plain edge.
\<close>

definition next_node :: "('w, 'a) StateGraph \<Rightarrow> string \<Rightarrow> 'a AgentState \<Rightarrow> error + string" where
  "next_node g n state =
     (case branches g n of
        Some (path, path_map) \<Rightarrow>
          (case path state of
             Inl e \<Rightarrow> Inl e
           | Inr b \<Rightarrow> (case path_map b of Some t \<Rightarrow> Inr t | None \<Rightarrow> Inl (Exception ''KeyError'')))
      | None \<Rightarrow> (case edges g n of Some t \<Rightarrow> Inr t | None \<Rightarrow> Inr END))"

definition graph_step ::
  "('w, 'a) StateGraph \<Rightarrow> string \<Rightarrow> 'a AgentState \<Rightarrow> 'w \<Rightarrow> (error + string \<times> 'a AgentState) \<times> 'w" where
  "graph_step g n state w =
     (case nodes g n of
        None \<Rightarrow> (Inl (Exception ''unknown node''), w)
      | Some f \<Rightarrow>
          (case f state w of
             (Inl e, w') \<Rightarrow> (Inl e, w')
           | (Inr update, w') \<Rightarrow>
               (let state' = state\<lparr>state_messages := state_messages state @ update\<rparr>
                in case next_node g n state' of
                     Inl e \<Rightarrow> (Inl e, w')
                   | Inr t \<Rightarrow> (Inr (t, state'), w'))))"

text \<open>
  A run need not end by itself: the model may ask for tools for ever. LangGraph
  bounds a run by the \<open>recursion_limit\<close> of its configuration, which is 25 when
  the caller gives none, as in every call of \<open>graph.invoke\<close> and \<open>graph.stream\<close> of
  the notebooks: a run that has not come to \<open>END\<close> in fewer steps than the limit
  is stopped with \<open>GraphRecursionError\<close>, after the steps the limit allows.
  \<open>graph_run\<close> is given the number of steps left; \<open>graph_path\<close> lists the nodes
  that a run enters.
\<close>

definition recursion_limit :: nat where
  "recursion_limit = 25"

definition GraphRecursionError :: error where
  "GraphRecursionError = Exception ''Recursion limit reached without hitting a stop condition''"

fun graph_run ::
  "nat \<Rightarrow> ('w, 'a) StateGraph \<Rightarrow> string \<Rightarrow> 'a AgentState \<Rightarrow> 'w \<Rightarrow> (error + 'a AgentState) \<times> 'w" where
  "graph_run 0 g n state w = (Inl GraphRecursionError, w)"
| "graph_run (Suc k) g n state w =
     (if n = END then (Inr state, w)
      else (case graph_step g n state w of
              (Inl e, w') \<Rightarrow> (Inl e, w')
            | (Inr (t, state'), w') \<Rightarrow> graph_run k g t state' w'))"


text \<open>\<open>graph.invoke(input, {"recursion_limit": limit})\<close>, and \<open>graph.invoke(input)\<close>.\<close>

definition graph_invoke ::
  "nat \<Rightarrow> ('w, 'a) StateGraph \<Rightarrow> 'a AgentState \<Rightarrow> 'w \<Rightarrow> (error + 'a AgentState) \<times> 'w" where
  "graph_invoke limit g input w =
     (case entry_point g of
        None \<Rightarrow> (Inl (Exception ''no entry point''), w)
      | Some n \<Rightarrow> graph_run limit g n input w)"

definition graph_invoke_default ::
  "('w, 'a) StateGraph \<Rightarrow> 'a AgentState \<Rightarrow> 'w \<Rightarrow> (error + 'a AgentState) \<times> 'w" where
  "graph_invoke_default g input w = graph_invoke recursion_limit g input w"

subsection \<open>class Agent\<close>

text \<open>
  The class is the same in the notebook of the interactive agent and in the one
  of the agent with memory, which only compiles the graph with a checkpointer.
  A tool has a name and can be invoked; a chat model is bound to the tools and
  then invoked on a list of messages. \<open>self.tools\<close> maps each name to the last
  tool of that name.
\<close>

record ('w, 'a, 'r) tool =
  tool_name :: string
  invoke :: "'a \<Rightarrow> ('w, 'r) ext"

record ('w, 'a, 'r) lg_agent =
  lg_system :: string
  lg_tools :: "string \<rightharpoonup> ('w, 'a, 'r) tool"
  lg_model :: "'a message list \<Rightarrow> ('w, 'a message) ext"

definition exists_action :: "('w, 'a, 'r) lg_agent \<Rightarrow> 'a AgentState \<Rightarrow> error + bool" where
  "exists_action self state =
     (case last_message state of
        Inl e \<Rightarrow> Inl e
      | Inr result \<Rightarrow>
          (case tool_calls result of Inl e \<Rightarrow> Inl e | Inr tcs \<Rightarrow> Inr (length tcs > 0)))"

definition call_openai :: "('w, 'a, 'r) lg_agent \<Rightarrow> 'a AgentState \<Rightarrow> ('w, 'a message list) ext" where
  "call_openai self state w =
     (let messages = state_messages state;
          messages = (if lg_system self \<noteq> [] then [SystemMessage (lg_system self)] @ messages
                      else messages)
      in case lg_model self messages w of
           (Inl e, w') \<Rightarrow> (Inl e, w')
         | (Inr message, w') \<Rightarrow> (Inr [message], w'))"

text \<open>
  The \<open>for\<close> loop of \<open>take_action\<close>, with the results gathered so far. The text of
  the retry request is a string, which \<open>str\<close> leaves as it is; \<open>str\<close> of a tool's
  result is the parameter \<open>str\<close>.
\<close>

fun run_tool_calls ::
  "('w, 'a, 'r) lg_agent \<Rightarrow> ('r \<Rightarrow> string) \<Rightarrow> 'a tool_call list \<Rightarrow> 'a message list
     \<Rightarrow> ('w, 'a message list) ext" where
  "run_tool_calls self str [] results w = (Inr results, w)"
| "run_tool_calls self str (t # ts) results w =
     (case lg_tools self (name t) of
        None \<Rightarrow>
          run_tool_calls self str ts
            (results @ [ToolMessage (call_id t) (name t) ''bad tool name, retry'']) w
      | Some tool \<Rightarrow>
          (case invoke tool (args t) w of
             (Inl e, w') \<Rightarrow> (Inl e, w')
           | (Inr result, w') \<Rightarrow>
               run_tool_calls self str ts
                 (results @ [ToolMessage (call_id t) (name t) (str result)]) w'))"

definition take_action ::
  "('w, 'a, 'r) lg_agent \<Rightarrow> ('r \<Rightarrow> string) \<Rightarrow> 'a AgentState \<Rightarrow> ('w, 'a message list) ext" where
  "take_action self str state w =
     (case last_message state of
        Inl e \<Rightarrow> (Inl e, w)
      | Inr m \<Rightarrow>
          (case tool_calls m of
             Inl e \<Rightarrow> (Inl e, w)
           | Inr tcs \<Rightarrow> run_tool_calls self str tcs [] w))"

text \<open>
  \<open>Agent.__init__(self, model, tools, system="")\<close>: the fields, and the graph it
  builds and compiles.
\<close>

definition lg_Agent_init ::
  "(('w, 'a, 'r) tool list \<Rightarrow> 'a message list \<Rightarrow> ('w, 'a message) ext) \<Rightarrow> ('w, 'a, 'r) tool list \<Rightarrow> string
     \<Rightarrow> ('w, 'a, 'r) lg_agent" where
  "lg_Agent_init model tools sys =
     \<lparr>lg_system = sys,
      lg_tools = foldl (\<lambda>m t. m(tool_name t \<mapsto> t)) Map.empty tools,
      lg_model = model tools\<rparr>"

definition Agent_graph :: "('w, 'a, 'r) lg_agent \<Rightarrow> ('r \<Rightarrow> string) \<Rightarrow> ('w, 'a) StateGraph" where
  "Agent_graph self str =
     set_entry_point ''llm''
       (add_edge ''action'' ''llm''
          (add_conditional_edges ''llm'' (exists_action self) [True \<mapsto> ''action'', False \<mapsto> END]
             (add_node ''action'' (take_action self str)
                (add_node ''llm'' (call_openai self) new_graph))))"


subsection \<open>A sample run\<close>

text \<open>
  The agent of the notebook with its prompt and its search tool, in the world of
  the scripted model, and a question whose first answer asks for the search tool
  and for a tool that does not exist.
\<close>

definition research_prompt :: string where
  "research_prompt = ''You are a smart research assistant. Use the search engine to look up information. You are allowed to make multiple calls (either together or in sequence). Only look up information when you are sure of what you want. If you need to look up some information before asking a follow up question, you are allowed to do that!''"

definition search_tool :: "((string message, string) rec_world, string, string) tool" where
  "search_tool =
     \<lparr>tool_name = ''tavily_search_results_json'',
      invoke = logged_tool ''tavily_search_results_json'' (\<lambda>q. ''results for '' @ q)\<rparr>"

definition scripted_model ::
  "(('r, 'a) rec_world, 'a, 'o) tool list \<Rightarrow> 'm \<Rightarrow> (('r, 'a) rec_world, 'r) ext" where
  "scripted_model tools msgs = scripted_llm msgs"

definition research_bot :: "((string message, string) rec_world, string, string) lg_agent" where
  "research_bot = lg_Agent_init scripted_model [search_tool] research_prompt"

definition search_call :: "string tool_call" where
  "search_call = \<lparr>name = ''tavily_search_results_json'', args = ''nobel prize physics'', call_id = ''call_1''\<rparr>"

definition wiki_call :: "string tool_call" where
  "wiki_call = \<lparr>name = ''wikipedia'', args = ''nobel prize physics'', call_id = ''call_2''\<rparr>"

definition nobel_question :: "string AgentState" where
  "nobel_question = \<lparr>state_messages = [HumanMessage ''who won the latest nobel prize in physics?'']\<rparr>"

definition nobel_world :: "(string message, string) rec_world" where
  "nobel_world = start_world [AIMessage [] [search_call, wiki_call], AIMessage ''It was X.'' []]"

definition nobel_asked :: "string AgentState" where
  "nobel_asked = \<lparr>state_messages =
     [HumanMessage ''who won the latest nobel prize in physics?'',
      AIMessage [] [search_call, wiki_call]]\<rparr>"

definition nobel_tools_run :: "string message list" where
  "nobel_tools_run =
     [ToolMessage ''call_1'' ''tavily_search_results_json'' ''results for nobel prize physics'',
      ToolMessage ''call_2'' ''wikipedia'' ''bad tool name, retry'']"


definition wiki_asked :: "string AgentState" where
  "wiki_asked = \<lparr>state_messages = [AIMessage [] [wiki_call]]\<rparr>"

section \<open>The two loops side by side\<close>

text \<open>
  To run the hand-rolled loop and the graph on the same outputs of the model, an
  output is either a request for one tool with an input or a final text. The
  hand-rolled loop reads it as a line of text, the graph as a message with tool
  calls. Both are given the same functions as tools, each call written to the
  log; \<open>events\<close> is the sequence of calls that a list of requests followed by a
  final text should produce.
\<close>

datatype intent = Act string string | Say string

definition as_text :: "intent \<Rightarrow> string" where
  "as_text x = (case x of Act n a \<Rightarrow> ''Action: '' @ n @ '': '' @ a | Say s \<Rightarrow> s)"

definition as_message :: "intent \<Rightarrow> string message" where
  "as_message x =
     (case x of
        Act n a \<Rightarrow> AIMessage [] [\<lparr>name = n, args = a, call_id = ''call''\<rparr>]
      | Say s \<Rightarrow> AIMessage s [])"

definition logged_actions ::
  "(string \<rightharpoonup> (string \<Rightarrow> string)) \<Rightarrow> (string \<rightharpoonup> (string \<Rightarrow> ((string, string) rec_world, 'v pyval) ext))" where
  "logged_actions fs n = map_option (\<lambda>f. logged_tool n (\<lambda>a. Str (f a))) (fs n)"

definition logged_tools ::
  "(string \<rightharpoonup> (string \<Rightarrow> string)) \<Rightarrow> (string \<rightharpoonup> ((string message, string) rec_world, string, string) tool)" where
  "logged_tools fs n = map_option (\<lambda>f. \<lparr>tool_name = n, invoke = logged_tool n f\<rparr>) (fs n)"

definition logged_agent ::
  "string \<Rightarrow> (string \<rightharpoonup> (string \<Rightarrow> string)) \<Rightarrow> ((string message, string) rec_world, string, string) lg_agent" where
  "logged_agent sys fs = \<lparr>lg_system = sys, lg_tools = logged_tools fs, lg_model = scripted_llm\<rparr>"

definition acts :: "(string \<times> string) list \<Rightarrow> intent list" where
  "acts xs = map (\<lambda>(n, a). Act n a) xs"

definition events :: "(string \<times> string) list \<Rightarrow> string event list" where
  "events xs = concat (map (\<lambda>(n, a). [ModelCall, ToolCall n a]) xs) @ [ModelCall]"

text \<open>
  A request that both agents can be given: the tool is known, its name is a
  non-empty run of word characters and its input has no line break. Then the
  line \<open>Action: <name>: <input>\<close> matches the pattern of the hand-rolled loop
  with this name and this input.
\<close>

definition well_formed :: "(string \<rightharpoonup> (string \<Rightarrow> string)) \<Rightarrow> string \<times> string \<Rightarrow> bool" where
  "well_formed fs x \<longleftrightarrow>
     fst x \<in> dom fs \<and> fst x \<noteq> [] \<and> list_all is_word_char (fst x) \<and> newline \<notin> set (snd x)"

subsection \<open>Sample failures and tools\<close>

text \<open>
  A connection, a command, a disconnection and an \<open>agent.run\<close> that fail, a tool
  that fails, and a dictionary of two tools.
\<close>

definition search_fs :: "string \<rightharpoonup> (string \<Rightarrow> string)" where
  "search_fs = [''tavily_search_results_json'' \<mapsto> (\<lambda>q. ''results for '' @ q)]"

definition web_fs :: "string \<rightharpoonup> (string \<Rightarrow> string)" where
  "web_fs = [''web-search'' \<mapsto> (\<lambda>q. ''results for '' @ q)]"

definition twelve_searches :: "(string \<times> string) list" where
  "twelve_searches = replicate 12 (''tavily_search_results_json'', ''nobel'')"

definition elephant_fs :: "string \<rightharpoonup> (string \<Rightarrow> string)" where
  "elephant_fs = [''average_elephant_weight'' \<mapsto> (\<lambda>species. ''An African Elephant weighs 12,000 lbs'')]"

definition failing_connect :: "(string \<times> string) list \<Rightarrow> (unit, unit) ext" where
  "failing_connect dev w = (Inl (Exception ''TCP connection to device failed''), w)"

definition echo_send :: "unit \<Rightarrow> string \<Rightarrow> (unit, string) ext" where
  "echo_send connection command w = (Inr command, w)"

definition ok_disconnect :: "unit \<Rightarrow> (unit, unit) ext" where
  "ok_disconnect connection w = (Inr (), w)"

definition ok_connect :: "(string \<times> string) list \<Rightarrow> (unit, unit) ext" where
  "ok_connect dev w = (Inr (), w)"

definition failing_send :: "unit \<Rightarrow> string \<Rightarrow> (unit, string) ext" where
  "failing_send connection command w = (Inl (Exception ''socket closed''), w)"

definition failing_disconnect :: "unit \<Rightarrow> (unit, unit) ext" where
  "failing_disconnect connection w = (Inl (Exception ''session lost''), w)"

definition failing_run :: "string \<Rightarrow> (unit, string) ext" where
  "failing_run user_input w = (Inl (Exception ''Could not parse LLM output''), w)"

definition broken_tool :: "((string message, string) rec_world, string, string) tool" where
  "broken_tool =
     \<lparr>tool_name = ''tavily_search_results_json'',
      invoke = (\<lambda>q w. (Inl (Exception ''rate limit exceeded''), w))\<rparr>"

definition broken_bot :: "((string message, string) rec_world, string, string) lg_agent" where
  "broken_bot = lg_Agent_init scripted_model [broken_tool] research_prompt"

definition calculate_reply :: string where
  "calculate_reply = ''Action: calculate: 1 +''"

definition two_fs :: "string \<rightharpoonup> (string \<Rightarrow> string)" where
  "two_fs = [''tavily_search_results_json'' \<mapsto> (\<lambda>q. ''results for '' @ q),
             ''calculator'' \<mapsto> (\<lambda>e. ''4'')]"

definition calculator_call :: "string tool_call" where
  "calculator_call = \<lparr>name = ''calculator'', args = ''2 + 2'', call_id = ''call_3''\<rparr>"

section \<open>Properties of the conversation\<close>

lemma Agent_call_extends:
  "\<exists>new. messages (fst (snd (Agent_call llm self m w))) = messages self @ new \<and> new \<noteq> []"
  by (auto simp: Agent_call_def Let_def split: prod.splits sum.splits)

lemma Agent_calls_extends:
  "\<exists>new. messages (fst (Agent_calls llm self ms w)) = messages self @ new"
proof (induction ms arbitrary: self w)
  case Nil
  show ?case by simp
next
  case (Cons m ms)
  obtain r self' w' where c: "Agent_call llm self m w = (r, self', w')"
    by (cases "Agent_call llm self m w") auto
  from Agent_call_extends [of llm self m w] c
  obtain n1 where n1: "messages self' = messages self @ n1" by auto
  from Cons.IH [of self' w']
  obtain n2 where n2: "messages (fst (Agent_calls llm self' ms w')) = messages self' @ n2"
    by auto
  show ?case using c n1 n2 by simp
qed

lemma Agent_calls_system:
  "system (fst (Agent_calls llm self ms w)) = system self"
proof (induction ms arbitrary: self w)
  case Nil
  show ?case by simp
next
  case (Cons m ms)
  obtain r self' w' where c: "Agent_call llm self m w = (r, self', w')"
    by (cases "Agent_call llm self m w") auto
  then have "system self' = system self"
    by (auto simp: Agent_call_def Let_def split: prod.splits sum.splits)
  with Cons.IH [of self' w'] c show ?case by simp
qed

text \<open>
  C10, as far as the code goes. A call whose request returns appends the user
  entry and then the assistant entry with the reply; a call whose request raises
  has appended the user entry only. Either way the entries already present stay
  where they are, so after any sequence of calls on an agent constructed with a
  non-empty system string the first entry is still the system entry.
\<close>

theorem Agent_call_appends:
  "(\<forall>result w'. llm (messages self @ [\<lparr>role = ''user'', content = m\<rparr>]) w = (Inr result, w') \<longrightarrow>
       Agent_call llm self m w =
         (Inr result,
          self\<lparr>messages := messages self @
             [\<lparr>role = ''user'', content = m\<rparr>, \<lparr>role = ''assistant'', content = result\<rparr>]\<rparr>,
          w'))
   \<and> (\<forall>e w'. llm (messages self @ [\<lparr>role = ''user'', content = m\<rparr>]) w = (Inl e, w') \<longrightarrow>
       Agent_call llm self m w =
         (Inl e, self\<lparr>messages := messages self @ [\<lparr>role = ''user'', content = m\<rparr>]\<rparr>, w'))
   \<and> (sys \<noteq> [] \<longrightarrow>
       (\<exists>rest. messages (fst (Agent_calls llm (Agent_init sys) ms w)) =
                 \<lparr>role = ''system'', content = sys\<rparr> # rest))"
proof (intro conjI allI impI)
  fix result w'
  assume "llm (messages self @ [\<lparr>role = ''user'', content = m\<rparr>]) w = (Inr result, w')"
  then show "Agent_call llm self m w =
         (Inr result,
          self\<lparr>messages := messages self @
             [\<lparr>role = ''user'', content = m\<rparr>, \<lparr>role = ''assistant'', content = result\<rparr>]\<rparr>,
          w')"
    by (simp add: Agent_call_def execute_def Let_def)
next
  fix e w'
  assume "llm (messages self @ [\<lparr>role = ''user'', content = m\<rparr>]) w = (Inl e, w')"
  then show "Agent_call llm self m w =
         (Inl e, self\<lparr>messages := messages self @ [\<lparr>role = ''user'', content = m\<rparr>]\<rparr>, w')"
    by (simp add: Agent_call_def execute_def Let_def)
next
  assume s: "sys \<noteq> []"
  from Agent_calls_extends [of llm "Agent_init sys" ms w]
  obtain new where "messages (fst (Agent_calls llm (Agent_init sys) ms w)) =
      messages (Agent_init sys) @ new" by auto
  with s show "\<exists>rest. messages (fst (Agent_calls llm (Agent_init sys) ms w)) =
                 \<lparr>role = ''system'', content = sys\<rparr> # rest"
    by (simp add: Agent_init_def Let_def)
qed

theorem Agent_call_appends_witness:
  "Agent_call scripted_llm (Agent_init ''sys'') ''hi'' (start_world [''hello''] :: (string, string) rec_world) =
     (Inr ''hello'',
      \<lparr>system = ''sys'',
       messages = [\<lparr>role = ''system'', content = ''sys''\<rparr>, \<lparr>role = ''user'', content = ''hi''\<rparr>,
                   \<lparr>role = ''assistant'', content = ''hello''\<rparr>]\<rparr>,
      \<lparr>script = [], log = [ModelCall]\<rparr>)
   \<and> Agent_call scripted_llm (Agent_init ''sys'') ''hi'' (start_world [] :: (string, string) rec_world) =
     (Inl (Exception ''request failed''),
      \<lparr>system = ''sys'',
       messages = [\<lparr>role = ''system'', content = ''sys''\<rparr>, \<lparr>role = ''user'', content = ''hi''\<rparr>]\<rparr>,
      \<lparr>script = [], log = [ModelCall]\<rparr>)
   \<and> ''sys'' \<noteq> []
   \<and> (\<exists>rest. messages (fst (Agent_calls scripted_llm (Agent_init ''sys'') [''a'', ''b'']
                  (start_world [''x''] :: (string, string) rec_world))) =
          \<lparr>role = ''system'', content = ''sys''\<rparr> # rest)"
proof -
  let ?ok = "start_world [''hello''] :: (string, string) rec_world"
  let ?ko = "start_world [] :: (string, string) rec_world"
  let ?w = "start_world [''x''] :: (string, string) rec_world"
  let ?u = "\<lparr>role = ''user'', content = ''hi''\<rparr>"
  have r1: "scripted_llm (messages (Agent_init ''sys'') @ [?u]) ?ok =
      (Inr ''hello'', \<lparr>script = [], log = [ModelCall]\<rparr>)"
    by (simp add: scripted_llm_def start_world_def)
  have r2: "scripted_llm (messages (Agent_init ''sys'') @ [?u]) ?ko =
      (Inl (Exception ''request failed''), \<lparr>script = [], log = [ModelCall]\<rparr>)"
    by (simp add: scripted_llm_def start_world_def)
  have i: "Agent_init ''sys'' = \<lparr>system = ''sys'', messages = [\<lparr>role = ''system'', content = ''sys''\<rparr>]\<rparr>"
    by (simp add: Agent_init_def Let_def)
  from Agent_call_appends [of scripted_llm "Agent_init ''sys''" "''hi''" ?ok "''sys''" "[''a'', ''b'']"] r1
  have a: "Agent_call scripted_llm (Agent_init ''sys'') ''hi'' ?ok =
     (Inr ''hello'',
      (Agent_init ''sys'')\<lparr>messages := messages (Agent_init ''sys'') @
         [?u, \<lparr>role = ''assistant'', content = ''hello''\<rparr>]\<rparr>,
      \<lparr>script = [], log = [ModelCall]\<rparr>)"
    by blast
  from Agent_call_appends [of scripted_llm "Agent_init ''sys''" "''hi''" ?ko "''sys''" "[''a'', ''b'']"] r2
  have b: "Agent_call scripted_llm (Agent_init ''sys'') ''hi'' ?ko =
     (Inl (Exception ''request failed''),
      (Agent_init ''sys'')\<lparr>messages := messages (Agent_init ''sys'') @ [?u]\<rparr>,
      \<lparr>script = [], log = [ModelCall]\<rparr>)"
    by blast
  have s: "''sys'' \<noteq> []" by simp
  from Agent_call_appends [of scripted_llm "Agent_init ''sys''" "''hi''" ?w "''sys''" "[''a'', ''b'']"] s
  have c: "\<exists>rest. messages (fst (Agent_calls scripted_llm (Agent_init ''sys'') [''a'', ''b''] ?w)) =
          \<lparr>role = ''system'', content = ''sys''\<rparr> # rest"
    by blast
  from a b s c show ?thesis by (simp add: i)
qed

text \<open>
  The request fails: one entry has been appended, not two.
\<close>

theorem Agent_call_counterexample:
  "messages (fst (snd (Agent_call scripted_llm (Agent_init ''sys'') ''hi''
       (start_world [] :: (string, string) rec_world)))) =
     [\<lparr>role = ''system'', content = ''sys''\<rparr>, \<lparr>role = ''user'', content = ''hi''\<rparr>]"
  by (simp add: Agent_call_def execute_def Agent_init_def scripted_llm_def start_world_def Let_def)

section \<open>Properties of the matcher\<close>

lemma first_some_None: "(\<forall>x\<in>set xs. x = None) \<Longrightarrow> first_some xs = None"
  by (induction xs rule: first_some.induct) auto

lemma first_some_rev_upt:
  "first_some (map f (rev [mn ..< Suc r])) =
     (if mn \<le> r then (case f r of Some x \<Rightarrow> Some x | None \<Rightarrow> first_some (map f (rev [mn ..< r])))
      else None)"
  by (auto split: option.splits)

lemma first_some_greedy:
  assumes "\<forall>k. mn \<le> k \<and> k < r \<longrightarrow> f k = None"
  shows "first_some (map f (rev [mn ..< Suc r])) = (if mn \<le> r then f r else None)"
proof -
  have "first_some (map f (rev [mn ..< r])) = None"
    using assms by (intro first_some_None) auto
  then show ?thesis
    by (simp only: first_some_rev_upt split: option.splits) auto
qed

lemma rx_match_lits:
  "rx_match eq nl (map Lit p @ ts) n s st gs =
     (if length p \<le> length s \<and> list_all2 eq (take (length p) s) p
      then rx_match eq nl ts (n + length p) (drop (length p) s) st gs else None)"
proof (induction p arbitrary: n s)
  case Nil
  show ?case by simp
next
  case (Cons c p)
  show ?case
  proof (cases s)
    case Nil
    then show ?thesis by (simp add: rx_match.simps)
  next
    case (Cons x xs)
    then show ?thesis using Cons.IH [of "Suc n" xs] by (simp add: rx_match.simps)
  qed
qed

lemma list_all2_equal: "list_all2 (=) xs ys \<longleftrightarrow> xs = ys"
  by (simp add: list_all2_eq)

lemma strip_prefix_Some: "strip_prefix p s = Some r \<longleftrightarrow> s = p @ r"
  by (auto simp: strip_prefix_def) (metis append_take_drop_id)

lemma rx_match_lits_eq:
  "rx_match (=) nl (map Lit p @ ts) n s st gs =
     (case strip_prefix p s of None \<Rightarrow> None
      | Some s' \<Rightarrow> rx_match (=) nl ts (n + length p) s' st gs)"
proof -
  have "length p \<le> length s \<and> take (length p) s = p \<longleftrightarrow> take (length p) s = p"
    by (metis length_take min.cobounded1)
  then show ?thesis
    by (simp only: rx_match_lits list_all2_equal strip_prefix_def split: if_splits) simp
qed

lemma takeWhile_dot: "nl \<notin> set s \<Longrightarrow> takeWhile (dot nl) s = s"
  by (induction s) (auto simp: dot_def)

lemma dot_star_eol:
  assumes "nl \<notin> set s"
  shows "rx_match eq nl [Rep (dot nl) 0, Close, Eol] n s (s # st) gs = Some ([], gs @ [s])"
proof -
  have tw: "takeWhile (dot nl) s = s"
    using assms by (rule takeWhile_dot)
  have h: "rx_match eq nl [Close, Eol] (n + length s) (drop (length s) s) (s # st) gs = Some ([], gs @ [s])"
    by (simp add: rx_match.simps)
  show ?thesis
    unfolding rx_match.simps(3) tw first_some_rev_upt using h by simp
qed

lemma word_plus:
  assumes "\<And>k s'. k < length (takeWhile P s) \<Longrightarrow> rx_match eq nl ts (n + k) (drop k s) st gs = None"
  shows "rx_match eq nl (Rep P 1 # ts) n s st gs =
     (if takeWhile P s \<noteq> []
      then rx_match eq nl ts (n + length (takeWhile P s)) (dropWhile P s) st gs
      else None)"
proof -
  let ?r = "length (takeWhile P s)"
  have d: "drop ?r s = dropWhile P s"
    by (metis append_eq_conv_conj takeWhile_dropWhile_id)
  have "first_some (map (\<lambda>k. rx_match eq nl ts (n + k) (drop k s) st gs) (rev [1 ..< Suc ?r])) =
      (if 1 \<le> ?r then rx_match eq nl ts (n + ?r) (drop ?r s) st gs else None)"
    by (rule first_some_greedy) (use assms in auto)
  then show ?thesis
    by (simp only: rx_match.simps d) (auto simp: Suc_le_eq)
qed

lemma colon_not_word: "\<not> is_word_char CHR '':''"
  by (simp add: is_word_char_def)

lemma re_match_action_re:
  assumes nl: "newline \<notin> set a"
  shows "re_match action_re a = parse_action a"
proof -
  define p where "p = ''Action: ''"
  define q where "q = '': ''"
  define t3 where "t3 = [Open, Rep (dot newline) 0, Close, Eol]"
  define t2 where "t2 = Close # map Lit q @ t3"
  define t1 where "t1 = Open # Rep is_word_char 1 # t2"
  have are: "action_re = Bol # map Lit p @ t1"
    by (simp add: action_re_def t1_def t2_def t3_def p_def q_def)
  have step0: "rx_match (=) newline action_re 0 a [] [] =
      (case strip_prefix p a of None \<Rightarrow> None
       | Some s1 \<Rightarrow> rx_match (=) newline (Rep is_word_char 1 # t2) (length p) s1 [s1] [])"
    by (simp add: are rx_match.simps(6) rx_match_lits_eq t1_def rx_match.simps(4) split: option.splits)
  have main: "map_option snd (rx_match (=) newline (Rep is_word_char 1 # t2) (length p) s1 [s1] []) =
      (let w = takeWhile is_word_char s1; r = dropWhile is_word_char s1
       in if w = [] then None
          else (case strip_prefix q r of None \<Rightarrow> None | Some action_input \<Rightarrow> Some [w, action_input]))"
    if nl1: "newline \<notin> set s1" for s1
  proof -
    define w where "w = takeWhile is_word_char s1"
    define r where "r = dropWhile is_word_char s1"
    have wr: "s1 = w @ r" by (simp add: w_def r_def)
    have fail: "rx_match (=) newline t2 (length p + k) (drop k s1) [s1] [] = None"
      if "k < length (takeWhile is_word_char s1)" for k
    proof -
      from that have k: "k < length s1" by (meson length_takeWhile_le less_le_trans)
      from that have "is_word_char (s1 ! k)"
        by (metis nth_mem set_takeWhileD takeWhile_nth)
      with k obtain x xs where d: "drop k s1 = x # xs" and x: "is_word_char x"
        by (metis Cons_nth_drop_Suc)
      from x have "x \<noteq> CHR '':''" using colon_not_word by auto
      then show ?thesis using d by (simp add: t2_def q_def rx_match.simps)
    qed
    have step2: "rx_match (=) newline (Rep is_word_char 1 # t2) (length p) s1 [s1] [] =
        (if w \<noteq> [] then rx_match (=) newline t2 (length p + length w) r [s1] [] else None)"
      unfolding w_def r_def by (rule word_plus) (rule fail)
    have g1: "take (length s1 - length r) s1 = w" using wr by simp
    have step3: "rx_match (=) newline t2 (length p + length w) r [s1] [] =
        (case strip_prefix q r of None \<Rightarrow> None | Some action_input \<Rightarrow> Some ([], [w, action_input]))"
    proof (cases "strip_prefix q r")
      case None
      then show ?thesis by (simp add: t2_def rx_match.simps(5) g1 rx_match_lits_eq)
    next
      case (Some inp)
      then have "inp = drop (length q) r" by (auto simp: strip_prefix_def split: if_splits)
      with nl1 wr have nl2: "newline \<notin> set inp" by (auto dest: in_set_dropD)
      show ?thesis
        using Some dot_star_eol [OF nl2, of "(=)" "length p + length w + length q" "[]" "[w]"]
        by (simp add: t2_def t3_def rx_match.simps(5) rx_match.simps(4) g1 rx_match_lits_eq)
    qed
    show ?thesis
      using step2 step3
      by (simp add: Let_def w_def [symmetric] r_def [symmetric] split: option.splits)
  qed
  have pa: "parse_action a =
     (case strip_prefix p a of
        None \<Rightarrow> None
      | Some s1 \<Rightarrow>
          (let w = takeWhile is_word_char s1; r = dropWhile is_word_char s1
           in if w = [] then None
              else (case strip_prefix q r of
                      None \<Rightarrow> None
                    | Some action_input \<Rightarrow> Some [w, action_input])))"
    unfolding parse_action_def p_def q_def ..
  show ?thesis
  proof (cases "strip_prefix p a")
    case None
    then show ?thesis using step0
      by (simp add: re_match_def pa)
  next
    case (Some s1)
    then have "s1 = drop (length p) a" by (auto simp: strip_prefix_def split: if_splits)
    with nl have "newline \<notin> set s1" by (auto dest: in_set_dropD)
    from main [OF this] Some step0 show ?thesis
      by (simp add: re_match_def pa)
  qed
qed

lemma parse_action_iff:
  "parse_action a = Some [action, action_input] \<longleftrightarrow> is_action_line a action action_input"
proof
  assume "parse_action a = Some [action, action_input]"
  then obtain s1 where s1: "strip_prefix ''Action: '' a = Some s1"
    and w: "takeWhile is_word_char s1 = action" "action \<noteq> []"
    and r: "strip_prefix '': '' (dropWhile is_word_char s1) = Some action_input"
    by (auto simp: parse_action_def Let_def split: option.splits if_splits)
  from r have "dropWhile is_word_char s1 = '': '' @ action_input"
    by (simp only: strip_prefix_Some)
  with w have "s1 = action @ '': '' @ action_input"
    by (metis takeWhile_dropWhile_id)
  moreover from w have "list_all is_word_char action"
    by (auto simp: list_all_iff dest: set_takeWhileD)
  ultimately show "is_action_line a action action_input"
    using s1 w by (simp add: is_action_line_def strip_prefix_Some)
next
  assume "is_action_line a action action_input"
  then have a: "a = ''Action: '' @ action @ '': '' @ action_input"
    and ne: "action \<noteq> []" and wd: "list_all is_word_char action"
    by (simp_all add: is_action_line_def)
  have s1: "strip_prefix ''Action: '' a = Some (action @ '': '' @ action_input)"
    by (simp only: strip_prefix_Some a)
  have tw: "takeWhile is_word_char (action @ '': '' @ action_input) = action"
    using wd colon_not_word by (simp add: takeWhile_append2 list_all_iff)
  have dw: "dropWhile is_word_char (action @ '': '' @ action_input) = '': '' @ action_input"
    using wd colon_not_word by (simp add: dropWhile_append2 list_all_iff)
  have r: "strip_prefix '': '' ('': '' @ action_input) = Some action_input"
    by (simp only: strip_prefix_Some)
  show "parse_action a = Some [action, action_input]"
    using ne by (simp add: parse_action_def s1 tw dw r del: append.simps)
qed

lemma parse_action_shape:
  "parse_action a = Some gs \<Longrightarrow> \<exists>action action_input. gs = [action, action_input]"
  by (auto simp: parse_action_def Let_def split: option.splits if_splits)

lemma py_split_nonempty: "py_split sep s \<noteq> []"
  by (induction s) (auto split: list.splits)

lemma py_split_no_sep: "l \<in> set (py_split sep s) \<Longrightarrow> sep \<notin> set l"
  by (induction s arbitrary: l) (auto split: list.splits if_splits)

section \<open>Properties of the loop\<close>

lemma prompt_nonempty: "prompt \<noteq> []"
  by (simp add: prompt_def)

lemma map_filter_first:
  assumes "\<forall>a\<in>set pre. f a = None" and "f l = Some g"
  shows "List.map_filter f (pre @ l # post) = g # List.map_filter f post"
  using assms by (induction pre) (auto simp: List.map_filter_simps)

lemma map_filter_none:
  "List.map_filter f xs = [] \<longleftrightarrow> (\<forall>a\<in>set xs. f a = None)"
  by (induction xs) (auto simp: List.map_filter_simps split: option.splits)

lemma query_loop_return:
  assumes "i < max_turns"
    and "Agent_call llm abot next_prompt w = (Inr result, abot', w')"
    and "find_actions result = []"
  shows "query_loop llm actions str max_turns i abot next_prompt w = (Inr (), abot', w')"
  using assms by (simp add: query_loop.simps)

lemma query_loop_action:
  assumes "i < max_turns"
    and "Agent_call llm abot next_prompt w = (Inr result, abot', w')"
    and "find_actions result = [action, action_input] # others"
  shows "query_loop llm actions str max_turns i abot next_prompt w =
     (case actions action of
        None \<Rightarrow> (Inl (Exception (''Unknown action: '' @ action @ '': '' @ action_input)), abot', w')
      | Some f \<Rightarrow>
          (case f action_input w' of
             (Inl e, w'') \<Rightarrow> (Inl e, abot', w'')
           | (Inr observation, w'') \<Rightarrow>
               query_loop llm actions str max_turns (i + 1) abot'
                 (''Observation: '' @ py_format str observation) w''))"
  using assms by (subst query_loop.simps) simp

lemma Agent_call_counted:
  "Agent_call (counted llm) abot p (w, n) =
     (case Agent_call llm abot p w of (r, abot', w') \<Rightarrow> (r, abot', (w', Suc n)))"
  by (simp add: Agent_call_def execute_def counted_def Let_def split: prod.splits sum.splits)

lemma query_loop_calls:
  "snd (snd (snd (query_loop (counted llm) (map_option uncounted \<circ> actions) str max_turns i abot p (w, n))))
     \<le> n + nat (max_turns - i)"
proof (induction "counted llm" "map_option uncounted \<circ> actions" str max_turns i abot p "(w, n)"
    arbitrary: w n rule: query_loop.induct)
  case (1 str max_turns i abot next_prompt)
  show ?case
  proof (cases "i < max_turns")
    case False
    then show ?thesis by (simp add: query_loop.simps)
  next
    case lt: True
    obtain r abot' w' where ac: "Agent_call llm abot next_prompt w = (r, abot', w')"
      by (cases "Agent_call llm abot next_prompt w") auto
    then have acc: "Agent_call (counted llm) abot next_prompt (w, n) = (r, abot', (w', Suc n))"
      by (simp add: Agent_call_counted)
    have one: "Suc n \<le> n + nat (max_turns - i)" using lt by simp
    show ?thesis
    proof (cases r)
      case (Inl e)
      then show ?thesis using lt acc one by (simp add: query_loop.simps)
    next
      case (Inr result)
      show ?thesis
      proof (cases "find_actions result")
        case Nil
        then show ?thesis using lt acc Inr one by (simp add: query_loop.simps)
      next
        case (Cons groups others)
        show ?thesis
        proof (cases "\<exists>action action_input. groups = [action, action_input]")
          case False
          then show ?thesis using lt acc Inr Cons one
            by (subst query_loop.simps) (auto split: list.splits)
        next
          case True
          then obtain action action_input where g: "groups = [action, action_input]" by auto
          show ?thesis
          proof (cases "actions action")
            case None
            then show ?thesis using lt acc Inr Cons g one
              by (subst query_loop.simps) simp
          next
            case (Some f)
            obtain ro w'' where f: "f action_input w' = (ro, w'')"
              by (cases "f action_input w'") auto
            then have fu: "uncounted f action_input (w', Suc n) = (ro, (w'', Suc n))"
              by (simp add: uncounted_def)
            show ?thesis
            proof (cases ro)
              case (Inl e)
              then show ?thesis using lt acc Inr Cons g Some fu one
                by (subst query_loop.simps) simp
            next
              case ob: (Inr observation)
              have ka: "(map_option uncounted \<circ> actions) action = Some (uncounted f)"
                using Some by simp
              have ih: "snd (snd (snd (query_loop (counted llm) (map_option uncounted \<circ> actions) str max_turns
                    (i + 1) abot' (''Observation: '' @ py_format str observation) (w'', Suc n))))
                  \<le> Suc n + nat (max_turns - (i + 1))"
                by (rule "1.hyps" [OF lt acc [symmetric] Inr refl Cons g refl refl ka fu [symmetric] ob])
              have eq: "query_loop (counted llm) (map_option uncounted \<circ> actions) str max_turns i abot
                    next_prompt (w, n) =
                  query_loop (counted llm) (map_option uncounted \<circ> actions) str max_turns
                    (i + 1) abot' (''Observation: '' @ py_format str observation) (w'', Suc n)"
                by (subst query_loop_action [OF lt acc [unfolded Inr] Cons [unfolded g]])
                   (simp only: ka fu [unfolded ob] option.case prod.case sum.case)
              from ih lt show ?thesis unfolding eq by linarith
            qed
          qed
        qed
      qed
    qed
  qed
qed

lemma find_actions_elephant:
  "find_actions elephant_reply = [[''average_elephant_weight'', ''African Elephant'']]"
  by (simp add: find_actions_def elephant_reply_def newline_def List.map_filter_simps re_match_def
      action_re_def rx_match.simps dot_def is_word_char_def)

lemma elephant_weight_African: "average_elephant_weight ''African Elephant'' w = (Inr (Str ''An African Elephant weighs 12,000 lbs''), w)"
  by (simp add: average_elephant_weight_def weights_def lower_def py_lower_def)

lemma query_calls:
  "snd (snd (query (counted llm) (map_option uncounted \<circ> actions) str question max_turns (w, 0)))
     \<le> nat max_turns"
proof -
  obtain r abot' w' n where q: "query_loop (counted llm) (map_option uncounted \<circ> actions) str max_turns 0
      (Agent_init prompt) question (w, 0) = (r, abot', w', n)"
    by (metis prod_cases4)
  from query_loop_calls [of llm actions str max_turns 0 "Agent_init prompt" question w 0] q
  show ?thesis by (simp add: query_def)
qed

text \<open>
  C4. Whatever the model and the actions do, a run of \<open>query\<close> asks the model at
  most \<open>max_turns\<close> times (one request per iteration of the loop), and at most
  five times with the default. The loop is a total function: its termination
  proof is the decreasing distance between the counter and \<open>max_turns\<close>. An
  iteration whose response has no line matching the action pattern returns at
  once, in the world the request left behind: no action has run.
\<close>

theorem query_bounded:
  "snd (snd (query (counted llm) (map_option uncounted \<circ> actions) str question max_turns (w, 0)))
     \<le> nat max_turns
   \<and> (0 < max_turns \<longrightarrow>
        int (snd (snd (query (counted llm) (map_option uncounted \<circ> actions) str question max_turns (w, 0))))
          \<le> max_turns)
   \<and> snd (snd (query_default (counted llm) (map_option uncounted \<circ> actions) str question (w, 0))) \<le> 5
   \<and> (\<forall>result abot' w'.
         i < max_turns \<and> Agent_call llm abot next_prompt w = (Inr result, abot', w') \<and>
         (\<forall>a\<in>set (py_split newline result). re_match action_re a = None) \<longrightarrow>
         query_loop llm actions str max_turns i abot next_prompt w = (Inr (), abot', w'))"
proof (intro conjI allI impI)
  show b: "snd (snd (query (counted llm) (map_option uncounted \<circ> actions) str question max_turns (w, 0)))
     \<le> nat max_turns"
    by (rule query_calls)
  show "int (snd (snd (query (counted llm) (map_option uncounted \<circ> actions) str question max_turns (w, 0))))
          \<le> max_turns" if "0 < max_turns"
    using b that by linarith
  show "snd (snd (query_default (counted llm) (map_option uncounted \<circ> actions) str question (w, 0))) \<le> 5"
    using query_calls [of llm actions str question 5 w] by (simp add: query_default_def)
next
  fix result abot' w'
  assume h: "i < max_turns \<and> Agent_call llm abot next_prompt w = (Inr result, abot', w') \<and>
         (\<forall>a\<in>set (py_split newline result). re_match action_re a = None)"
  then have "find_actions result = []"
    by (simp add: find_actions_def map_filter_none)
  with h show "query_loop llm actions str max_turns i abot next_prompt w = (Inr (), abot', w')"
    by (simp add: query_loop_return)
qed

text \<open>
  C5. On a line of a response, the compiled pattern matches exactly when the line
  is \<open>Action: \<close>, a non-empty run of word characters, \<open>: \<close> and the rest; the two
  groups are the action and its input. When several lines match, the iteration
  looks up and runs the action of the first of them only: what follows that line
  plays no part.
\<close>

theorem action_line_recognized:
  "(\<forall>a\<in>set (py_split newline result). \<forall>action action_input.
       (re_match action_re a = Some [action, action_input]) = is_action_line a action action_input)
   \<and> (\<forall>a\<in>set (py_split newline result). \<forall>gs.
       re_match action_re a = Some gs \<longrightarrow> (\<exists>action action_input. gs = [action, action_input]))
   \<and> (\<forall>pre l post action action_input abot' w'.
         i < max_turns \<and> Agent_call llm abot next_prompt w = (Inr result, abot', w') \<and>
         py_split newline result = pre @ l # post \<and>
         (\<forall>a\<in>set pre. \<forall>x y. \<not> is_action_line a x y) \<and> is_action_line l action action_input \<longrightarrow>
         query_loop llm actions str max_turns i abot next_prompt w =
           (case actions action of
              None \<Rightarrow> (Inl (Exception (''Unknown action: '' @ action @ '': '' @ action_input)), abot', w')
            | Some f \<Rightarrow>
                (case f action_input w' of
                   (Inl e, w'') \<Rightarrow> (Inl e, abot', w'')
                 | (Inr observation, w'') \<Rightarrow>
                     query_loop llm actions str max_turns (i + 1) abot'
                       (''Observation: '' @ py_format str observation) w'')))"
proof (intro conjI ballI allI impI)
  fix a action action_input
  assume "a \<in> set (py_split newline result)"
  then have "newline \<notin> set a" by (rule py_split_no_sep)
  then show "(re_match action_re a = Some [action, action_input]) = is_action_line a action action_input"
    by (simp add: re_match_action_re parse_action_iff)
next
  fix a gs
  assume "a \<in> set (py_split newline result)" and m: "re_match action_re a = Some gs"
  then have "newline \<notin> set a" by (simp add: py_split_no_sep)
  with m show "\<exists>action action_input. gs = [action, action_input]"
    by (simp add: re_match_action_re parse_action_shape)
next
  fix pre l post action action_input abot' w'
  assume h: "i < max_turns \<and> Agent_call llm abot next_prompt w = (Inr result, abot', w') \<and>
         py_split newline result = pre @ l # post \<and>
         (\<forall>a\<in>set pre. \<forall>x y. \<not> is_action_line a x y) \<and> is_action_line l action action_input"
  have nl: "newline \<notin> set a" if "a \<in> set (pre @ l # post)" for a
    using that h py_split_no_sep [of a newline result] by simp
  have l: "re_match action_re l = Some [action, action_input]"
    using h nl [of l] by (simp add: re_match_action_re parse_action_iff)
  have pre: "re_match action_re a = None" if a: "a \<in> set pre" for a
  proof (cases "re_match action_re a")
    case None
    then show ?thesis .
  next
    case (Some gs)
    from a have n: "newline \<notin> set a" using nl [of a] by simp
    with Some obtain x y where "gs = [x, y]"
      by (auto simp: re_match_action_re dest: parse_action_shape)
    with Some n have "is_action_line a x y"
      by (simp add: re_match_action_re parse_action_iff)
    with h a show ?thesis by blast
  qed
  have "find_actions result = [action, action_input] # List.map_filter (re_match action_re) post"
    using h l pre by (simp add: find_actions_def map_filter_first)
  with h show "query_loop llm actions str max_turns i abot next_prompt w =
           (case actions action of
              None \<Rightarrow> (Inl (Exception (''Unknown action: '' @ action @ '': '' @ action_input)), abot', w')
            | Some f \<Rightarrow>
                (case f action_input w' of
                   (Inl e, w'') \<Rightarrow> (Inl e, abot', w'')
                 | (Inr observation, w'') \<Rightarrow>
                     query_loop llm actions str max_turns (i + 1) abot'
                       (''Observation: '' @ py_format str observation) w''))"
    by (simp add: query_loop_action)
qed

text \<open>
  C6. In an iteration whose response names an action: when the name is not a key
  of the dictionary, the loop ends with the exception
  \<open>Unknown action: <action>: <action_input>\<close>; when it is, the function stored
  under it is applied to the input and, if it returns, the loop goes on with the
  next prompt \<open>Observation: <observation>\<close>. The dictionary of the notebook has
  the keys \<open>calculate\<close> and \<open>average_elephant_weight\<close>.
\<close>

theorem unknown_action_raises:
  assumes "i < max_turns"
    and "Agent_call llm abot next_prompt w = (Inr result, abot', w')"
    and "find_actions result = [action, action_input] # others"
  shows "(actions action = None \<longrightarrow>
           query_loop llm actions str max_turns i abot next_prompt w =
             (Inl (Exception (''Unknown action: '' @ action @ '': '' @ action_input)), abot', w'))
       \<and> (\<forall>f. actions action = Some f \<longrightarrow>
           query_loop llm actions str max_turns i abot next_prompt w =
             (case f action_input w' of
                (Inl e, w'') \<Rightarrow> (Inl e, abot', w'')
              | (Inr observation, w'') \<Rightarrow>
                  query_loop llm actions str max_turns (i + 1) abot'
                    (''Observation: '' @ py_format str observation) w''))
       \<and> dom (known_actions py_eval) = {''calculate'', ''average_elephant_weight''}"
proof (intro conjI allI impI)
  show "dom (known_actions py_eval) = {''calculate'', ''average_elephant_weight''}"
    by (auto simp: known_actions_def)
qed (simp_all add: query_loop_action [OF assms])

lemma Agent_init_prompt:
  "Agent_init prompt = \<lparr>system = prompt, messages = [\<lparr>role = ''system'', content = prompt\<rparr>]\<rparr>"
  using prompt_nonempty by (simp add: Agent_init_def Let_def)

lemma find_actions_answer: "find_actions elephant_answer = []"
  by (simp add: find_actions_def elephant_answer_def newline_def List.map_filter_simps re_match_def
      action_re_def rx_match.simps dot_def is_word_char_def)

lemma elephant_run_counted:
  "query (counted scripted_llm) (map_option uncounted \<circ> known_actions no_eval) (\<lambda>v::unit. ''?'')
      elephant_question 5 (elephant_world, 0)
   = (Inr (), \<lparr>script = [], log = [ModelCall, ModelCall]\<rparr>, 2)"
  by (simp add: query_def query_loop.simps [of _ _ _ _ 0] query_loop.simps [of _ _ _ _ 1]
      Agent_call_def execute_def scripted_llm_def start_world_def elephant_world_def counted_def uncounted_def
      find_actions_elephant find_actions_answer known_actions_def elephant_weight_African py_format_def Let_def)

theorem query_bounded_witness:
  "snd (snd (query (counted scripted_llm) (map_option uncounted \<circ> known_actions no_eval) (\<lambda>v::unit. ''?'')
      elephant_question 5 (elephant_world, 0))) = 2
   \<and> (0::int) < 5
   \<and> int (snd (snd (query (counted scripted_llm) (map_option uncounted \<circ> known_actions no_eval)
        (\<lambda>v::unit. ''?'') elephant_question 5 (elephant_world, 0)))) \<le> 5
   \<and> Agent_call scripted_llm (Agent_init prompt) elephant_question
        (start_world [elephant_answer] :: (string, string) rec_world) =
        (Inr elephant_answer,
         \<lparr>system = prompt,
          messages = [\<lparr>role = ''system'', content = prompt\<rparr>,
                      \<lparr>role = ''user'', content = elephant_question\<rparr>,
                      \<lparr>role = ''assistant'', content = elephant_answer\<rparr>]\<rparr>,
         \<lparr>script = [], log = [ModelCall]\<rparr>)
   \<and> list_all (\<lambda>a. re_match action_re a = None) (py_split newline elephant_answer)
   \<and> query_loop scripted_llm (known_actions no_eval) (\<lambda>v::unit. ''?'') 5 0 (Agent_init prompt)
        elephant_question (start_world [elephant_answer] :: (string, string) rec_world) =
        (Inr (),
         \<lparr>system = prompt,
          messages = [\<lparr>role = ''system'', content = prompt\<rparr>,
                      \<lparr>role = ''user'', content = elephant_question\<rparr>,
                      \<lparr>role = ''assistant'', content = elephant_answer\<rparr>]\<rparr>,
         \<lparr>script = [], log = [ModelCall]\<rparr>)"
proof -
  let ?w = "start_world [elephant_answer] :: (string, string) rec_world"
  let ?b = "\<lparr>system = prompt,
          messages = [\<lparr>role = ''system'', content = prompt\<rparr>,
                      \<lparr>role = ''user'', content = elephant_question\<rparr>,
                      \<lparr>role = ''assistant'', content = elephant_answer\<rparr>]\<rparr>"
  have lt: "(0::int) < 5" by simp
  have ac: "Agent_call scripted_llm (Agent_init prompt) elephant_question ?w =
      (Inr elephant_answer, ?b, \<lparr>script = [], log = [ModelCall]\<rparr>)"
    by (simp add: Agent_call_def execute_def scripted_llm_def start_world_def Agent_init_prompt Let_def)
  have no: "\<forall>a\<in>set (py_split newline elephant_answer). re_match action_re a = None"
    by (simp add: elephant_answer_def newline_def re_match_def action_re_def rx_match.simps dot_def)
  note t = query_bounded [where llm = scripted_llm and actions = "known_actions no_eval"
      and str = "\<lambda>v::unit. ''?''" and question = elephant_question and max_turns = 5
      and i = 0 and abot = "Agent_init prompt" and next_prompt = elephant_question]
  from t [of elephant_world] lt
  have c: "int (snd (snd (query (counted scripted_llm) (map_option uncounted \<circ> known_actions no_eval)
        (\<lambda>v::unit. ''?'') elephant_question 5 (elephant_world, 0)))) \<le> 5"
    by blast
  from t [of ?w] lt ac no
  have q: "query_loop scripted_llm (known_actions no_eval) (\<lambda>v::unit. ''?'') 5 0 (Agent_init prompt)
        elephant_question ?w = (Inr (), ?b, \<lparr>script = [], log = [ModelCall]\<rparr>)"
    by blast
  from no have la: "list_all (\<lambda>a. re_match action_re a = None) (py_split newline elephant_answer)"
    by (simp add: list_all_iff)
  show ?thesis using c q ac la lt by (simp add: elephant_run_counted)
qed

theorem action_line_recognized_witness:
  "''Action: average_elephant_weight: African Elephant'' \<in> set (py_split newline two_actions_reply)
   \<and> re_match action_re ''Action: average_elephant_weight: African Elephant'' =
        Some [''average_elephant_weight'', ''African Elephant'']
   \<and> is_action_line ''Action: average_elephant_weight: African Elephant''
        ''average_elephant_weight'' ''African Elephant''
   \<and> (0::int) < 5
   \<and> Agent_call scripted_llm (Agent_init prompt) elephant_question
        (start_world [two_actions_reply, elephant_answer] :: (string, string) rec_world) =
        (Inr two_actions_reply,
         \<lparr>system = prompt,
          messages = [\<lparr>role = ''system'', content = prompt\<rparr>,
                      \<lparr>role = ''user'', content = elephant_question\<rparr>,
                      \<lparr>role = ''assistant'', content = two_actions_reply\<rparr>]\<rparr>,
         \<lparr>script = [elephant_answer], log = [ModelCall]\<rparr>)
   \<and> py_split newline two_actions_reply =
        [''Thought: I need two things.''] @ ''Action: average_elephant_weight: African Elephant''
          # [''Action: calculate: 1 + 1'']
   \<and> (\<forall>x y. \<not> is_action_line ''Thought: I need two things.'' x y)
   \<and> query_loop scripted_llm (known_actions no_eval) (\<lambda>v::unit. ''?'') 5 0 (Agent_init prompt)
        elephant_question (start_world [two_actions_reply, elephant_answer] :: (string, string) rec_world) =
      query_loop scripted_llm (known_actions no_eval) (\<lambda>v::unit. ''?'') 5 1
         \<lparr>system = prompt,
          messages = [\<lparr>role = ''system'', content = prompt\<rparr>,
                      \<lparr>role = ''user'', content = elephant_question\<rparr>,
                      \<lparr>role = ''assistant'', content = two_actions_reply\<rparr>]\<rparr>
         ''Observation: An African Elephant weighs 12,000 lbs''
         \<lparr>script = [elephant_answer], log = [ModelCall]\<rparr>"
proof -
  let ?w = "start_world [two_actions_reply, elephant_answer] :: (string, string) rec_world"
  let ?l = "''Action: average_elephant_weight: African Elephant''"
  let ?b = "\<lparr>system = prompt,
          messages = [\<lparr>role = ''system'', content = prompt\<rparr>,
                      \<lparr>role = ''user'', content = elephant_question\<rparr>,
                      \<lparr>role = ''assistant'', content = two_actions_reply\<rparr>]\<rparr>"
  let ?w' = "\<lparr>script = [elephant_answer], log = [ModelCall]\<rparr> :: (string, string) rec_world"
  have lt: "(0::int) < 5" by simp
  have sp: "py_split newline two_actions_reply =
      [''Thought: I need two things.''] @ ?l # [''Action: calculate: 1 + 1'']"
    by (simp add: two_actions_reply_def newline_def)
  then have mem: "?l \<in> set (py_split newline two_actions_reply)" by simp
  have al: "is_action_line ?l ''average_elephant_weight'' ''African Elephant''"
    by (simp add: is_action_line_def is_word_char_def)
  have pre: "\<forall>a\<in>set [''Thought: I need two things.'']. \<forall>x y. \<not> is_action_line a x y"
    by (simp add: is_action_line_def)
  have ac: "Agent_call scripted_llm (Agent_init prompt) elephant_question ?w = (Inr two_actions_reply, ?b, ?w')"
    by (simp add: Agent_call_def execute_def scripted_llm_def start_world_def Agent_init_prompt Let_def)
  note t = action_line_recognized [where result = two_actions_reply and llm = scripted_llm
      and actions = "known_actions no_eval" and str = "\<lambda>v::unit. ''?''" and max_turns = 5 and i = 0
      and abot = "Agent_init prompt" and next_prompt = elephant_question and w = ?w]
  from t mem al have m: "re_match action_re ?l = Some [''average_elephant_weight'', ''African Elephant'']"
    by blast
  from t lt ac sp pre al
  have "query_loop scripted_llm (known_actions no_eval) (\<lambda>v::unit. ''?'') 5 0 (Agent_init prompt)
        elephant_question ?w =
      (case known_actions no_eval ''average_elephant_weight'' of
         None \<Rightarrow> (Inl (Exception (''Unknown action: '' @ ''average_elephant_weight'' @ '': '' @ ''African Elephant'')), ?b, ?w')
       | Some f \<Rightarrow>
           (case f ''African Elephant'' ?w' of
              (Inl e, w'') \<Rightarrow> (Inl e, ?b, w'')
            | (Inr observation, w'') \<Rightarrow>
                query_loop scripted_llm (known_actions no_eval) (\<lambda>v::unit. ''?'') 5 (0 + 1) ?b
                  (''Observation: '' @ py_format (\<lambda>v::unit. ''?'') observation) w''))"
    by blast
  then have q: "query_loop scripted_llm (known_actions no_eval) (\<lambda>v::unit. ''?'') 5 0 (Agent_init prompt)
        elephant_question ?w =
      query_loop scripted_llm (known_actions no_eval) (\<lambda>v::unit. ''?'') 5 1 ?b
         ''Observation: An African Elephant weighs 12,000 lbs'' ?w'"
    by (simp add: known_actions_def elephant_weight_African py_format_def)
  from pre have pre': "\<forall>x y. \<not> is_action_line ''Thought: I need two things.'' x y" by simp
  show ?thesis using mem m al lt ac sp pre' q by blast
qed

theorem unknown_action_raises_witness:
  "(0::int) < 5
   \<and> Agent_call scripted_llm (Agent_init prompt) elephant_question
        (start_world [unknown_reply] :: (string, string) rec_world) =
        (Inr unknown_reply,
         \<lparr>system = prompt,
          messages = [\<lparr>role = ''system'', content = prompt\<rparr>,
                      \<lparr>role = ''user'', content = elephant_question\<rparr>,
                      \<lparr>role = ''assistant'', content = unknown_reply\<rparr>]\<rparr>,
         \<lparr>script = [], log = [ModelCall]\<rparr>)
   \<and> find_actions unknown_reply = [''search'', ''elephants''] # []
   \<and> known_actions (no_eval :: string \<Rightarrow> ((string, string) rec_world, unit pyval) ext) ''search'' = None
   \<and> query_loop scripted_llm (known_actions no_eval) (\<lambda>v::unit. ''?'') 5 0 (Agent_init prompt)
        elephant_question (start_world [unknown_reply] :: (string, string) rec_world) =
        (Inl (Exception ''Unknown action: search: elephants''),
         \<lparr>system = prompt,
          messages = [\<lparr>role = ''system'', content = prompt\<rparr>,
                      \<lparr>role = ''user'', content = elephant_question\<rparr>,
                      \<lparr>role = ''assistant'', content = unknown_reply\<rparr>]\<rparr>,
         \<lparr>script = [], log = [ModelCall]\<rparr>)
   \<and> Agent_call scripted_llm (Agent_init prompt) elephant_question elephant_world =
        (Inr elephant_reply,
         \<lparr>system = prompt,
          messages = [\<lparr>role = ''system'', content = prompt\<rparr>,
                      \<lparr>role = ''user'', content = elephant_question\<rparr>,
                      \<lparr>role = ''assistant'', content = elephant_reply\<rparr>]\<rparr>,
         \<lparr>script = [elephant_answer], log = [ModelCall]\<rparr>)
   \<and> find_actions elephant_reply = [''average_elephant_weight'', ''African Elephant''] # []
   \<and> known_actions (no_eval :: string \<Rightarrow> ((string, string) rec_world, unit pyval) ext)
        ''average_elephant_weight'' = Some average_elephant_weight
   \<and> query_loop scripted_llm (known_actions no_eval) (\<lambda>v::unit. ''?'') 5 0 (Agent_init prompt)
        elephant_question elephant_world =
      query_loop scripted_llm (known_actions no_eval) (\<lambda>v::unit. ''?'') 5 1
         \<lparr>system = prompt,
          messages = [\<lparr>role = ''system'', content = prompt\<rparr>,
                      \<lparr>role = ''user'', content = elephant_question\<rparr>,
                      \<lparr>role = ''assistant'', content = elephant_reply\<rparr>]\<rparr>
         ''Observation: An African Elephant weighs 12,000 lbs''
         \<lparr>script = [elephant_answer], log = [ModelCall]\<rparr>"
proof -
  let ?u = "start_world [unknown_reply] :: (string, string) rec_world"
  let ?bu = "\<lparr>system = prompt,
          messages = [\<lparr>role = ''system'', content = prompt\<rparr>,
                      \<lparr>role = ''user'', content = elephant_question\<rparr>,
                      \<lparr>role = ''assistant'', content = unknown_reply\<rparr>]\<rparr>"
  let ?be = "\<lparr>system = prompt,
          messages = [\<lparr>role = ''system'', content = prompt\<rparr>,
                      \<lparr>role = ''user'', content = elephant_question\<rparr>,
                      \<lparr>role = ''assistant'', content = elephant_reply\<rparr>]\<rparr>"
  let ?w1 = "\<lparr>script = [], log = [ModelCall]\<rparr> :: (string, string) rec_world"
  let ?w2 = "\<lparr>script = [elephant_answer], log = [ModelCall]\<rparr> :: (string, string) rec_world"
  let ?ka = "known_actions (no_eval :: string \<Rightarrow> ((string, string) rec_world, unit pyval) ext)"
  have lt: "(0::int) < 5" by simp
  have acu: "Agent_call scripted_llm (Agent_init prompt) elephant_question ?u = (Inr unknown_reply, ?bu, ?w1)"
    by (simp add: Agent_call_def execute_def scripted_llm_def start_world_def Agent_init_prompt Let_def)
  have fu: "find_actions unknown_reply = [''search'', ''elephants''] # []"
    by (simp add: find_actions_def unknown_reply_def newline_def List.map_filter_simps re_match_def
      action_re_def rx_match.simps dot_def is_word_char_def)
  have ku: "?ka ''search'' = None" by (simp add: known_actions_def)
  have ace: "Agent_call scripted_llm (Agent_init prompt) elephant_question elephant_world =
      (Inr elephant_reply, ?be, ?w2)"
    by (simp add: Agent_call_def execute_def scripted_llm_def start_world_def elephant_world_def
        Agent_init_prompt Let_def)
  have fe: "find_actions elephant_reply = [''average_elephant_weight'', ''African Elephant''] # []"
    by (simp add: find_actions_elephant)
  have ke: "?ka ''average_elephant_weight'' = Some average_elephant_weight"
    by (simp add: known_actions_def)
  from unknown_action_raises [OF lt acu fu, where actions = ?ka and str = "\<lambda>v::unit. ''?''"
      and py_eval = "no_eval :: string \<Rightarrow> ((string, string) rec_world, unit pyval) ext"] ku
  have r1: "query_loop scripted_llm ?ka (\<lambda>v::unit. ''?'') 5 0 (Agent_init prompt) elephant_question ?u =
      (Inl (Exception ''Unknown action: search: elephants''), ?bu, ?w1)"
    by simp
  from unknown_action_raises [OF lt ace fe, where actions = ?ka and str = "\<lambda>v::unit. ''?''"
      and py_eval = "no_eval :: string \<Rightarrow> ((string, string) rec_world, unit pyval) ext"] ke
  have r2: "query_loop scripted_llm ?ka (\<lambda>v::unit. ''?'') 5 0 (Agent_init prompt) elephant_question
        elephant_world =
      query_loop scripted_llm ?ka (\<lambda>v::unit. ''?'') 5 1 ?be
         ''Observation: An African Elephant weighs 12,000 lbs'' ?w2"
    by (simp add: elephant_weight_African py_format_def)
  show ?thesis using lt acu fu ku r1 ace fe ke r2 by blast
qed

section \<open>Properties of the log analysis\<close>

lemma drop_takeWhile: "drop (length (takeWhile P s)) s = dropWhile P s"
  by (metis append_eq_conv_conj takeWhile_dropWhile_id)

lemma dot_star_end:
  "rx_match eq nl [Rep (dot nl) 0] n s st gs = Some (dropWhile (dot nl) s, gs)"
proof -
  have "first_some (map (\<lambda>k. rx_match eq nl [] (n + k) (drop k s) st gs)
            (rev [0 ..< Suc (length (takeWhile (dot nl) s))])) =
        rx_match eq nl [] (n + length (takeWhile (dot nl) s))
          (drop (length (takeWhile (dot nl) s)) s) st gs"
    by (subst first_some_rev_upt) (simp add: rx_match.simps(1))
  then show ?thesis
    by (simp add: rx_match.simps(3) rx_match.simps(1) drop_takeWhile del: upt_Suc)
qed

lemma rx_match_word_line:
  "rx_match ignorecase lf (map Lit word @ [Rep (dot lf) 0]) n s [] [] =
     (if ic_prefix word s then Some (dropWhile (dot lf) (drop (length word) s), [])
      else None)"
  by (simp only: rx_match_lits ic_prefix_def dot_star_end)

lemma ic_prefix_length: "ic_prefix word s \<Longrightarrow> length word \<le> length s"
  by (simp add: ic_prefix_def)

lemma ic_prefix_Nil: "ic_prefix word [] \<longleftrightarrow> word = []"
  by (auto simp: ic_prefix_def)

lemma ic_prefix_Cons:
  "ic_prefix (a # w) s \<longleftrightarrow> (\<exists>c cs. s = c # cs \<and> ignorecase c a \<and> ic_prefix w cs)"
  by (cases s) (auto simp: ic_prefix_def)

lemma ic_prefix_take: "ic_prefix word s \<Longrightarrow> ic_prefix word (take (length word) s @ t)"
  by (simp add: ic_prefix_def)

lemma ic_prefix_append: "ic_prefix word x \<Longrightarrow> ic_prefix word (x @ y)"
  by (simp add: ic_prefix_def)

lemma match_text:
  assumes "length word \<le> length s"
  shows "take (length s - length (dropWhile P (drop (length word) s))) s =
           take (length word) s @ takeWhile P (drop (length word) s)"
    and "drop (length (take (length word) s @ takeWhile P (drop (length word) s))) s =
           dropWhile P (drop (length word) s)"
proof -
  define a where "a = take (length word) s"
  define b where "b = drop (length word) s"
  have s: "s = a @ b" by (simp add: a_def b_def)
  have la: "length a = length word" using assms by (simp add: a_def)
  have lb: "length b = length (takeWhile P b) + length (dropWhile P b)"
    by (metis length_append takeWhile_dropWhile_id)
  have tb: "take (length (takeWhile P b)) b = takeWhile P b"
    by (metis append_eq_conv_conj takeWhile_dropWhile_id)
  have "take (length s - length (dropWhile P b)) s = a @ takeWhile P b"
    using lb tb by (simp add: s)
  then show "take (length s - length (dropWhile P (drop (length word) s))) s =
           take (length word) s @ takeWhile P (drop (length word) s)"
    by (simp add: a_def [symmetric] b_def [symmetric])
  have "drop (length (a @ takeWhile P b)) s = dropWhile P b"
    by (simp add: s drop_takeWhile)
  then show "drop (length (take (length word) s @ takeWhile P (drop (length word) s))) s =
           dropWhile P (drop (length word) s)"
    by (simp add: a_def [symmetric] b_def [symmetric])
qed

lemma findall_word_simps:
  assumes "word \<noteq> []"
  shows "re_findall ignorecase lf (map Lit word @ [Rep (dot lf) 0]) n s =
    (if ic_prefix word s
     then (take (length word) s @ takeWhile (dot lf) (drop (length word) s))
          # re_findall ignorecase lf (map Lit word @ [Rep (dot lf) 0])
              (n + length (take (length word) s @ takeWhile (dot lf) (drop (length word) s)))
              (dropWhile (dot lf) (drop (length word) s))
     else (case s of [] \<Rightarrow> [] | _ # s' \<Rightarrow> re_findall ignorecase lf (map Lit word @ [Rep (dot lf) 0]) (Suc n) s'))"
proof (cases "ic_prefix word s")
  case False
  then show ?thesis
    by (subst re_findall.simps) (simp add: rx_match_word_line)
next
  case True
  then have len: "length word \<le> length s" by (rule ic_prefix_length)
  have ne: "take (length word) s @ takeWhile (dot lf) (drop (length word) s) \<noteq> []"
    using assms len by (cases s) auto
  have rm: "rx_match ignorecase lf (map Lit word @ [Rep (dot lf) 0]) n s [] [] =
      Some (dropWhile (dot lf) (drop (length word) s), [])"
    using True by (simp add: rx_match_word_line)
  show ?thesis
    by (subst re_findall.simps)
       (simp only: rm option.case prod.case Let_def match_text [OF len] ne True if_True if_False)
qed

lemma findall_occurs:
  assumes "word \<noteq> []"
  shows "re_findall ignorecase lf (map Lit word @ [Rep (dot lf) 0]) n s \<noteq> [] \<longleftrightarrow> from_first word s \<noteq> None"
proof (induction s arbitrary: n)
  case Nil
  then show ?case using assms
    by (subst findall_word_simps [OF assms]) (simp add: ic_prefix_Nil)
next
  case (Cons c cs)
  then show ?case using Cons.IH [of "Suc n"]
    by (subst findall_word_simps [OF assms]) simp
qed

lemma findall_ic_prefix:
  assumes "word \<noteq> []"
  shows "m \<in> set (re_findall ignorecase lf (map Lit word @ [Rep (dot lf) 0]) n s) \<Longrightarrow> ic_prefix word m"
proof (induction s arbitrary: n rule: length_induct)
  case (1 s)
  show ?case
  proof (cases "ic_prefix word s")
    case True
    let ?m = "take (length word) s @ takeWhile (dot lf) (drop (length word) s)"
    let ?rest = "dropWhile (dot lf) (drop (length word) s)"
    from True have len: "length word \<le> length s" by (rule ic_prefix_length)
    have "length ?rest \<le> length (drop (length word) s)" by (rule length_dropWhile_le)
    also have "\<dots> < length s" using assms len by (cases s) auto
    finally have short: "length ?rest < length s" .
    have cm: "ic_prefix word ?m" using True by (rule ic_prefix_take)
    from "1.prems" True have "m = ?m \<or> m \<in> set (re_findall ignorecase lf (map Lit word @ [Rep (dot lf) 0])
        (n + length ?m) ?rest)"
      by (subst (asm) findall_word_simps [OF assms]) simp
    then show ?thesis using cm "1.IH" short by blast
  next
    case False
    show ?thesis
    proof (cases s)
      case Nil
      with "1.prems" False show ?thesis
        by (subst (asm) findall_word_simps [OF assms]) simp
    next
      case (Cons c cs)
      with "1.prems" False have "m \<in> set (re_findall ignorecase lf (map Lit word @ [Rep (dot lf) 0]) (Suc n) cs)"
        by (subst (asm) findall_word_simps [OF assms]) simp
      with "1.IH" Cons show ?thesis by auto
    qed
  qed
qed

lemma py_split_line: "sep \<notin> set l \<Longrightarrow> py_split sep (l @ sep # t) = l # py_split sep t"
  by (induction l) auto

lemma py_split_last: "sep \<notin> set l \<Longrightarrow> py_split sep l = [l]"
  by (induction l) auto

lemma py_split_hd: "py_split sep s = l # ls \<Longrightarrow> \<exists>r. s = l @ r"
proof (induction s arbitrary: l ls)
  case Nil
  then show ?case by simp
next
  case (Cons c cs)
  show ?case
  proof (cases "c = sep")
    case True
    with Cons.prems show ?thesis by simp
  next
    case False
    obtain l' ls' where sp: "py_split sep cs = l' # ls'"
      using py_split_nonempty [of sep cs] by (cases "py_split sep cs") auto
    with Cons.IH obtain r where "cs = l' @ r" by blast
    with Cons.prems False sp show ?thesis by auto
  qed
qed

lemma from_first_ic: "ic_prefix word l \<Longrightarrow> word \<noteq> [] \<Longrightarrow> from_first word l = Some l"
  by (cases l) (auto simp: ic_prefix_Nil)

lemma ic_prefix_no_newline:
  assumes "ic_prefix word s" and "\<forall>a\<in>set word. \<not> ignorecase lf a"
  shows "lf \<notin> set (take (length word) s)"
proof
  assume "lf \<in> set (take (length word) s)"
  then obtain i where i: "i < length (take (length word) s)" and x: "take (length word) s ! i = lf"
    by (auto simp: in_set_conv_nth)
  from assms(1) have l: "list_all2 ignorecase (take (length word) s) word"
    by (simp add: ic_prefix_def)
  from list_all2_nthD [OF l i] x have "ignorecase lf (word ! i)" by simp
  moreover from l i have "i < length word" by (simp add: list_all2_lengthD)
  ultimately show False using assms(2) by auto
qed

lemma hd_dropWhile_dot: "dropWhile (dot nl) s = c # t \<Longrightarrow> c = nl"
proof -
  assume a: "dropWhile (dot nl) s = c # t"
  then have "dropWhile (dot nl) s \<noteq> []" by simp
  then have "\<not> dot nl (hd (dropWhile (dot nl) s))" by (rule hd_dropWhile)
  with a show ?thesis by (simp add: dot_def)
qed

lemma findall_lines:
  assumes w: "word \<noteq> []" and nl: "\<forall>a\<in>set word. \<not> ignorecase lf a"
  shows "re_findall ignorecase lf (map Lit word @ [Rep (dot lf) 0]) n s = line_matches word s"
proof (induction s arbitrary: n rule: length_induct)
  case (1 s)
  let ?re = "map Lit word @ [Rep (dot lf) 0]"
  have not_nl: "\<not> ic_prefix word (lf # t)" for t
  proof
    assume "ic_prefix word (lf # t)"
    from ic_prefix_no_newline [OF this nl] w show False by (cases word) auto
  qed
  have not_nil: "\<not> ic_prefix word []" using w by (simp add: ic_prefix_Nil)
  show ?case
  proof (cases "ic_prefix word s")
    case True
    define m where "m = take (length word) s @ takeWhile (dot lf) (drop (length word) s)"
    define rest where "rest = dropWhile (dot lf) (drop (length word) s)"
    have s: "s = m @ rest" by (simp add: m_def rest_def)
    have cm: "ic_prefix word m" unfolding m_def using True by (rule ic_prefix_take)
    have ff: "from_first word m = Some m" using cm w by (rule from_first_ic)
    have nm: "lf \<notin> set m"
      using ic_prefix_no_newline [OF True nl] by (auto dest: set_takeWhileD simp: dot_def m_def)
    have fa: "re_findall ignorecase lf ?re n s = m # re_findall ignorecase lf ?re (n + length m) rest"
      using True by (subst findall_word_simps [OF w]) (simp add: m_def rest_def)
    show ?thesis
    proof (cases rest)
      case Nil
      have "re_findall ignorecase lf ?re (n + length m) [] = []"
        using not_nil by (subst findall_word_simps [OF w]) simp
      moreover have "py_split lf s = [m]"
        using py_split_last [OF nm] by (simp add: s Nil)
      ultimately show ?thesis using fa Nil ff
        by (simp add: line_matches_def List.map_filter_simps)
    next
      case (Cons c t)
      then have "c = lf" unfolding rest_def by (rule hd_dropWhile_dot)
      with Cons have r: "rest = lf # t" by simp
      have st: "s = m @ lf # t" by (simp add: s r)
      then have lt: "length t < length s" by simp
      have "re_findall ignorecase lf ?re (n + length m) (lf # t) =
          re_findall ignorecase lf ?re (Suc (n + length m)) t"
        using not_nl by (subst findall_word_simps [OF w]) simp
      also have "\<dots> = line_matches word t" using "1.IH" lt by blast
      finally have "re_findall ignorecase lf ?re n s = m # line_matches word t"
        using fa r by simp
      moreover have "py_split lf s = m # py_split lf t"
        using py_split_line [OF nm, of t] by (simp add: st)
      ultimately show ?thesis using ff
        by (simp add: line_matches_def List.map_filter_simps)
    qed
  next
    case False
    show ?thesis
    proof (cases s)
      case Nil
      then show ?thesis using False w
        by (subst findall_word_simps [OF w]) (simp add: line_matches_def List.map_filter_simps)
    next
      case (Cons c cs)
      have "re_findall ignorecase lf ?re n s = re_findall ignorecase lf ?re (Suc n) cs"
        using False Cons by (subst findall_word_simps [OF w]) simp
      also have "\<dots> = line_matches word cs" using "1.IH" Cons by simp
      also have "\<dots> = line_matches word s"
      proof (cases "c = lf")
        case True
        then show ?thesis using Cons w
          by (simp add: line_matches_def List.map_filter_simps)
      next
        case cn: False
        obtain l ls where sp: "py_split lf cs = l # ls"
          using py_split_nonempty [of lf cs] by (cases "py_split lf cs") auto
        from py_split_hd [OF this] obtain r where cs: "cs = l @ r" by blast
        have "\<not> ic_prefix word (c # l)"
        proof
          assume "ic_prefix word (c # l)"
          then have "ic_prefix word ((c # l) @ r)" by (rule ic_prefix_append)
          with False Cons cs show False by simp
        qed
        then have "from_first word (c # l) = from_first word l"
          by simp
        then show ?thesis using Cons cn sp
          by (simp add: line_matches_def List.map_filter_simps)
      qed
      finally show ?thesis .
    qed
  qed
qed

subsection \<open>The guard and the pattern\<close>

lemma cp_lower_shape: "\<exists>x. cp_lower c = [x] \<or> cp_lower c = [x, 0x307]"
  by (simp add: cp_lower_def)

lemma cp_lower_ignorecase:
  "97 \<le> a \<Longrightarrow> a \<le> 122 \<Longrightarrow> cp_lower c = a # r \<Longrightarrow> ignorecase c a"
  by (auto simp: cp_lower_def ignorecase_def sre_lower_def split: if_splits)

lemma str_lower_Cons: "str_lower (c # cs) = cp_lower c @ str_lower cs"
  by (simp add: str_lower_def)

lemma lower_prefix_ic:
  assumes "\<forall>a\<in>set word. 97 \<le> a \<and> a \<le> 122"
  shows "take (length word) (str_lower s) = word \<Longrightarrow> ic_prefix word s"
  using assms
proof (induction word arbitrary: s)
  case Nil
  show ?case by (simp add: ic_prefix_def)
next
  case (Cons a w)
  from Cons.prems(1) have "str_lower s \<noteq> []" by auto
  then obtain c cs where s: "s = c # cs" by (cases s) (auto simp: str_lower_def)
  from Cons.prems(2) have a: "97 \<le> a" "a \<le> 122" and w: "\<forall>b\<in>set w. 97 \<le> b \<and> b \<le> 122"
    by simp_all
  obtain x where x: "cp_lower c = [x] \<or> cp_lower c = [x, 0x307]"
    using cp_lower_shape by blast
  then show ?case
  proof
    assume one: "cp_lower c = [x]"
    with Cons.prems(1) s have xa: "x = a" and t: "take (length w) (str_lower cs) = w"
      by (simp_all add: str_lower_Cons)
    from one xa a have "ignorecase c a" by (intro cp_lower_ignorecase) auto
    moreover from Cons.IH [OF t w] have "ic_prefix w cs" .
    ultimately show ?thesis by (simp add: ic_prefix_Cons s)
  next
    assume two: "cp_lower c = [x, 0x307]"
    with Cons.prems(1) s have xa: "x = a" and t: "take (length w) (0x307 # str_lower cs) = w"
      by (simp_all add: str_lower_Cons)
    have "w = []"
    proof (cases w)
      case Nil
      then show ?thesis .
    next
      case (Cons b w')
      with t have "b = 0x307" by simp
      with w Cons show ?thesis by simp
    qed
    moreover from two xa a have "ignorecase c a" by (intro cp_lower_ignorecase) auto
    ultimately show ?thesis by (simp add: ic_prefix_Cons s ic_prefix_def)
  qed
qed

lemma guard_occurs:
  assumes l: "\<forall>a\<in>set word. 97 \<le> a \<and> a \<le> 122" and ne: "word \<noteq> []"
  shows "str_contains word (str_lower s) \<Longrightarrow> from_first word s \<noteq> None"
proof (induction s)
  case Nil
  then show ?case using ne by (simp add: str_lower_def)
next
  case (Cons c cs)
  obtain x where x: "cp_lower c = [x] \<or> cp_lower c = [x, 0x307]"
    using cp_lower_shape by blast
  have here: "from_first word (c # cs) \<noteq> None"
    if "take (length word) (str_lower (c # cs)) = word"
    using lower_prefix_ic [OF l that] by simp
  have later: "from_first word (c # cs) \<noteq> None" if "str_contains word (str_lower cs)"
    using Cons.IH [OF that] by simp
  from x show ?case
  proof
    assume one: "cp_lower c = [x]"
    with Cons.prems have "take (length word) (str_lower (c # cs)) = word \<or> str_contains word (str_lower cs)"
      by (simp add: str_lower_Cons)
    then show ?thesis using here later by blast
  next
    assume two: "cp_lower c = [x, 0x307]"
    have "take (length word) (0x307 # str_lower cs) \<noteq> word"
    proof
      assume t: "take (length word) (0x307 # str_lower cs) = word"
      from ne obtain b w' where w: "word = b # w'" by (cases word) auto
      with t have "b = 0x307" by simp
      with l w show False by simp
    qed
    with two Cons.prems
    have "take (length word) (str_lower (c # cs)) = word \<or> str_contains word (str_lower cs)"
      by (simp add: str_lower_Cons)
    then show ?thesis using here later by blast
  qed
qed

lemma ascii_ignorecase:
  "c < 128 \<Longrightarrow> 97 \<le> a \<Longrightarrow> a \<le> 122 \<Longrightarrow> ignorecase c a \<Longrightarrow> cp_lower c = [a]"
  by (auto simp: cp_lower_def ignorecase_def sre_lower_def ignorecase_fixes_def split: if_splits)

lemma ascii_cp_lower: "c < 128 \<Longrightarrow> \<exists>x. cp_lower c = [x]"
  by (simp add: cp_lower_def)

lemma ascii_ic_prefix:
  assumes "\<forall>a\<in>set word. 97 \<le> a \<and> a \<le> 122"
  shows "\<forall>c\<in>set s. c < 128 \<Longrightarrow> ic_prefix word s \<Longrightarrow> take (length word) (str_lower s) = word"
  using assms
proof (induction word arbitrary: s)
  case Nil
  show ?case by simp
next
  case (Cons a w)
  from Cons.prems(2) obtain c cs where s: "s = c # cs" and i: "ignorecase c a" and p: "ic_prefix w cs"
    by (auto simp: ic_prefix_Cons)
  from Cons.prems(1) s have c: "c < 128" and cs: "\<forall>c\<in>set cs. c < 128" by simp_all
  from Cons.prems(3) have a: "97 \<le> a" "a \<le> 122" and w: "\<forall>b\<in>set w. 97 \<le> b \<and> b \<le> 122"
    by simp_all
  from ascii_ignorecase [OF c a i] Cons.IH [OF cs p w] show ?case
    by (simp add: s str_lower_Cons)
qed

lemma ascii_occurs_guard:
  assumes l: "\<forall>a\<in>set word. 97 \<le> a \<and> a \<le> 122"
  shows "\<forall>c\<in>set s. c < 128 \<Longrightarrow> from_first word s \<noteq> None \<Longrightarrow> str_contains word (str_lower s)"
proof (induction s)
  case Nil
  then show ?case by (simp add: str_lower_def split: if_splits)
next
  case (Cons c cs)
  from Cons.prems(1) have c: "c < 128" and cs: "\<forall>c\<in>set cs. c < 128" by simp_all
  from ascii_cp_lower [OF c] obtain x where x: "cp_lower c = [x]" by blast
  show ?case
  proof (cases "ic_prefix word (c # cs)")
    case True
    from ascii_ic_prefix [OF l Cons.prems(1) True] show ?thesis
      by (simp add: str_lower_Cons x)
  next
    case False
    with Cons.prems(2) have "from_first word cs \<noteq> None" by simp
    from Cons.IH [OF cs this] show ?thesis by (simp add: str_lower_Cons x)
  qed
qed

lemma py_join_hd: "x \<noteq> [] \<Longrightarrow> hd (py_join sep (x # xs)) = hd x"
  by (cases xs) auto

lemma ustr_error: "ustr ''error'' = [101, 114, 114, 111, 114]"
  by (simp add: ustr_def)

lemma ustr_warning: "ustr ''warning'' = [119, 97, 114, 110, 105, 110, 103]"
  by (simp add: ustr_def)

lemma ignorecase_e_w: "ignorecase x 101 \<or> ignorecase x 119 \<Longrightarrow> x \<noteq> 78"
  by (auto simp: ignorecase_def sre_lower_def ignorecase_fixes_def split: if_splits)

lemma join_not_no_issues:
  assumes "issues \<noteq> []"
    and "\<forall>m\<in>set issues. ic_prefix (ustr ''error'') m \<or> ic_prefix (ustr ''warning'') m"
  shows "py_join [lf] issues \<noteq> ustr ''No issues found in the logs.''"
proof -
  from assms obtain m rest where i: "issues = m # rest"
    and c: "ic_prefix (ustr ''error'') m \<or> ic_prefix (ustr ''warning'') m"
    by (cases issues) auto
  from c obtain x xs where m: "m = x # xs" and x: "ignorecase x 101 \<or> ignorecase x 119"
    by (auto simp: ustr_error ustr_warning ic_prefix_Cons)
  have "hd (py_join [lf] issues) = x"
    using i m py_join_hd [of m "[lf]" rest] by simp
  moreover have "hd (ustr ''No issues found in the logs.'') = 78"
    by (simp add: ustr_def)
  ultimately show ?thesis using ignorecase_e_w [OF x] by auto
qed

lemma letters_error: "\<forall>a\<in>set (ustr ''error''). 97 \<le> a \<and> a \<le> 122"
  by (simp add: ustr_error)

lemma letters_warning: "\<forall>a\<in>set (ustr ''warning''). 97 \<le> a \<and> a \<le> 122"
  by (simp add: ustr_warning)

lemma letters_not_newline: "\<forall>a\<in>set word. 97 \<le> a \<and> a \<le> 122 \<Longrightarrow> \<forall>a\<in>set word. \<not> ignorecase lf a"
  by (auto simp: ignorecase_def sre_lower_def ignorecase_fixes_def lf_def split: if_splits)

text \<open>
  C9, as far as the code goes. \<open>analyze_logs\<close> returns \<open>No issues found in the logs.\<close>
  exactly when the lowered log contains neither \<open>error\<close> nor \<open>warning\<close>; otherwise
  it returns, joined by newlines, the matches of \<open>error.*\<close> if the lowered log
  contains \<open>error\<close>, followed by the matches of \<open>warning.*\<close> if the lowered log
  contains \<open>warning\<close>. A match runs to the end of its line: the matches of a
  pattern are, line by line, the piece of the line from the first occurrence of
  the word, read as \<open>re.IGNORECASE\<close> reads it. A word that the lowered log
  contains is matched by its pattern; in a log of ASCII characters a word that
  the pattern matches is contained in the lowered log, so that the result there
  is made of all the matches of both patterns. The function is total and has no
  exceptional result.
\<close>

theorem analyze_logs_report:
  "(analyze_logs log_data = ustr ''No issues found in the logs.'') =
     (\<not> str_contains (ustr ''error'') (str_lower log_data) \<and>
      \<not> str_contains (ustr ''warning'') (str_lower log_data))
   \<and> (str_contains (ustr ''error'') (str_lower log_data) \<or>
       str_contains (ustr ''warning'') (str_lower log_data) \<longrightarrow>
        analyze_logs log_data =
          py_join [lf]
            ((if str_contains (ustr ''error'') (str_lower log_data)
              then re_findall ignorecase lf error_re 0 log_data else []) @
             (if str_contains (ustr ''warning'') (str_lower log_data)
              then re_findall ignorecase lf warning_re 0 log_data else [])))
   \<and> re_findall ignorecase lf error_re 0 log_data = line_matches (ustr ''error'') log_data
   \<and> re_findall ignorecase lf warning_re 0 log_data = line_matches (ustr ''warning'') log_data
   \<and> (str_contains (ustr ''error'') (str_lower log_data) \<longrightarrow>
        re_findall ignorecase lf error_re 0 log_data \<noteq> [])
   \<and> (str_contains (ustr ''warning'') (str_lower log_data) \<longrightarrow>
        re_findall ignorecase lf warning_re 0 log_data \<noteq> [])
   \<and> ((\<forall>c\<in>set log_data. c < 128) \<longrightarrow>
        analyze_logs log_data =
          (if re_findall ignorecase lf error_re 0 log_data @
              re_findall ignorecase lf warning_re 0 log_data = []
           then ustr ''No issues found in the logs.''
           else py_join [lf] (re_findall ignorecase lf error_re 0 log_data @
                  re_findall ignorecase lf warning_re 0 log_data)))"
proof -
  let ?E = "re_findall ignorecase lf error_re 0 log_data"
  let ?W = "re_findall ignorecase lf warning_re 0 log_data"
  let ?ge = "str_contains (ustr ''error'') (str_lower log_data)"
  let ?gw = "str_contains (ustr ''warning'') (str_lower log_data)"
  let ?issues = "(if ?ge then ?E else []) @ (if ?gw then ?W else [])"
  have we: "ustr ''error'' \<noteq> []" and ww: "ustr ''warning'' \<noteq> []"
    by (simp_all add: ustr_def)
  have oe: "?E \<noteq> [] \<longleftrightarrow> from_first (ustr ''error'') log_data \<noteq> None"
    unfolding error_re_def by (rule findall_occurs [OF we])
  have ow: "?W \<noteq> [] \<longleftrightarrow> from_first (ustr ''warning'') log_data \<noteq> None"
    unfolding warning_re_def by (rule findall_occurs [OF ww])
  have 5: "?ge \<longrightarrow> ?E \<noteq> []"
    using guard_occurs [OF letters_error we, of log_data] oe by blast
  have 6: "?gw \<longrightarrow> ?W \<noteq> []"
    using guard_occurs [OF letters_warning ww, of log_data] ow by blast
  have al: "analyze_logs log_data =
      (if ?issues \<noteq> [] then py_join [lf] ?issues else ustr ''No issues found in the logs.'')"
    by (auto simp: analyze_logs_def Let_def)
  have pe: "\<forall>m\<in>set ?E. ic_prefix (ustr ''error'') m"
    unfolding error_re_def using findall_ic_prefix [OF we] by blast
  have pw: "\<forall>m\<in>set ?W. ic_prefix (ustr ''warning'') m"
    unfolding warning_re_def using findall_ic_prefix [OF ww] by blast
  have ne: "py_join [lf] ?issues \<noteq> ustr ''No issues found in the logs.''" if "?issues \<noteq> []"
    using that pe pw by (intro join_not_no_issues) (auto split: if_splits)
  have em: "?issues \<noteq> [] \<longleftrightarrow> ?ge \<or> ?gw"
    using 5 6 by auto
  have 1: "(analyze_logs log_data = ustr ''No issues found in the logs.'') = (\<not> ?ge \<and> \<not> ?gw)"
    using al ne em by auto
  have 2: "?ge \<or> ?gw \<longrightarrow> analyze_logs log_data = py_join [lf] ?issues"
    using al em by auto
  have 3: "?E = line_matches (ustr ''error'') log_data"
    unfolding error_re_def
    by (rule findall_lines [OF we letters_not_newline [OF letters_error]])
  have 4: "?W = line_matches (ustr ''warning'') log_data"
    unfolding warning_re_def
    by (rule findall_lines [OF ww letters_not_newline [OF letters_warning]])
  have 7: "(\<forall>c\<in>set log_data. c < 128) \<longrightarrow>
        analyze_logs log_data =
          (if ?E @ ?W = [] then ustr ''No issues found in the logs.'' else py_join [lf] (?E @ ?W))"
  proof
    assume a: "\<forall>c\<in>set log_data. c < 128"
    have "?E \<noteq> [] \<longrightarrow> ?ge"
      using ascii_occurs_guard [OF letters_error a] oe by blast
    moreover have "?W \<noteq> [] \<longrightarrow> ?gw"
      using ascii_occurs_guard [OF letters_warning a] ow by blast
    ultimately have "?issues = ?E @ ?W" by auto
    with al show "analyze_logs log_data =
          (if ?E @ ?W = [] then ustr ''No issues found in the logs.'' else py_join [lf] (?E @ ?W))"
      by simp
  qed
  show ?thesis
    by (rule conjI [OF 1 conjI [OF 2 conjI [OF 3 conjI [OF 4 conjI [OF 5 conjI [OF 6 7]]]]]])
qed

text \<open>
  A log whose second line has \<open>WARNING\<close> written with the dotless i: the pattern
  \<open>warning.*\<close> matches that line, the lowered log does not contain \<open>warning\<close>, and
  the result is the match of \<open>error.*\<close> alone. The line alone is a log with a
  match of \<open>warning.*\<close> for which the result is \<open>No issues found in the logs.\<close>
\<close>

theorem analyze_logs_counterexample:
  "re_findall ignorecase lf error_re 0 dotless_log = [ustr ''error'']
   \<and> re_findall ignorecase lf warning_re 0 dotless_log = [dotless_warning]
   \<and> analyze_logs dotless_log = ustr ''error''
   \<and> re_findall ignorecase lf warning_re 0 dotless_warning = [dotless_warning]
   \<and> analyze_logs dotless_warning = ustr ''No issues found in the logs.''"
  by code_simp

theorem analyze_logs_report_witness:
  "str_contains (ustr ''error'') (str_lower sample_log)
   \<and> str_contains (ustr ''warning'') (str_lower sample_log)
   \<and> analyze_logs sample_log = ustr ''ERROR: bad error'' @ [lf] @ ustr ''WARNing z''
   \<and> line_matches (ustr ''error'') sample_log = [ustr ''ERROR: bad error'']
   \<and> line_matches (ustr ''warning'') sample_log = [ustr ''WARNing z'']
   \<and> re_findall ignorecase lf error_re 0 sample_log \<noteq> []
   \<and> re_findall ignorecase lf warning_re 0 sample_log \<noteq> []
   \<and> list_all (\<lambda>c. c < 128) sample_log
   \<and> analyze_logs sample_log =
        py_join [lf] (re_findall ignorecase lf error_re 0 sample_log @
          re_findall ignorecase lf warning_re 0 sample_log)
   \<and> analyze_logs (ustr ''link up'') = ustr ''No issues found in the logs.''
   \<and> \<not> str_contains (ustr ''warning'') (str_lower dotless_log)
   \<and> analyze_logs dotless_log = py_join [lf] (line_matches (ustr ''error'') dotless_log)"
proof -
  note t = analyze_logs_report [of sample_log]
  have c: "str_contains (ustr ''error'') (str_lower sample_log)"
    by code_simp
  have d: "str_contains (ustr ''warning'') (str_lower sample_log)"
    by code_simp
  have e: "line_matches (ustr ''error'') sample_log = [ustr ''ERROR: bad error'']"
    by code_simp
  have w: "line_matches (ustr ''warning'') sample_log = [ustr ''WARNing z'']"
    by code_simp
  have as: "\<forall>c\<in>set sample_log. c < 128"
    by code_simp
  from t c d
  have "analyze_logs sample_log =
      py_join [lf] (line_matches (ustr ''error'') sample_log @ line_matches (ustr ''warning'') sample_log)"
    by simp
  then have a: "analyze_logs sample_log = ustr ''ERROR: bad error'' @ [lf] @ ustr ''WARNing z''"
    by (simp add: e w)
  from t c have fe: "re_findall ignorecase lf error_re 0 sample_log \<noteq> []" by blast
  from t d have fw: "re_findall ignorecase lf warning_re 0 sample_log \<noteq> []" by blast
  from as have la: "list_all (\<lambda>c. c < 128) sample_log" by (simp add: list_all_iff)
  from t as fe
  have aa: "analyze_logs sample_log =
        py_join [lf] (re_findall ignorecase lf error_re 0 sample_log @
          re_findall ignorecase lf warning_re 0 sample_log)"
    by simp
  have n: "\<not> str_contains (ustr ''error'') (str_lower (ustr ''link up'')) \<and>
      \<not> str_contains (ustr ''warning'') (str_lower (ustr ''link up''))"
    by code_simp
  with analyze_logs_report [of "ustr ''link up''"]
  have b: "analyze_logs (ustr ''link up'') = ustr ''No issues found in the logs.''" by blast
  have ge: "str_contains (ustr ''error'') (str_lower dotless_log)"
    by code_simp
  have gw: "\<not> str_contains (ustr ''warning'') (str_lower dotless_log)"
    by code_simp
  from analyze_logs_report [of dotless_log] ge gw
  have dl: "analyze_logs dotless_log = py_join [lf] (line_matches (ustr ''error'') dotless_log)"
    by simp
  from c d a e w fe fw la aa b gw dl show ?thesis by blast
qed

section \<open>Properties of the LangGraph agent\<close>

lemma run_tool_calls_results:
  "run_tool_calls self str tcs acc w = (Inr results, w') \<Longrightarrow>
     \<exists>new. results = acc @ new \<and> length new = length tcs \<and>
       (\<forall>i<length tcs. \<exists>content.
          new ! i = ToolMessage (call_id (tcs ! i)) (name (tcs ! i)) content \<and>
          (lg_tools self (name (tcs ! i)) = None \<longrightarrow> content = ''bad tool name, retry'') \<and>
          (\<forall>tool. lg_tools self (name (tcs ! i)) = Some tool \<longrightarrow>
             (\<exists>result w1 w2. invoke tool (args (tcs ! i)) w1 = (Inr result, w2) \<and> content = str result)))"
proof (induction tcs arbitrary: acc w)
  case Nil
  then show ?case by simp
next
  case (Cons t ts)
  show ?case
  proof (cases "lg_tools self (name t)")
    case None
    let ?m = "ToolMessage (call_id t) (name t) ''bad tool name, retry''"
    from Cons.prems None have "run_tool_calls self str ts (acc @ [?m]) w = (Inr results, w')"
      by simp
    from Cons.IH [OF this] obtain new where n: "results = (acc @ [?m]) @ new" "length new = length ts"
      and each: "\<forall>i<length ts. \<exists>content.
          new ! i = ToolMessage (call_id (ts ! i)) (name (ts ! i)) content \<and>
          (lg_tools self (name (ts ! i)) = None \<longrightarrow> content = ''bad tool name, retry'') \<and>
          (\<forall>tool. lg_tools self (name (ts ! i)) = Some tool \<longrightarrow>
             (\<exists>result w1 w2. invoke tool (args (ts ! i)) w1 = (Inr result, w2) \<and> content = str result))"
      by blast
    have "\<exists>content.
          (?m # new) ! i = ToolMessage (call_id ((t # ts) ! i)) (name ((t # ts) ! i)) content \<and>
          (lg_tools self (name ((t # ts) ! i)) = None \<longrightarrow> content = ''bad tool name, retry'') \<and>
          (\<forall>tool. lg_tools self (name ((t # ts) ! i)) = Some tool \<longrightarrow>
             (\<exists>result w1 w2. invoke tool (args ((t # ts) ! i)) w1 = (Inr result, w2) \<and> content = str result))"
      if "i < length (t # ts)" for i
      using that each None by (cases i) auto
    then show ?thesis using n by (intro exI [of _ "?m # new"]) simp
  next
    case (Some tool)
    from Cons.prems Some obtain result w1 where inv: "invoke tool (args t) w = (Inr result, w1)"
      by (cases "invoke tool (args t) w") (auto split: sum.splits)
    let ?m = "ToolMessage (call_id t) (name t) (str result)"
    from Cons.prems Some inv have "run_tool_calls self str ts (acc @ [?m]) w1 = (Inr results, w')"
      by simp
    from Cons.IH [OF this] obtain new where n: "results = (acc @ [?m]) @ new" "length new = length ts"
      and each: "\<forall>i<length ts. \<exists>content.
          new ! i = ToolMessage (call_id (ts ! i)) (name (ts ! i)) content \<and>
          (lg_tools self (name (ts ! i)) = None \<longrightarrow> content = ''bad tool name, retry'') \<and>
          (\<forall>tool. lg_tools self (name (ts ! i)) = Some tool \<longrightarrow>
             (\<exists>result w1 w2. invoke tool (args (ts ! i)) w1 = (Inr result, w2) \<and> content = str result))"
      by blast
    have "\<exists>content.
          (?m # new) ! i = ToolMessage (call_id ((t # ts) ! i)) (name ((t # ts) ! i)) content \<and>
          (lg_tools self (name ((t # ts) ! i)) = None \<longrightarrow> content = ''bad tool name, retry'') \<and>
          (\<forall>tool. lg_tools self (name ((t # ts) ! i)) = Some tool \<longrightarrow>
             (\<exists>result w1 w2. invoke tool (args ((t # ts) ! i)) w1 = (Inr result, w2) \<and> content = str result))"
      if "i < length (t # ts)" for i
    proof (cases i)
      case 0
      then show ?thesis using Some inv by auto
    next
      case (Suc j)
      then show ?thesis using that each by auto
    qed
    then show ?thesis using n by (intro exI [of _ "?m # new"]) simp
  qed
qed

lemma run_tool_calls_all_bad:
  "\<forall>t\<in>set tcs. lg_tools self (name t) = None \<Longrightarrow>
     run_tool_calls self str tcs acc w =
       (Inr (acc @ map (\<lambda>t. ToolMessage (call_id t) (name t) ''bad tool name, retry'') tcs), w)"
  by (induction tcs arbitrary: acc) auto

lemma take_action_AIMessage:
  "state_messages state \<noteq> [] \<Longrightarrow> last (state_messages state) = AIMessage c tcs \<Longrightarrow>
     take_action self str state w = run_tool_calls self str tcs [] w"
  by (simp add: take_action_def last_message_def tool_calls_def)

text \<open>
  C1. A tool call whose name is not a key of \<open>self.tools\<close> raises nothing: the loop
  of \<open>take_action\<close> goes on in the same world with a \<open>ToolMessage\<close> whose content is
  \<open>bad tool name, retry\<close>. For a name that is a key, the tool stored under it is
  invoked with the arguments of the call and the content is \<open>str\<close> of what it
  returned. When \<open>take_action\<close> returns, it returns one message per tool call, in
  order, each with the id and the name of its call.
\<close>

theorem take_action_tool_messages:
  "(lg_tools self (name t) = None \<longrightarrow>
      run_tool_calls self str (t # ts) results w =
        run_tool_calls self str ts
          (results @ [ToolMessage (call_id t) (name t) ''bad tool name, retry'']) w)
   \<and> (\<forall>tool.
        lg_tools self (name t) = Some tool \<longrightarrow>
        run_tool_calls self str (t # ts) results w =
          (case invoke tool (args t) w of
             (Inl e, w') \<Rightarrow> (Inl e, w')
           | (Inr result, w') \<Rightarrow>
               run_tool_calls self str ts
                 (results @ [ToolMessage (call_id t) (name t) (str result)]) w'))
   \<and> (\<forall>c tcs.
        state_messages state \<noteq> [] \<and> last (state_messages state) = AIMessage c tcs \<and>
        (\<forall>t\<in>set tcs. lg_tools self (name t) = None) \<longrightarrow>
        take_action self str state w =
          (Inr (map (\<lambda>t. ToolMessage (call_id t) (name t) ''bad tool name, retry'') tcs), w))
   \<and> (\<forall>c tcs out w'.
        state_messages state \<noteq> [] \<and> last (state_messages state) = AIMessage c tcs \<and>
        take_action self str state w = (Inr out, w') \<longrightarrow>
        length out = length tcs \<and>
        (\<forall>i<length tcs. \<exists>content.
           out ! i = ToolMessage (call_id (tcs ! i)) (name (tcs ! i)) content \<and>
           (lg_tools self (name (tcs ! i)) = None \<longrightarrow> content = ''bad tool name, retry'') \<and>
           (\<forall>tool. lg_tools self (name (tcs ! i)) = Some tool \<longrightarrow>
              (\<exists>result w1 w2. invoke tool (args (tcs ! i)) w1 = (Inr result, w2) \<and>
                 content = str result))))"
proof -
  have 1: "lg_tools self (name t) = None \<longrightarrow>
      run_tool_calls self str (t # ts) results w =
        run_tool_calls self str ts
          (results @ [ToolMessage (call_id t) (name t) ''bad tool name, retry'']) w"
    by simp
  have 2: "\<forall>tool.
        lg_tools self (name t) = Some tool \<longrightarrow>
        run_tool_calls self str (t # ts) results w =
          (case invoke tool (args t) w of
             (Inl e, w') \<Rightarrow> (Inl e, w')
           | (Inr result, w') \<Rightarrow>
               run_tool_calls self str ts
                 (results @ [ToolMessage (call_id t) (name t) (str result)]) w')"
    by simp
  have 3: "\<forall>c tcs.
        state_messages state \<noteq> [] \<and> last (state_messages state) = AIMessage c tcs \<and>
        (\<forall>t\<in>set tcs. lg_tools self (name t) = None) \<longrightarrow>
        take_action self str state w =
          (Inr (map (\<lambda>t. ToolMessage (call_id t) (name t) ''bad tool name, retry'') tcs), w)"
  proof (intro allI impI)
    fix c tcs
    assume "state_messages state \<noteq> [] \<and> last (state_messages state) = AIMessage c tcs \<and>
        (\<forall>t\<in>set tcs. lg_tools self (name t) = None)"
    then show "take_action self str state w =
          (Inr (map (\<lambda>t. ToolMessage (call_id t) (name t) ''bad tool name, retry'') tcs), w)"
      using run_tool_calls_all_bad [of tcs self str "[]" w]
        take_action_AIMessage [of state c tcs self str w]
      by simp
  qed
  have 4: "\<forall>c tcs out w'.
        state_messages state \<noteq> [] \<and> last (state_messages state) = AIMessage c tcs \<and>
        take_action self str state w = (Inr out, w') \<longrightarrow>
        length out = length tcs \<and>
        (\<forall>i<length tcs. \<exists>content.
           out ! i = ToolMessage (call_id (tcs ! i)) (name (tcs ! i)) content \<and>
           (lg_tools self (name (tcs ! i)) = None \<longrightarrow> content = ''bad tool name, retry'') \<and>
           (\<forall>tool. lg_tools self (name (tcs ! i)) = Some tool \<longrightarrow>
              (\<exists>result w1 w2. invoke tool (args (tcs ! i)) w1 = (Inr result, w2) \<and>
                 content = str result)))"
  proof (intro allI impI)
    fix c tcs out w'
    assume h: "state_messages state \<noteq> [] \<and> last (state_messages state) = AIMessage c tcs \<and>
        take_action self str state w = (Inr out, w')"
    then have "run_tool_calls self str tcs [] w = (Inr out, w')"
      using take_action_AIMessage [of state c tcs self str w] by simp
    from run_tool_calls_results [OF this]
    show "length out = length tcs \<and>
        (\<forall>i<length tcs. \<exists>content.
           out ! i = ToolMessage (call_id (tcs ! i)) (name (tcs ! i)) content \<and>
           (lg_tools self (name (tcs ! i)) = None \<longrightarrow> content = ''bad tool name, retry'') \<and>
           (\<forall>tool. lg_tools self (name (tcs ! i)) = Some tool \<longrightarrow>
              (\<exists>result w1 w2. invoke tool (args (tcs ! i)) w1 = (Inr result, w2) \<and>
                 content = str result)))"
      by auto
  qed
  show ?thesis by (rule conjI [OF 1 conjI [OF 2 conjI [OF 3 4]]])
qed

lemma END_neq: "END \<noteq> ''llm''" "END \<noteq> ''action''" "''llm'' \<noteq> END" "''action'' \<noteq> END"
  by (simp_all add: END_def)

lemma Agent_graph_simps:
  "entry_point (Agent_graph self str) = Some ''llm''"
  "nodes (Agent_graph self str) ''llm'' = Some (call_openai self)"
  "nodes (Agent_graph self str) ''action'' = Some (take_action self str)"
  "branches (Agent_graph self str) ''llm'' = Some (exists_action self, [True \<mapsto> ''action'', False \<mapsto> END])"
  "branches (Agent_graph self str) ''action'' = None"
  "edges (Agent_graph self str) ''action'' = Some ''llm''"
  by (simp_all add: Agent_graph_def set_entry_point_def add_edge_def add_conditional_edges_def
      add_node_def new_graph_def)

lemma next_node_llm:
  "next_node (Agent_graph self str) ''llm'' state =
     (case exists_action self state of
        Inl e \<Rightarrow> Inl e
      | Inr b \<Rightarrow> Inr (if b then ''action'' else END))"
  by (simp add: next_node_def Agent_graph_simps split: sum.splits)

lemma next_node_action: "next_node (Agent_graph self str) ''action'' state = Inr ''llm''"
  by (simp add: next_node_def Agent_graph_simps)

lemma exists_action_append:
  "exists_action self (state\<lparr>state_messages := state_messages state @ [message]\<rparr>) =
     (case tool_calls message of Inl e \<Rightarrow> Inl e | Inr tcs \<Rightarrow> Inr (tcs \<noteq> []))"
  by (simp add: exists_action_def last_message_def split: sum.splits)


lemma graph_step_llm:
  "graph_step (Agent_graph self str) ''llm'' state w =
     (case call_openai self state w of
        (Inl e, w') \<Rightarrow> (Inl e, w')
      | (Inr update, w') \<Rightarrow>
          (case exists_action self (state\<lparr>state_messages := state_messages state @ update\<rparr>) of
             Inl e \<Rightarrow> (Inl e, w')
           | Inr b \<Rightarrow>
               (Inr (if b then ''action'' else END,
                     state\<lparr>state_messages := state_messages state @ update\<rparr>), w')))"
  by (simp add: graph_step_def Agent_graph_simps next_node_llm Let_def split: prod.splits sum.splits)

lemma graph_step_action:
  "graph_step (Agent_graph self str) ''action'' state w =
     (case take_action self str state w of
        (Inl e, w') \<Rightarrow> (Inl e, w')
      | (Inr update, w') \<Rightarrow>
          (Inr (''llm'', state\<lparr>state_messages := state_messages state @ update\<rparr>), w'))"
  by (simp add: graph_step_def Agent_graph_simps next_node_action Let_def split: prod.splits sum.splits)




lemma graph_run_END: "graph_run (Suc k) g END state w = (Inr state, w)"
  by simp




lemma research_bot_simps:
  "lg_system research_bot = research_prompt"
  "lg_tools research_bot ''tavily_search_results_json'' = Some search_tool"
  "lg_tools research_bot ''wikipedia'' = None"
  "lg_model research_bot = scripted_llm"
  by (simp_all add: research_bot_def lg_Agent_init_def search_tool_def scripted_model_def fun_eq_iff)



theorem take_action_tool_messages_witness:
  "lg_tools research_bot (name wiki_call) = None
   \<and> run_tool_calls research_bot (\<lambda>r. r) [wiki_call] [] nobel_world =
       (Inr [ToolMessage ''call_2'' ''wikipedia'' ''bad tool name, retry''], nobel_world)
   \<and> lg_tools research_bot (name search_call) = Some search_tool
   \<and> invoke search_tool (args search_call) nobel_world =
       (Inr ''results for nobel prize physics'',
        nobel_world\<lparr>log := [ToolCall ''tavily_search_results_json'' ''nobel prize physics'']\<rparr>)
   \<and> run_tool_calls research_bot (\<lambda>r. r) [search_call] [] nobel_world =
       (Inr [ToolMessage ''call_1'' ''tavily_search_results_json'' ''results for nobel prize physics''],
        nobel_world\<lparr>log := [ToolCall ''tavily_search_results_json'' ''nobel prize physics'']\<rparr>)
   \<and> take_action research_bot (\<lambda>r. r) wiki_asked nobel_world =
       (Inr [ToolMessage ''call_2'' ''wikipedia'' ''bad tool name, retry''], nobel_world)
   \<and> take_action research_bot (\<lambda>r. r) nobel_asked nobel_world =
       (Inr nobel_tools_run,
        nobel_world\<lparr>log := [ToolCall ''tavily_search_results_json'' ''nobel prize physics'']\<rparr>)
   \<and> length nobel_tools_run = 2
   \<and> nobel_tools_run ! 1 = ToolMessage ''call_2'' ''wikipedia'' ''bad tool name, retry''"
proof -
  let ?id = "\<lambda>r::string. r"
  let ?w' = "nobel_world\<lparr>log := [ToolCall ''tavily_search_results_json'' ''nobel prize physics'']\<rparr>"
  note t = take_action_tool_messages [where self = research_bot and str = ?id and w = nobel_world]
  have n1: "lg_tools research_bot (name wiki_call) = None"
    by (simp add: wiki_call_def research_bot_simps)
  have n2: "lg_tools research_bot (name search_call) = Some search_tool"
    by (simp add: search_call_def research_bot_simps)
  have iv: "invoke search_tool (args search_call) nobel_world = (Inr ''results for nobel prize physics'', ?w')"
    by (simp add: search_tool_def search_call_def logged_tool_def nobel_world_def start_world_def)
  from t [of wiki_call "[]" "[]" wiki_asked] n1
  have r1: "run_tool_calls research_bot ?id [wiki_call] [] nobel_world =
      (Inr [ToolMessage ''call_2'' ''wikipedia'' ''bad tool name, retry''], nobel_world)"
    by (simp add: wiki_call_def)
  from t [of search_call "[]" "[]" wiki_asked] n2 iv
  have r2: "run_tool_calls research_bot ?id [search_call] [] nobel_world =
      (Inr [ToolMessage ''call_1'' ''tavily_search_results_json'' ''results for nobel prize physics''], ?w')"
    by (simp add: search_call_def)
  have "state_messages wiki_asked \<noteq> [] \<and> last (state_messages wiki_asked) = AIMessage [] [wiki_call] \<and>
      (\<forall>t\<in>set [wiki_call]. lg_tools research_bot (name t) = None)"
    using n1 by (simp add: wiki_asked_def)
  with t [of wiki_call "[]" "[]" wiki_asked]
  have a1: "take_action research_bot ?id wiki_asked nobel_world =
      (Inr (map (\<lambda>t. ToolMessage (call_id t) (name t) ''bad tool name, retry'') [wiki_call]), nobel_world)"
    by blast
  then have a1': "take_action research_bot ?id wiki_asked nobel_world =
      (Inr [ToolMessage ''call_2'' ''wikipedia'' ''bad tool name, retry''], nobel_world)"
    by (simp add: wiki_call_def)
  have a2: "take_action research_bot ?id nobel_asked nobel_world = (Inr nobel_tools_run, ?w')"
    by (simp add: take_action_def last_message_def tool_calls_def nobel_asked_def search_call_def
        wiki_call_def research_bot_simps search_tool_def logged_tool_def nobel_tools_run_def
        nobel_world_def start_world_def)
  have "state_messages nobel_asked \<noteq> [] \<and>
      last (state_messages nobel_asked) = AIMessage [] [search_call, wiki_call] \<and>
      take_action research_bot ?id nobel_asked nobel_world = (Inr nobel_tools_run, ?w')"
    using a2 by (simp add: nobel_asked_def)
  with t [of wiki_call "[]" "[]" nobel_asked]
  have l: "length nobel_tools_run = length [search_call, wiki_call] \<and>
        (\<forall>i<length [search_call, wiki_call]. \<exists>content.
           nobel_tools_run ! i = ToolMessage (call_id ([search_call, wiki_call] ! i))
              (name ([search_call, wiki_call] ! i)) content \<and>
           (lg_tools research_bot (name ([search_call, wiki_call] ! i)) = None \<longrightarrow>
              content = ''bad tool name, retry'') \<and>
           (\<forall>tool. lg_tools research_bot (name ([search_call, wiki_call] ! i)) = Some tool \<longrightarrow>
              (\<exists>result w1 w2. invoke tool (args ([search_call, wiki_call] ! i)) w1 = (Inr result, w2) \<and>
                 content = ?id result)))"
    by blast
  then have l2: "length nobel_tools_run = 2" by simp
  from l have "\<exists>content.
           nobel_tools_run ! 1 = ToolMessage (call_id ([search_call, wiki_call] ! 1))
              (name ([search_call, wiki_call] ! 1)) content \<and>
           (lg_tools research_bot (name ([search_call, wiki_call] ! 1)) = None \<longrightarrow>
              content = ''bad tool name, retry'')"
    by auto
  with n1 have l3: "nobel_tools_run ! 1 = ToolMessage ''call_2'' ''wikipedia'' ''bad tool name, retry''"
    by (auto simp: wiki_call_def)
  from n1 r1 n2 iv r2 a1' a2 l2 l3 show ?thesis by blast
qed

section \<open>Properties of the two loops, of the handlers and of the dispatch\<close>

lemma is_word_char_not_newline: "is_word_char c \<Longrightarrow> c \<noteq> newline"
  by (auto simp: is_word_char_def newline_def)

lemma find_actions_Act:
  assumes "n \<noteq> []" "list_all is_word_char n" "newline \<notin> set a"
  shows "find_actions (as_text (Act n a)) = [[n, a]]"
proof -
  let ?l = "''Action: '' @ n @ '': '' @ a"
  have nl: "newline \<notin> set ?l"
    using assms is_word_char_not_newline by (auto simp: list_all_iff newline_def)
  then have sp: "py_split newline ?l = [?l]" by (rule py_split_last)
  have "is_action_line ?l n a" using assms by (simp add: is_action_line_def)
  then have "re_match action_re ?l = Some [n, a]"
    using nl by (simp add: re_match_action_re parse_action_iff)
  then show ?thesis
    by (simp add: find_actions_def as_text_def sp List.map_filter_simps del: append.simps)
qed

lemma query_loop_script:
  assumes "\<forall>x\<in>set xs. well_formed fs x" and "find_actions s = []"
  shows "i + int (length xs) < max_turns \<Longrightarrow>
     \<exists>abot'. query_loop scripted_llm (logged_actions fs) str max_turns i abot p
        \<lparr>script = map as_text (acts xs @ [Say s]), log = L\<rparr> =
      (Inr (), abot', \<lparr>script = [], log = L @ events xs\<rparr>)"
  using assms(1)
proof (induction xs arbitrary: i abot p L)
  case Nil
  have "Agent_call scripted_llm abot p \<lparr>script = map as_text (acts [] @ [Say s]), log = L\<rparr> =
      (Inr s, abot\<lparr>messages := messages abot @ [\<lparr>role = ''user'', content = p\<rparr>,
          \<lparr>role = ''assistant'', content = s\<rparr>]\<rparr>, \<lparr>script = [], log = L @ [ModelCall]\<rparr>)"
    by (simp add: Agent_call_def execute_def scripted_llm_def acts_def as_text_def Let_def)
  moreover have "i < max_turns" using Nil.prems(1) by simp
  ultimately have "query_loop scripted_llm (logged_actions fs) str max_turns i abot p
        \<lparr>script = map as_text (acts [] @ [Say s]), log = L\<rparr> =
      (Inr (), abot\<lparr>messages := messages abot @ [\<lparr>role = ''user'', content = p\<rparr>,
          \<lparr>role = ''assistant'', content = s\<rparr>]\<rparr>, \<lparr>script = [], log = L @ [ModelCall]\<rparr>)"
    using assms(2) by (intro query_loop_return)
  then show ?case by (auto simp: events_def)
next
  case (Cons x xs)
  obtain n a where x: "x = (n, a)" by (cases x) auto
  from Cons.prems(2) x have wf: "n \<in> dom fs" "n \<noteq> []" "list_all is_word_char n" "newline \<notin> set a"
    by (simp_all add: well_formed_def)
  then obtain f where f: "fs n = Some f" by auto
  let ?w1 = "\<lparr>script = map as_text (acts xs @ [Say s]), log = L @ [ModelCall]\<rparr> :: (string, string) rec_world"
  let ?b1 = "abot\<lparr>messages := messages abot @ [\<lparr>role = ''user'', content = p\<rparr>,
          \<lparr>role = ''assistant'', content = as_text (Act n a)\<rparr>]\<rparr>"
  have ac: "Agent_call scripted_llm abot p \<lparr>script = map as_text (acts (x # xs) @ [Say s]), log = L\<rparr> =
      (Inr (as_text (Act n a)), ?b1, ?w1)"
    by (simp add: Agent_call_def execute_def scripted_llm_def acts_def x Let_def)
  have fa: "find_actions (as_text (Act n a)) = [n, a] # []"
    using find_actions_Act [OF wf(2,3,4)] by simp
  have lt: "i < max_turns" using Cons.prems(1) by simp
  have ka: "logged_actions fs n = Some (logged_tool n (\<lambda>a. Str (f a)))"
    by (simp add: logged_actions_def f)
  have step: "query_loop scripted_llm (logged_actions fs) str max_turns i abot p
        \<lparr>script = map as_text (acts (x # xs) @ [Say s]), log = L\<rparr> =
      query_loop scripted_llm (logged_actions fs) str max_turns (i + 1) ?b1
        (''Observation: '' @ py_format str (Str (f a)))
        \<lparr>script = map as_text (acts xs @ [Say s]), log = (L @ [ModelCall, ToolCall n a])\<rparr>"
    by (subst query_loop_action [OF lt ac fa]) (simp add: ka logged_tool_def)
  have "i + 1 + int (length xs) < max_turns" using Cons.prems(1) by simp
  from Cons.IH [OF this, of ?b1 "''Observation: '' @ py_format str (Str (f a))" "L @ [ModelCall, ToolCall n a]"]
    Cons.prems(2)
  obtain abot' where "query_loop scripted_llm (logged_actions fs) str max_turns (i + 1) ?b1
        (''Observation: '' @ py_format str (Str (f a)))
        \<lparr>script = map as_text (acts xs @ [Say s]), log = (L @ [ModelCall, ToolCall n a])\<rparr> =
      (Inr (), abot', \<lparr>script = [], log = (L @ [ModelCall, ToolCall n a]) @ events xs\<rparr>)"
    by auto
  with step show ?case by (simp add: events_def x)
qed

lemma graph_run_script:
  assumes "\<forall>x\<in>set xs. well_formed fs x"
  shows "2 * length xs + 1 < limit \<Longrightarrow>
     \<exists>final. graph_run limit (Agent_graph (logged_agent sys fs) str) ''llm'' state
        \<lparr>script = map as_message (acts xs @ [Say s]), log = L\<rparr> =
      (Inr final, \<lparr>script = [], log = L @ events xs\<rparr>)"
  using assms
proof (induction xs arbitrary: limit state L)
  case Nil
  let ?g = "Agent_graph (logged_agent sys fs) str"
  let ?w = "\<lparr>script = map as_message (acts [] @ [Say s]), log = L\<rparr> :: (string message, string) rec_world"
  from Nil.prems(1) obtain k where k: "limit = Suc (Suc k)" by (cases limit; cases "limit - 1") auto
  have co: "call_openai (logged_agent sys fs) state ?w =
      (Inr [AIMessage s []], \<lparr>script = [], log = L @ [ModelCall]\<rparr>)"
    by (simp add: call_openai_def logged_agent_def scripted_llm_def acts_def as_message_def Let_def)
  have "graph_step ?g ''llm'' state ?w =
      (Inr (END, state\<lparr>state_messages := state_messages state @ [AIMessage s []]\<rparr>),
       \<lparr>script = [], log = L @ [ModelCall]\<rparr>)"
    using co by (simp add: graph_step_llm exists_action_append tool_calls_def)
  then show ?case using k END_neq by (simp add: events_def)
next
  case (Cons x xs)
  let ?self = "logged_agent sys fs"
  let ?g = "Agent_graph ?self str"
  obtain n a where x: "x = (n, a)" by (cases x) auto
  from Cons.prems(2) x obtain f where f: "fs n = Some f"
    by (auto simp: well_formed_def)
  from Cons.prems(1) obtain k where k: "limit = Suc (Suc k)" "2 * length xs + 1 < k"
    by (cases limit; cases "limit - 1") auto
  let ?w0 = "\<lparr>script = map as_message (acts (x # xs) @ [Say s]), log = L\<rparr> :: (string message, string) rec_world"
  let ?w1 = "\<lparr>script = map as_message (acts xs @ [Say s]), log = L @ [ModelCall]\<rparr> :: (string message, string) rec_world"
  let ?w2 = "\<lparr>script = map as_message (acts xs @ [Say s]), log = L @ [ModelCall, ToolCall n a]\<rparr>
      :: (string message, string) rec_world"
  let ?tc = "\<lparr>name = n, args = a, call_id = ''call''\<rparr>"
  let ?s1 = "state\<lparr>state_messages := state_messages state @ [AIMessage [] [?tc]]\<rparr>"
  let ?s2 = "?s1\<lparr>state_messages := state_messages ?s1 @ [ToolMessage ''call'' n (str (f a))]\<rparr>"
  have co: "call_openai ?self state ?w0 = (Inr [AIMessage [] [?tc]], ?w1)"
    by (simp add: call_openai_def logged_agent_def scripted_llm_def acts_def as_message_def x Let_def)
  have st1: "graph_step ?g ''llm'' state ?w0 = (Inr (''action'', ?s1), ?w1)"
    using co by (simp add: graph_step_llm exists_action_append tool_calls_def)
  have ta: "take_action ?self str ?s1 ?w1 = (Inr [ToolMessage ''call'' n (str (f a))], ?w2)"
    by (simp add: take_action_def last_message_def tool_calls_def logged_agent_def logged_tools_def f
        logged_tool_def)
  have st2: "graph_step ?g ''action'' ?s1 ?w1 = (Inr (''llm'', ?s2), ?w2)"
    using ta by (simp add: graph_step_action)
  have run: "graph_run limit ?g ''llm'' state ?w0 = graph_run k ?g ''llm'' ?s2 ?w2"
    using END_neq st1 st2 by (simp add: k)
  from Cons.IH [OF k(2), of ?s2 "L @ [ModelCall, ToolCall n a]"] Cons.prems(2)
  obtain final where "graph_run k ?g ''llm'' ?s2 ?w2 =
      (Inr final, \<lparr>script = [], log = (L @ [ModelCall, ToolCall n a]) @ events xs\<rparr>)"
    by auto
  with run show ?case by (simp add: events_def x)
qed

text \<open>
  C7, as far as the code goes. The model answers a list of requests, each for
  one tool, and then a final text. Every request names a tool that both agents
  know, by a name made of word characters, with an input that has no line break:
  then the line \<open>Action: <name>: <input>\<close>, which the hand-rolled loop is given,
  is read back as the tool call of that name and input, which the graph is given.
  The final text has no action line. When the final text comes within
  \<open>max_turns\<close> responses, and the graph needs fewer steps than its recursion limit
  (two for every request and one for the final text), the hand-rolled loop and
  the graph make the same sequence of calls: model, tool, model, tool, ...,
  model, and both end without an exception. They part on a name that is not
  known: the hand-rolled loop ends with the exception \<open>Unknown action\<close>, the
  graph's action step answers \<open>bad tool name, retry\<close> and the run goes on.
\<close>

theorem same_sequence_on_known_tools:
  assumes "\<forall>x\<in>set xs. well_formed fs x"
    and "find_actions s = []"
    and "int (length xs) < max_turns"
    and "2 * length xs + 1 < limit"
  shows "query scripted_llm (logged_actions fs) str_obs question max_turns
           (start_world (map as_text (acts xs @ [Say s]))) =
           (Inr (), \<lparr>script = [], log = events xs\<rparr>)
       \<and> (\<exists>final. graph_invoke limit (Agent_graph (logged_agent sys fs) str_res) input
             (start_world (map as_message (acts xs @ [Say s]))) =
             (Inr final, \<lparr>script = [], log = events xs\<rparr>))
       \<and> (i < max_turns \<and> Agent_call llm abot p w = (Inr result, abot', w') \<and>
             find_actions result = [action, action_input] # others \<and> actions action = None \<longrightarrow>
             query_loop llm actions str_obs max_turns i abot p w =
               (Inl (Exception (''Unknown action: '' @ action @ '': '' @ action_input)), abot', w'))
       \<and> (lg_tools self (name t) = None \<longrightarrow>
             run_tool_calls self str_res [t] [] v =
               (Inr [ToolMessage (call_id t) (name t) ''bad tool name, retry''], v))"
proof -
  from query_loop_script [OF assms(1,2), of 0 max_turns str_obs "Agent_init prompt" question "[]"] assms(3)
  obtain b where "query_loop scripted_llm (logged_actions fs) str_obs max_turns 0 (Agent_init prompt)
      question \<lparr>script = map as_text (acts xs @ [Say s]), log = []\<rparr> =
      (Inr (), b, \<lparr>script = [], log = events xs\<rparr>)"
    by auto
  then have 1: "query scripted_llm (logged_actions fs) str_obs question max_turns
           (start_world (map as_text (acts xs @ [Say s]))) =
           (Inr (), \<lparr>script = [], log = events xs\<rparr>)"
    by (simp add: query_def start_world_def)
  from graph_run_script [OF assms(1,4), of sys str_res input s "[]"]
  have 2: "\<exists>final. graph_invoke limit (Agent_graph (logged_agent sys fs) str_res) input
             (start_world (map as_message (acts xs @ [Say s]))) =
             (Inr final, \<lparr>script = [], log = events xs\<rparr>)"
    by (simp add: graph_invoke_def Agent_graph_simps start_world_def)
  have 3: "i < max_turns \<and> Agent_call llm abot p w = (Inr result, abot', w') \<and>
             find_actions result = [action, action_input] # others \<and> actions action = None \<longrightarrow>
             query_loop llm actions str_obs max_turns i abot p w =
               (Inl (Exception (''Unknown action: '' @ action @ '': '' @ action_input)), abot', w')"
    by (auto simp: query_loop_action)
  have 4: "lg_tools self (name t) = None \<longrightarrow>
             run_tool_calls self str_res [t] [] v =
               (Inr [ToolMessage (call_id t) (name t) ''bad tool name, retry''], v)"
    by simp
  show ?thesis by (rule conjI [OF 1 conjI [OF 2 conjI [OF 3 4]]])
qed

text \<open>
  Four runs on which the two part. The model names a tool that does not exist
  and would then give its answer: the hand-rolled loop raises after the first
  request; the graph tells the model to retry and makes the second request. The
  model names a tool that both agents know, \<open>web-search\<close>, whose name is not made
  of word characters: the hand-rolled loop finds no action in the line and
  returns without running the tool; the graph runs it and asks the model again.
  The model asks for a tool once and \<open>max_turns\<close> is 1: the hand-rolled loop runs
  the tool and stops without asking the model again; the graph asks it again.
  The model asks for a tool twelve times: the hand-rolled loop, with
  \<open>max_turns\<close> 13, ends at the final text; the graph, with its default recursion
  limit, raises \<open>GraphRecursionError\<close>.
\<close>

theorem same_sequence_counterexample:
  "query scripted_llm (logged_actions search_fs) (\<lambda>v::unit. ''?'') ''who won?'' 5
     (start_world (map as_text [Act ''wikipedia'' ''nobel'', Say ''It was X.''])) =
     (Inl (Exception ''Unknown action: wikipedia: nobel''),
      \<lparr>script = [''It was X.''], log = [ModelCall]\<rparr>)
   \<and> map_prod isl log
        (graph_invoke_default (Agent_graph (logged_agent research_prompt search_fs) (\<lambda>r. r)) nobel_question
           (start_world (map as_message [Act ''wikipedia'' ''nobel'', Say ''It was X.'']))) =
     (False, [ModelCall, ModelCall])
   \<and> query scripted_llm (logged_actions web_fs) (\<lambda>v::unit. ''?'') ''who won?'' 5
     (start_world (map as_text [Act ''web-search'' ''nobel'', Say ''It was X.''])) =
     (Inr (), \<lparr>script = [''It was X.''], log = [ModelCall]\<rparr>)
   \<and> map_prod isl log
        (graph_invoke_default (Agent_graph (logged_agent research_prompt web_fs) (\<lambda>r. r)) nobel_question
           (start_world (map as_message [Act ''web-search'' ''nobel'', Say ''It was X.'']))) =
     (False, [ModelCall, ToolCall ''web-search'' ''nobel'', ModelCall])
   \<and> query scripted_llm (logged_actions search_fs) (\<lambda>v::unit. ''?'') ''who won?'' 1
     (start_world (map as_text [Act ''tavily_search_results_json'' ''nobel'', Say ''It was X.''])) =
     (Inr (), \<lparr>script = [''It was X.''],
        log = [ModelCall, ToolCall ''tavily_search_results_json'' ''nobel'']\<rparr>)
   \<and> map_prod isl log
        (graph_invoke_default (Agent_graph (logged_agent research_prompt search_fs) (\<lambda>r. r)) nobel_question
           (start_world (map as_message [Act ''tavily_search_results_json'' ''nobel'', Say ''It was X.'']))) =
     (False, [ModelCall, ToolCall ''tavily_search_results_json'' ''nobel'', ModelCall])
   \<and> query scripted_llm (logged_actions search_fs) (\<lambda>v::unit. ''?'') ''who won?'' 13
     (start_world (map as_text (acts twelve_searches @ [Say ''It was X.'']))) =
     (Inr (), \<lparr>script = [], log = events twelve_searches\<rparr>)
   \<and> fst (graph_invoke_default (Agent_graph (logged_agent research_prompt search_fs) (\<lambda>r. r))
          nobel_question (start_world (map as_message (acts twelve_searches @ [Say ''It was X.''])))) =
     Inl GraphRecursionError"
  by code_simp

theorem same_sequence_on_known_tools_witness:
  "well_formed elephant_fs (''average_elephant_weight'', ''African Elephant'')
   \<and> find_actions elephant_answer = []
   \<and> int (length [(''average_elephant_weight'', ''African Elephant'')]) < 5
   \<and> 2 * length [(''average_elephant_weight'', ''African Elephant'')] + 1 < recursion_limit
   \<and> query scripted_llm (logged_actions elephant_fs) (\<lambda>v::unit. ''?'') elephant_question 5
        (start_world (map as_text (acts [(''average_elephant_weight'', ''African Elephant'')]
           @ [Say elephant_answer]))) =
        (Inr (), \<lparr>script = [],
           log = [ModelCall, ToolCall ''average_elephant_weight'' ''African Elephant'', ModelCall]\<rparr>)
   \<and> (\<exists>final. graph_invoke recursion_limit (Agent_graph (logged_agent research_prompt elephant_fs) (\<lambda>r. r))
          nobel_question
          (start_world (map as_message (acts [(''average_elephant_weight'', ''African Elephant'')]
             @ [Say elephant_answer]))) =
        (Inr final, \<lparr>script = [],
           log = [ModelCall, ToolCall ''average_elephant_weight'' ''African Elephant'', ModelCall]\<rparr>))
   \<and> known_actions (no_eval :: string \<Rightarrow> ((string, string) rec_world, unit pyval) ext) ''search'' = None
   \<and> query_loop scripted_llm (known_actions no_eval) (\<lambda>v::unit. ''?'') 5 0 (Agent_init prompt)
        elephant_question (start_world [unknown_reply] :: (string, string) rec_world) =
        (Inl (Exception ''Unknown action: search: elephants''),
         \<lparr>system = prompt,
          messages = [\<lparr>role = ''system'', content = prompt\<rparr>,
                      \<lparr>role = ''user'', content = elephant_question\<rparr>,
                      \<lparr>role = ''assistant'', content = unknown_reply\<rparr>]\<rparr>,
         \<lparr>script = [], log = [ModelCall]\<rparr>)
   \<and> lg_tools research_bot (name wiki_call) = None
   \<and> run_tool_calls research_bot (\<lambda>r. r) [wiki_call] [] nobel_world =
        (Inr [ToolMessage ''call_2'' ''wikipedia'' ''bad tool name, retry''], nobel_world)"
proof -
  let ?xs = "[(''average_elephant_weight'', ''African Elephant'')]"
  let ?ka = "known_actions (no_eval :: string \<Rightarrow> ((string, string) rec_world, unit pyval) ext)"
  let ?u = "start_world [unknown_reply] :: (string, string) rec_world"
  let ?bu = "\<lparr>system = prompt,
          messages = [\<lparr>role = ''system'', content = prompt\<rparr>,
                      \<lparr>role = ''user'', content = elephant_question\<rparr>,
                      \<lparr>role = ''assistant'', content = unknown_reply\<rparr>]\<rparr>"
  let ?w1 = "\<lparr>script = [], log = [ModelCall]\<rparr> :: (string, string) rec_world"
  have wf: "well_formed elephant_fs (''average_elephant_weight'', ''African Elephant'')"
    by (simp add: well_formed_def elephant_fs_def is_word_char_def newline_def)
  then have h1: "\<forall>x\<in>set ?xs. well_formed elephant_fs x" by simp
  have h2: "find_actions elephant_answer = []" by (rule find_actions_answer)
  have h3: "int (length ?xs) < 5" by simp
  have h4: "2 * length ?xs + 1 < recursion_limit" by (simp add: recursion_limit_def)
  have ev: "events ?xs = [ModelCall, ToolCall ''average_elephant_weight'' ''African Elephant'', ModelCall]"
    by (simp add: events_def)
  note t = same_sequence_on_known_tools [OF h1 h2 h3 h4, where str_obs = "\<lambda>v::unit. ''?''"
      and question = elephant_question and sys = research_prompt and str_res = "\<lambda>r. r"
      and input = nobel_question and llm = scripted_llm and actions = ?ka and i = 0
      and abot = "Agent_init prompt" and p = elephant_question and w = ?u and self = research_bot
      and t = wiki_call and v = nobel_world]
  from t have q: "query scripted_llm (logged_actions elephant_fs) (\<lambda>v::unit. ''?'') elephant_question 5
        (start_world (map as_text (acts ?xs @ [Say elephant_answer]))) =
        (Inr (), \<lparr>script = [], log = events ?xs\<rparr>)"
    by blast
  from t have g: "\<exists>final. graph_invoke recursion_limit
          (Agent_graph (logged_agent research_prompt elephant_fs) (\<lambda>r. r))
          nobel_question (start_world (map as_message (acts ?xs @ [Say elephant_answer]))) =
        (Inr final, \<lparr>script = [], log = events ?xs\<rparr>)"
    by blast
  have lt: "(0::int) < 5" by simp
  have acu: "Agent_call scripted_llm (Agent_init prompt) elephant_question ?u = (Inr unknown_reply, ?bu, ?w1)"
    by (simp add: Agent_call_def execute_def scripted_llm_def start_world_def Agent_init_prompt Let_def)
  have fu: "find_actions unknown_reply = [''search'', ''elephants''] # []"
    by (simp add: find_actions_def unknown_reply_def newline_def List.map_filter_simps re_match_def
      action_re_def rx_match.simps dot_def is_word_char_def)
  have ku: "?ka ''search'' = None" by (simp add: known_actions_def)
  from t lt acu fu ku
  have r1: "query_loop scripted_llm ?ka (\<lambda>v::unit. ''?'') 5 0 (Agent_init prompt) elephant_question ?u =
      (Inl (Exception (''Unknown action: '' @ ''search'' @ '': '' @ ''elephants'')), ?bu, ?w1)"
    by blast
  have n1: "lg_tools research_bot (name wiki_call) = None"
    by (simp add: wiki_call_def research_bot_simps)
  with t have "run_tool_calls research_bot (\<lambda>r. r) [wiki_call] [] nobel_world =
      (Inr [ToolMessage (call_id wiki_call) (name wiki_call) ''bad tool name, retry''], nobel_world)"
    by blast
  then have r2: "run_tool_calls research_bot (\<lambda>r. r) [wiki_call] [] nobel_world =
      (Inr [ToolMessage ''call_2'' ''wikipedia'' ''bad tool name, retry''], nobel_world)"
    by (simp add: wiki_call_def)
  from wf h2 h3 h4 q g ku r1 n1 r2 show ?thesis by (simp add: ev)
qed

text \<open>
  C2, as far as the code goes. Three places handle a failure: the handler of
  \<open>execute_cisco_command\<close> returns \<open>Error: <e>\<close> for an exception derived from
  \<open>Exception\<close> that the connection, the command or the disconnection raises, so
  the function never raises one, and returns the output of the command when
  none of the three fails; the handler of the interactive loop prints
  \<open>Error: <e>\<close> and reads the next input; \<open>take_action\<close> answers a bad tool name
  and goes on. Everywhere else an exception leaves the operation it
  occurs in: a tool's in \<open>take_action\<close>, the model's in \<open>call_openai\<close> and in
  \<open>Agent.__call__\<close>, the model's and an action's in \<open>query\<close>.
\<close>

theorem exception_handling:
  "(\<forall>msg w'. ConnectHandler device w = (Inl (Exception msg), w') \<longrightarrow>
       execute_cisco_command ConnectHandler send_command disconnect command w =
         (Inr (''Error: '' @ msg), w'))
   \<and> (\<forall>connection w1 msg w'. ConnectHandler device w = (Inr connection, w1) \<and>
         send_command connection command w1 = (Inl (Exception msg), w') \<longrightarrow>
       execute_cisco_command ConnectHandler send_command disconnect command w =
         (Inr (''Error: '' @ msg), w'))
   \<and> (\<forall>connection w1 result w2 msg w'. ConnectHandler device w = (Inr connection, w1) \<and>
         send_command connection command w1 = (Inr result, w2) \<and>
         disconnect connection w2 = (Inl (Exception msg), w') \<longrightarrow>
       execute_cisco_command ConnectHandler send_command disconnect command w =
         (Inr (''Error: '' @ msg), w'))
   \<and> (\<forall>connection w1 result w2 w'. ConnectHandler device w = (Inr connection, w1) \<and>
         send_command connection command w1 = (Inr result, w2) \<and>
         disconnect connection w2 = (Inr (), w') \<longrightarrow>
       execute_cisco_command ConnectHandler send_command disconnect command w = (Inr result, w'))
   \<and> (\<forall>msg. fst (execute_cisco_command ConnectHandler send_command disconnect command w)
          \<noteq> Inl (Exception msg))
   \<and> (\<forall>msg w'. lower user_input \<notin> set [''exit'', ''quit''] \<and> run user_input w = (Inl (Exception msg), w') \<longrightarrow>
       main_loop run (user_input # inputs) out w =
         main_loop run inputs (out @ [''Enter your command or query: '', ''Error: '' @ msg]) w')
   \<and> (lg_tools self (name t) = None \<longrightarrow>
       run_tool_calls self str (t # ts) results v =
         run_tool_calls self str ts
           (results @ [ToolMessage (call_id t) (name t) ''bad tool name, retry'']) v)
   \<and> (\<forall>tool e v'. lg_tools self (name t) = Some tool \<and> invoke tool (args t) v = (Inl e, v') \<longrightarrow>
       run_tool_calls self str (t # ts) results v = (Inl e, v'))
   \<and> (\<forall>e v'. lg_model self
          (if lg_system self \<noteq> [] then [SystemMessage (lg_system self)] @ state_messages state
           else state_messages state) v = (Inl e, v') \<longrightarrow>
       call_openai self state v = (Inl e, v'))
   \<and> (\<forall>e u'. llm (messages abot @ [\<lparr>role = ''user'', content = p\<rparr>]) u = (Inl e, u') \<longrightarrow>
       Agent_call llm abot p u =
         (Inl e, abot\<lparr>messages := messages abot @ [\<lparr>role = ''user'', content = p\<rparr>]\<rparr>, u'))
   \<and> (\<forall>e abot' u'. i < max_turns \<and> Agent_call llm abot p u = (Inl e, abot', u') \<longrightarrow>
       query_loop llm actions str_obs max_turns i abot p u = (Inl e, abot', u'))
   \<and> (\<forall>result abot' u' action action_input others f e u''.
       i < max_turns \<and> Agent_call llm abot p u = (Inr result, abot', u') \<and>
       find_actions result = [action, action_input] # others \<and> actions action = Some f \<and>
       f action_input u' = (Inl e, u'') \<longrightarrow>
       query_loop llm actions str_obs max_turns i abot p u = (Inl e, abot', u''))"
proof -
  have 1: "\<forall>msg w'. ConnectHandler device w = (Inl (Exception msg), w') \<longrightarrow>
       execute_cisco_command ConnectHandler send_command disconnect command w =
         (Inr (''Error: '' @ msg), w')"
    by (simp add: execute_cisco_command_def except_Exception_def)
  have 10: "\<forall>connection w1 msg w'. ConnectHandler device w = (Inr connection, w1) \<and>
         send_command connection command w1 = (Inl (Exception msg), w') \<longrightarrow>
       execute_cisco_command ConnectHandler send_command disconnect command w =
         (Inr (''Error: '' @ msg), w')"
    by (simp add: execute_cisco_command_def except_Exception_def)
  have 11: "\<forall>connection w1 result w2 msg w'. ConnectHandler device w = (Inr connection, w1) \<and>
         send_command connection command w1 = (Inr result, w2) \<and>
         disconnect connection w2 = (Inl (Exception msg), w') \<longrightarrow>
       execute_cisco_command ConnectHandler send_command disconnect command w =
         (Inr (''Error: '' @ msg), w')"
    by (simp add: execute_cisco_command_def except_Exception_def)
  have 12: "\<forall>connection w1 result w2 w'. ConnectHandler device w = (Inr connection, w1) \<and>
         send_command connection command w1 = (Inr result, w2) \<and>
         disconnect connection w2 = (Inr (), w') \<longrightarrow>
       execute_cisco_command ConnectHandler send_command disconnect command w = (Inr result, w')"
    by (simp add: execute_cisco_command_def)
  have 2: "\<forall>msg. fst (execute_cisco_command ConnectHandler send_command disconnect command w)
          \<noteq> Inl (Exception msg)"
    by (auto simp: execute_cisco_command_def except_Exception_def
        split: prod.splits sum.splits error.splits)
  have 3: "\<forall>msg w'. lower user_input \<notin> set [''exit'', ''quit''] \<and> run user_input w = (Inl (Exception msg), w') \<longrightarrow>
       main_loop run (user_input # inputs) out w =
         main_loop run inputs (out @ [''Enter your command or query: '', ''Error: '' @ msg]) w'"
    by (simp add: Let_def)
  have 4: "lg_tools self (name t) = None \<longrightarrow>
       run_tool_calls self str (t # ts) results v =
         run_tool_calls self str ts
           (results @ [ToolMessage (call_id t) (name t) ''bad tool name, retry'']) v"
    by simp
  have 5: "\<forall>tool e v'. lg_tools self (name t) = Some tool \<and> invoke tool (args t) v = (Inl e, v') \<longrightarrow>
       run_tool_calls self str (t # ts) results v = (Inl e, v')"
    by simp
  have 6: "\<forall>e v'. lg_model self
          (if lg_system self \<noteq> [] then [SystemMessage (lg_system self)] @ state_messages state
           else state_messages state) v = (Inl e, v') \<longrightarrow>
       call_openai self state v = (Inl e, v')"
    by (simp add: call_openai_def Let_def)
  have 7: "\<forall>e u'. llm (messages abot @ [\<lparr>role = ''user'', content = p\<rparr>]) u = (Inl e, u') \<longrightarrow>
       Agent_call llm abot p u =
         (Inl e, abot\<lparr>messages := messages abot @ [\<lparr>role = ''user'', content = p\<rparr>]\<rparr>, u')"
    by (simp add: Agent_call_def execute_def Let_def)
  have 8: "\<forall>e abot' u'. i < max_turns \<and> Agent_call llm abot p u = (Inl e, abot', u') \<longrightarrow>
       query_loop llm actions str_obs max_turns i abot p u = (Inl e, abot', u')"
    by (simp add: query_loop.simps)
  have 9: "\<forall>result abot' u' action action_input others f e u''.
       i < max_turns \<and> Agent_call llm abot p u = (Inr result, abot', u') \<and>
       find_actions result = [action, action_input] # others \<and> actions action = Some f \<and>
       f action_input u' = (Inl e, u'') \<longrightarrow>
       query_loop llm actions str_obs max_turns i abot p u = (Inl e, abot', u'')"
    by (auto simp: query_loop_action)
  show ?thesis
    by (rule conjI [OF 1 conjI [OF 10 conjI [OF 11 conjI [OF 12 conjI [OF 2 conjI [OF 3 conjI [OF 4
          conjI [OF 5 conjI [OF 6 conjI [OF 7 conjI [OF 8 9]]]]]]]]]]])
qed

text \<open>
  The connection fails and \<open>execute_cisco_command\<close> returns a text; \<open>agent.run\<close> fails
  and the interactive loop asks for the next input.
\<close>

theorem exception_handling_counterexample:
  "execute_cisco_command failing_connect echo_send ok_disconnect ''show version'' () =
     (Inr ''Error: TCP connection to device failed'', ())
   \<and> main failing_run [''show version'', ''exit''] () =
     (Inr (),
      [''Welcome to the Smart Network Assistant!'', ''Enter your command or query: '',
       ''Error: Could not parse LLM output'', ''Enter your command or query: '', ''Goodbye!''],
      ())"
  by (simp add: execute_cisco_command_def failing_connect_def except_Exception_def main_def
      failing_run_def lower_def py_lower_def Let_def)

text \<open>
  C8, as far as the code goes. In the LangGraph agent and in the hand-rolled loop
  the tool to run is chosen by the repository's own code: \<open>take_action\<close> invokes the
  tool that \<open>self.tools\<close> holds under the name of the tool call, with the
  arguments of the call; \<open>query\<close> applies the function that the dictionary of
  actions holds under the parsed name to the parsed input.
\<close>

theorem dispatch_in_repository:
  "(lg_tools self (name t) = Some tool \<longrightarrow>
      run_tool_calls self str [t] [] v =
        (case invoke tool (args t) v of
           (Inl e, v') \<Rightarrow> (Inl e, v')
         | (Inr result, v') \<Rightarrow> (Inr [ToolMessage (call_id t) (name t) (str result)], v')))
   \<and> (i < max_turns \<and> Agent_call llm abot p u = (Inr result, abot', u') \<and>
       find_actions result = [action, action_input] # others \<and> actions action = Some f \<longrightarrow>
       query_loop llm actions str_obs max_turns i abot p u =
         (case f action_input u' of
            (Inl e, u'') \<Rightarrow> (Inl e, abot', u'')
          | (Inr observation, u'') \<Rightarrow>
              query_loop llm actions str_obs max_turns (i + 1) abot'
                (''Observation: '' @ py_format str_obs observation) u''))"
proof -
  have 1: "lg_tools self (name t) = Some tool \<longrightarrow>
      run_tool_calls self str [t] [] v =
        (case invoke tool (args t) v of
           (Inl e, v') \<Rightarrow> (Inl e, v')
         | (Inr result, v') \<Rightarrow> (Inr [ToolMessage (call_id t) (name t) (str result)], v'))"
    by (simp split: prod.splits sum.splits)
  have 2: "i < max_turns \<and> Agent_call llm abot p u = (Inr result, abot', u') \<and>
       find_actions result = [action, action_input] # others \<and> actions action = Some f \<longrightarrow>
       query_loop llm actions str_obs max_turns i abot p u =
         (case f action_input u' of
            (Inl e, u'') \<Rightarrow> (Inl e, abot', u'')
          | (Inr observation, u'') \<Rightarrow>
              query_loop llm actions str_obs max_turns (i + 1) abot'
                (''Observation: '' @ py_format str_obs observation) u'')"
    by (auto simp: query_loop_action)
  show ?thesis by (rule conjI [OF 1 2])
qed

text \<open>
  Two tools and two messages of the model that differ in the name they ask for:
  \<open>take_action\<close> runs the tool that its own dictionary holds under that name.
\<close>

theorem dispatch_counterexample:
  "take_action (logged_agent research_prompt two_fs) (\<lambda>r. r)
     \<lparr>state_messages = [AIMessage [] [calculator_call]]\<rparr> (start_world []) =
     (Inr [ToolMessage ''call_3'' ''calculator'' ''4''],
      \<lparr>script = [], log = [ToolCall ''calculator'' ''2 + 2'']\<rparr>)
   \<and> take_action (logged_agent research_prompt two_fs) (\<lambda>r. r)
     \<lparr>state_messages = [AIMessage [] [search_call]]\<rparr> (start_world []) =
     (Inr [ToolMessage ''call_1'' ''tavily_search_results_json'' ''results for nobel prize physics''],
      \<lparr>script = [], log = [ToolCall ''tavily_search_results_json'' ''nobel prize physics'']\<rparr>)"
  by (simp add: take_action_def last_message_def tool_calls_def logged_agent_def logged_tools_def
      two_fs_def calculator_call_def search_call_def logged_tool_def start_world_def)

lemma broken_bot_simps:
  "lg_system broken_bot = research_prompt"
  "lg_tools broken_bot ''tavily_search_results_json'' = Some broken_tool"
  "lg_model broken_bot = scripted_llm"
  by (simp_all add: broken_bot_def lg_Agent_init_def broken_tool_def scripted_model_def fun_eq_iff)

theorem exception_handling_witness:
  "failing_connect device () = (Inl (Exception ''TCP connection to device failed''), ())
   \<and> execute_cisco_command failing_connect echo_send ok_disconnect ''show version'' () =
       (Inr ''Error: TCP connection to device failed'', ())
   \<and> ok_connect device () = (Inr (), ())
   \<and> failing_send () ''show version'' () = (Inl (Exception ''socket closed''), ())
   \<and> execute_cisco_command ok_connect failing_send ok_disconnect ''show version'' () =
       (Inr ''Error: socket closed'', ())
   \<and> echo_send () ''show version'' () = (Inr ''show version'', ())
   \<and> failing_disconnect () () = (Inl (Exception ''session lost''), ())
   \<and> execute_cisco_command ok_connect echo_send failing_disconnect ''show version'' () =
       (Inr ''Error: session lost'', ())
   \<and> ok_disconnect () () = (Inr (), ())
   \<and> execute_cisco_command ok_connect echo_send ok_disconnect ''show version'' () =
       (Inr ''show version'', ())
   \<and> fst (execute_cisco_command failing_connect echo_send ok_disconnect ''show version'' ())
       \<noteq> Inl (Exception ''TCP connection to device failed'')
   \<and> lower ''show version'' \<notin> set [''exit'', ''quit'']
   \<and> failing_run ''show version'' () = (Inl (Exception ''Could not parse LLM output''), ())
   \<and> main_loop failing_run [''show version'', ''exit''] [] () =
       main_loop failing_run [''exit'']
         [''Enter your command or query: '', ''Error: Could not parse LLM output''] ()
   \<and> lg_tools research_bot (name wiki_call) = None
   \<and> run_tool_calls research_bot (\<lambda>r. r) [wiki_call] [] nobel_world =
       run_tool_calls research_bot (\<lambda>r. r) []
         [ToolMessage ''call_2'' ''wikipedia'' ''bad tool name, retry''] nobel_world
   \<and> lg_tools broken_bot (name search_call) = Some broken_tool
   \<and> invoke broken_tool (args search_call) nobel_world = (Inl (Exception ''rate limit exceeded''), nobel_world)
   \<and> run_tool_calls broken_bot (\<lambda>r. r) [search_call] [] nobel_world =
       (Inl (Exception ''rate limit exceeded''), nobel_world)
   \<and> call_openai research_bot nobel_question (start_world []) =
       (Inl (Exception ''request failed''), \<lparr>script = [], log = [ModelCall]\<rparr>)
   \<and> Agent_call scripted_llm (Agent_init prompt) elephant_question
        (start_world [] :: (string, string) rec_world) =
       (Inl (Exception ''request failed''),
        \<lparr>system = prompt,
         messages = [\<lparr>role = ''system'', content = prompt\<rparr>,
                     \<lparr>role = ''user'', content = elephant_question\<rparr>]\<rparr>,
        \<lparr>script = [], log = [ModelCall]\<rparr>)
   \<and> (0::int) < 5
   \<and> query_loop scripted_llm (known_actions no_eval) (\<lambda>v::unit. ''?'') 5 0 (Agent_init prompt)
        elephant_question (start_world [] :: (string, string) rec_world) =
       (Inl (Exception ''request failed''),
        \<lparr>system = prompt,
         messages = [\<lparr>role = ''system'', content = prompt\<rparr>,
                     \<lparr>role = ''user'', content = elephant_question\<rparr>]\<rparr>,
        \<lparr>script = [], log = [ModelCall]\<rparr>)
   \<and> find_actions calculate_reply = [''calculate'', ''1 +''] # []
   \<and> query_loop scripted_llm (known_actions no_eval) (\<lambda>v::unit. ''?'') 5 0 (Agent_init prompt)
        elephant_question (start_world [calculate_reply] :: (string, string) rec_world) =
       (Inl (Exception ''invalid syntax''),
        \<lparr>system = prompt,
         messages = [\<lparr>role = ''system'', content = prompt\<rparr>,
                     \<lparr>role = ''user'', content = elephant_question\<rparr>,
                     \<lparr>role = ''assistant'', content = calculate_reply\<rparr>]\<rparr>,
        \<lparr>script = [], log = [ModelCall]\<rparr>)"
proof -
  let ?id = "\<lambda>r::string. r"
  let ?str = "\<lambda>v::unit. ''?''"
  let ?ka = "known_actions (no_eval :: string \<Rightarrow> ((string, string) rec_world, unit pyval) ext)"
  let ?e = "start_world [] :: (string, string) rec_world"
  let ?c = "start_world [calculate_reply] :: (string, string) rec_world"
  let ?m = "start_world [] :: (string message, string) rec_world"
  let ?w1 = "\<lparr>script = [], log = [ModelCall]\<rparr> :: (string, string) rec_world"
  let ?b0 = "\<lparr>system = prompt,
         messages = [\<lparr>role = ''system'', content = prompt\<rparr>,
                     \<lparr>role = ''user'', content = elephant_question\<rparr>]\<rparr>"
  let ?bc = "\<lparr>system = prompt,
         messages = [\<lparr>role = ''system'', content = prompt\<rparr>,
                     \<lparr>role = ''user'', content = elephant_question\<rparr>,
                     \<lparr>role = ''assistant'', content = calculate_reply\<rparr>]\<rparr>"
  note t0 = exception_handling [where command = "''show version''" and w = "()"
      and user_input = "''show version''" and run = failing_run and inputs = "[''exit'']" and out = "[]"
      and str = ?id and ts = "[]" and results = "[]" and v = nobel_world
      and llm = scripted_llm and abot = "Agent_init prompt" and p = elephant_question
      and i = 0 and max_turns = 5 and actions = ?ka and str_obs = ?str
      and self = research_bot and t = wiki_call and state = nobel_question and u = ?e]
  note ts = t0 [where ConnectHandler = ok_connect and send_command = failing_send
      and disconnect = ok_disconnect]
  note td = t0 [where ConnectHandler = ok_connect and send_command = echo_send
      and disconnect = failing_disconnect]
  note tk = t0 [where ConnectHandler = ok_connect and send_command = echo_send
      and disconnect = ok_disconnect]
  note t = exception_handling [where ConnectHandler = failing_connect and send_command = echo_send
      and disconnect = ok_disconnect and command = "''show version''" and w = "()"
      and user_input = "''show version''" and run = failing_run and inputs = "[''exit'']" and out = "[]"
      and str = ?id and ts = "[]" and results = "[]" and v = nobel_world
      and llm = scripted_llm and abot = "Agent_init prompt" and p = elephant_question
      and i = 0 and max_turns = 5 and actions = ?ka and str_obs = ?str]
  note ta = t [where self = research_bot and t = wiki_call and state = nobel_question and u = ?e]
  note tb = t [where self = broken_bot and t = search_call and state = nobel_question and u = ?c]
  note tc = exception_handling [where self = research_bot and state = nobel_question and v = ?m
      and ConnectHandler = failing_connect and send_command = echo_send
      and disconnect = ok_disconnect and command = "''show version''" and w = "()"
      and user_input = "''show version''" and run = failing_run and inputs = "[''exit'']" and out = "[]"
      and str = ?id and ts = "[]" and results = "[]" and t = wiki_call
      and llm = scripted_llm and abot = "Agent_init prompt" and p = elephant_question
      and i = 0 and max_turns = 5 and actions = ?ka and str_obs = ?str and u = ?e]
  have h1: "failing_connect device () = (Inl (Exception ''TCP connection to device failed''), ())"
    by (simp add: failing_connect_def)
  from ta h1 have c1: "execute_cisco_command failing_connect echo_send ok_disconnect ''show version'' () =
       (Inr (''Error: '' @ ''TCP connection to device failed''), ())"
    by simp
  have k1: "ok_connect device () = (Inr (), ())" by (simp add: ok_connect_def)
  have k2: "failing_send () ''show version'' () = (Inl (Exception ''socket closed''), ())"
    by (simp add: failing_send_def)
  have k3: "echo_send () ''show version'' () = (Inr ''show version'', ())"
    by (simp add: echo_send_def)
  have k4: "failing_disconnect () () = (Inl (Exception ''session lost''), ())"
    by (simp add: failing_disconnect_def)
  have k5: "ok_disconnect () () = (Inr (), ())" by (simp add: ok_disconnect_def)
  from k1 k2 ts have c1a: "execute_cisco_command ok_connect failing_send ok_disconnect ''show version'' () =
       (Inr (''Error: '' @ ''socket closed''), ())"
    by simp
  from k1 k3 k4 td have c1b: "execute_cisco_command ok_connect echo_send failing_disconnect ''show version'' () =
       (Inr (''Error: '' @ ''session lost''), ())"
    by simp
  from k1 k3 k5 tk have c1c: "execute_cisco_command ok_connect echo_send ok_disconnect ''show version'' () =
       (Inr ''show version'', ())"
    by simp
  from ta have c2: "fst (execute_cisco_command failing_connect echo_send ok_disconnect ''show version'' ())
       \<noteq> Inl (Exception ''TCP connection to device failed'')"
    by simp
  have h3: "lower ''show version'' \<notin> set [''exit'', ''quit'']"
    by (simp add: lower_def py_lower_def)
  have h3': "failing_run ''show version'' () = (Inl (Exception ''Could not parse LLM output''), ())"
    by (simp add: failing_run_def)
  from ta h3 h3' have c3: "main_loop failing_run (''show version'' # [''exit'']) [] () =
       main_loop failing_run [''exit'']
         ([] @ [''Enter your command or query: '', ''Error: '' @ ''Could not parse LLM output'']) ()"
    by simp
  have h4: "lg_tools research_bot (name wiki_call) = None"
    by (simp add: wiki_call_def research_bot_simps)
  from ta h4 have c4: "run_tool_calls research_bot ?id (wiki_call # []) [] nobel_world =
       run_tool_calls research_bot ?id []
         ([] @ [ToolMessage (call_id wiki_call) (name wiki_call) ''bad tool name, retry'']) nobel_world"
    by simp
  have h5: "lg_tools broken_bot (name search_call) = Some broken_tool"
    by (simp add: search_call_def broken_bot_simps)
  have h5': "invoke broken_tool (args search_call) nobel_world =
      (Inl (Exception ''rate limit exceeded''), nobel_world)"
    by (simp add: broken_tool_def)
  from tb h5 h5' have c5: "run_tool_calls broken_bot ?id (search_call # []) [] nobel_world =
       (Inl (Exception ''rate limit exceeded''), nobel_world)"
    by simp
  have h6: "lg_model research_bot
          (if lg_system research_bot \<noteq> [] then [SystemMessage (lg_system research_bot)] @
             state_messages nobel_question
           else state_messages nobel_question) ?m =
         (Inl (Exception ''request failed''), \<lparr>script = [], log = [ModelCall]\<rparr>)"
    by (simp add: research_bot_simps scripted_llm_def start_world_def)
  from tc h6 have c6: "call_openai research_bot nobel_question ?m =
       (Inl (Exception ''request failed''), \<lparr>script = [], log = [ModelCall]\<rparr>)"
    by simp
  have h7: "scripted_llm (messages (Agent_init prompt) @ [\<lparr>role = ''user'', content = elephant_question\<rparr>]) ?e =
      (Inl (Exception ''request failed''), ?w1)"
    by (simp add: scripted_llm_def start_world_def)
  from ta h7 have c7: "Agent_call scripted_llm (Agent_init prompt) elephant_question ?e =
      (Inl (Exception ''request failed''),
       (Agent_init prompt)\<lparr>messages := messages (Agent_init prompt) @
           [\<lparr>role = ''user'', content = elephant_question\<rparr>]\<rparr>, ?w1)"
    by simp
  then have c7': "Agent_call scripted_llm (Agent_init prompt) elephant_question ?e =
      (Inl (Exception ''request failed''), ?b0, ?w1)"
    by (simp add: Agent_init_prompt)
  have lt: "(0::int) < 5" by simp
  from ta lt c7' have c8: "query_loop scripted_llm ?ka ?str 5 0 (Agent_init prompt) elephant_question ?e =
      (Inl (Exception ''request failed''), ?b0, ?w1)"
    by simp
  have h9a: "Agent_call scripted_llm (Agent_init prompt) elephant_question ?c = (Inr calculate_reply, ?bc, ?w1)"
    by (simp add: Agent_call_def execute_def scripted_llm_def start_world_def Agent_init_prompt Let_def)
  have h9b: "find_actions calculate_reply = [''calculate'', ''1 +''] # []"
    by (simp add: find_actions_def calculate_reply_def newline_def List.map_filter_simps re_match_def
      action_re_def rx_match.simps dot_def is_word_char_def)
  let ?ne = "no_eval :: string \<Rightarrow> ((string, string) rec_world, unit pyval) ext"
  have h9c: "?ka ''calculate'' = Some (calculate ?ne)"
    by (simp add: known_actions_def)
  have h9d: "calculate ?ne ''1 +'' ?w1 = (Inl (Exception ''invalid syntax''), ?w1)"
    by (simp add: calculate_def no_eval_def)
  from h9d h9c h9b h9a lt tb
  have c9: "query_loop scripted_llm ?ka ?str 5 0 (Agent_init prompt) elephant_question ?c =
      (Inl (Exception ''invalid syntax''), ?bc, ?w1)"
    by simp
  from h1 c1 k1 k2 c1a k3 k4 c1b k5 c1c c2 h3 h3' c3 h4 c4 h5 h5' c5 c6 c7' lt c8 h9b c9 show ?thesis
    by (simp add: wiki_call_def)
qed

theorem dispatch_in_repository_witness:
  "lg_tools (logged_agent research_prompt two_fs) (name calculator_call) =
       Some \<lparr>tool_name = ''calculator'', invoke = logged_tool ''calculator'' (\<lambda>e. ''4'')\<rparr>
   \<and> run_tool_calls (logged_agent research_prompt two_fs) (\<lambda>r. r) [calculator_call] [] (start_world []) =
       (Inr [ToolMessage ''call_3'' ''calculator'' ''4''],
        \<lparr>script = [], log = [ToolCall ''calculator'' ''2 + 2'']\<rparr>)
   \<and> (0::int) < 5
   \<and> Agent_call scripted_llm (Agent_init prompt) elephant_question elephant_world =
        (Inr elephant_reply,
         \<lparr>system = prompt,
          messages = [\<lparr>role = ''system'', content = prompt\<rparr>,
                      \<lparr>role = ''user'', content = elephant_question\<rparr>,
                      \<lparr>role = ''assistant'', content = elephant_reply\<rparr>]\<rparr>,
         \<lparr>script = [elephant_answer], log = [ModelCall]\<rparr>)
   \<and> find_actions elephant_reply = [''average_elephant_weight'', ''African Elephant''] # []
   \<and> known_actions (no_eval :: string \<Rightarrow> ((string, string) rec_world, unit pyval) ext)
        ''average_elephant_weight'' = Some average_elephant_weight
   \<and> query_loop scripted_llm (known_actions no_eval) (\<lambda>v::unit. ''?'') 5 0 (Agent_init prompt)
        elephant_question elephant_world =
      query_loop scripted_llm (known_actions no_eval) (\<lambda>v::unit. ''?'') 5 1
         \<lparr>system = prompt,
          messages = [\<lparr>role = ''system'', content = prompt\<rparr>,
                      \<lparr>role = ''user'', content = elephant_question\<rparr>,
                      \<lparr>role = ''assistant'', content = elephant_reply\<rparr>]\<rparr>
         ''Observation: An African Elephant weighs 12,000 lbs''
         \<lparr>script = [elephant_answer], log = [ModelCall]\<rparr>"
proof -
  let ?ka = "known_actions (no_eval :: string \<Rightarrow> ((string, string) rec_world, unit pyval) ext)"
  let ?str = "\<lambda>v::unit. ''?''"
  let ?tool = "\<lparr>tool_name = ''calculator'', invoke = logged_tool ''calculator'' (\<lambda>e. ''4'')\<rparr>
      :: ((string message, string) rec_world, string, string) tool"
  let ?be = "\<lparr>system = prompt,
          messages = [\<lparr>role = ''system'', content = prompt\<rparr>,
                      \<lparr>role = ''user'', content = elephant_question\<rparr>,
                      \<lparr>role = ''assistant'', content = elephant_reply\<rparr>]\<rparr>"
  let ?w2 = "\<lparr>script = [elephant_answer], log = [ModelCall]\<rparr> :: (string, string) rec_world"
  note t = dispatch_in_repository [where self = "logged_agent research_prompt two_fs"
      and t = calculator_call and tool = ?tool and str = "\<lambda>r. r" and v = "start_world []"
      and i = 0 and max_turns = 5 and llm = scripted_llm and abot = "Agent_init prompt"
      and p = elephant_question and u = elephant_world and result = elephant_reply and abot' = ?be
      and u' = ?w2 and action = "''average_elephant_weight''" and action_input = "''African Elephant''"
      and others = "[]" and actions = ?ka and f = average_elephant_weight and str_obs = ?str]
  have h1: "lg_tools (logged_agent research_prompt two_fs) (name calculator_call) = Some ?tool"
    by (simp add: logged_agent_def logged_tools_def two_fs_def calculator_call_def)
  with t have "run_tool_calls (logged_agent research_prompt two_fs) (\<lambda>r. r) [calculator_call] [] (start_world []) =
        (case invoke ?tool (args calculator_call) (start_world []) of
           (Inl e, v') \<Rightarrow> (Inl e, v')
         | (Inr result, v') \<Rightarrow>
             (Inr [ToolMessage (call_id calculator_call) (name calculator_call) result], v'))"
    by blast
  then have c1: "run_tool_calls (logged_agent research_prompt two_fs) (\<lambda>r. r) [calculator_call] []
        (start_world []) =
       (Inr [ToolMessage ''call_3'' ''calculator'' ''4''],
        \<lparr>script = [], log = [ToolCall ''calculator'' ''2 + 2'']\<rparr>)"
    by (simp add: logged_tool_def calculator_call_def start_world_def)
  have lt: "(0::int) < 5" by simp
  have ace: "Agent_call scripted_llm (Agent_init prompt) elephant_question elephant_world =
      (Inr elephant_reply, ?be, ?w2)"
    by (simp add: Agent_call_def execute_def scripted_llm_def start_world_def elephant_world_def
        Agent_init_prompt Let_def)
  have fe: "find_actions elephant_reply = [''average_elephant_weight'', ''African Elephant''] # []"
    by (simp add: find_actions_elephant)
  have ke: "?ka ''average_elephant_weight'' = Some average_elephant_weight"
    by (simp add: known_actions_def)
  from t lt ace fe ke
  have "query_loop scripted_llm ?ka ?str 5 0 (Agent_init prompt) elephant_question elephant_world =
         (case average_elephant_weight ''African Elephant'' ?w2 of
            (Inl e, u'') \<Rightarrow> (Inl e, ?be, u'')
          | (Inr observation, u'') \<Rightarrow>
              query_loop scripted_llm ?ka ?str 5 (0 + 1) ?be
                (''Observation: '' @ py_format ?str observation) u'')"
    by blast
  then have c2: "query_loop scripted_llm ?ka ?str 5 0 (Agent_init prompt) elephant_question elephant_world =
      query_loop scripted_llm ?ka ?str 5 1 ?be ''Observation: An African Elephant weighs 12,000 lbs'' ?w2"
    by (simp add: elephant_weight_African py_format_def)
  from h1 c1 lt ace fe ke c2 show ?thesis by blast
qed

end
